theory Spec2Isabelle
  imports Complex_Main "HOL-Library.Multiset" "HOL-Library.Log_Nat"
begin

section \<open>The relational schema (schema.ts)\<close>

text \<open>
  Column types. A \<open>varchar\<close> or \<open>text\<close> column holds a string of characters (one \<open>char\<close>
  is one character), a \<open>timestamp\<close> column (a JavaScript \<open>Date\<close>) a number of milliseconds,
  an \<open>integer\<close> column an integer. A \<open>decimal(10,2)\<close> column holds a decimal number with
  two digits after the point and at most eight before it; the driver hands it to
  JavaScript as a string, which the code reads with \<open>Number(...)\<close>.
\<close>

type_synonym varchar = string
type_synonym timestamp = int
type_synonym decimal = rat

text \<open>Table \<open>users\<close>.\<close>

record User =
  u_id :: varchar
  u_email :: "varchar option"
  u_firstName :: "varchar option"
  u_lastName :: "varchar option"
  u_profileImageUrl :: "varchar option"
  u_role :: varchar
  u_governmentId :: "varchar option"
  u_createdAt :: timestamp
  u_updatedAt :: timestamp

text \<open>Table \<open>cars\<close>.\<close>

record Car =
  c_id :: varchar
  c_ownerId :: varchar
  c_brand :: varchar
  c_model :: varchar
  c_year :: int
  c_registrationNumber :: varchar
  c_carType :: varchar
  c_transmission :: varchar
  c_fuelType :: varchar
  c_seats :: int
  c_pricePerDay :: decimal
  c_images :: "string list"
  c_features :: "string list option"
  c_description :: "string option"
  c_isAvailable :: bool
  c_createdAt :: timestamp
  c_updatedAt :: timestamp

text \<open>Table \<open>bookings\<close>; \<open>status\<close> and \<open>paymentStatus\<close> are free-form \<open>varchar(20)\<close> columns.\<close>

record Booking =
  b_id :: varchar
  b_carId :: varchar
  b_userId :: varchar
  b_startDate :: timestamp
  b_endDate :: timestamp
  b_totalCost :: decimal
  b_status :: varchar
  b_paymentStatus :: varchar
  b_createdAt :: timestamp
  b_updatedAt :: timestamp

text \<open>Table \<open>payments\<close>; \<open>bookingId\<close> is a unique foreign key.\<close>

record Payment =
  p_id :: varchar
  p_bookingId :: varchar
  p_amount :: decimal
  p_currency :: varchar
  p_razorpayOrderId :: "varchar option"
  p_razorpayPaymentId :: "varchar option"
  p_status :: varchar
  p_createdAt :: timestamp
  p_updatedAt :: timestamp

text \<open>Table \<open>reviews\<close>.\<close>

record Review =
  r_id :: varchar
  r_carId :: varchar
  r_userId :: varchar
  r_rating :: int
  r_comment :: "string option"
  r_ownerResponse :: "string option"
  r_createdAt :: timestamp
  r_updatedAt :: timestamp

text \<open>
  The database: one list of rows per table, in insertion order. A \<open>select\<close> with no
  \<open>orderBy\<close> returns the rows in table order.
\<close>

record db =
  users :: "User list"
  cars :: "Car list"
  bookings :: "Booking list"
  payments :: "Payment list"
  reviews :: "Review list"

text \<open>What a statement can fail with: a primary-key or \<open>unique\<close> column that would
  repeat, a \<open>references\<close> column that would point at no row, a string too long for its
  \<open>varchar(n)\<close> column (SQLSTATE 22001), a number too large for its \<open>decimal(10,2)\<close> column
  (SQLSTATE 22003, \<open>numeric field overflow\<close>).\<close>

datatype storage_error = UniqueViolation | ForeignKeyViolation | StringTooLong | NumericOverflow

text \<open>A value assigned to a \<open>varchar(n)\<close> column: a string of at most \<open>n\<close> characters is
  stored as it is; a longer one loses its excess when that is all spaces, and makes
  the statement fail otherwise.\<close>

definition varchar_n :: "nat \<Rightarrow> string \<Rightarrow> storage_error + string" where
  "varchar_n n s =
     (if length s \<le> n then Inr s
      else if list_all (\<lambda>c. c = CHR '' '') (drop n s) then Inr (take n s)
      else Inl StringTooLong)"

text \<open>A value assigned to a \<open>decimal(10,2)\<close> column is rounded to two digits after the
  point, half away from zero; the statement fails when the rounded number needs more
  than eight digits before the point.\<close>

definition round2 :: "rat \<Rightarrow> rat" where
  "round2 x = (if 0 \<le> x then of_int \<lfloor>x * 100 + 1 / 2\<rfloor> / 100
               else - (of_int \<lfloor>- x * 100 + 1 / 2\<rfloor> / 100))"

definition decimal_10_2 :: "rat \<Rightarrow> storage_error + rat" where
  "decimal_10_2 x = (if \<bar>round2 x\<bar> < 10 ^ 8 then Inr (round2 x) else Inl NumericOverflow)"

text \<open>A column that the statement may leave out.\<close>

definition inColumn :: "('a \<Rightarrow> storage_error + 'a) \<Rightarrow> 'a option \<Rightarrow> storage_error + 'a option" where
  "inColumn column field =
     (case field of
        None \<Rightarrow> Inr None
      | Some v \<Rightarrow> (case column v of Inl error \<Rightarrow> Inl error | Inr stored \<Rightarrow> Inr (Some stored)))"

text \<open>\<open>orderBy(desc(createdAt))\<close>: rows by decreasing creation time; rows of the same
  creation time stay in table order.\<close>

definition orderByDesc :: "('a \<Rightarrow> timestamp) \<Rightarrow> 'a list \<Rightarrow> 'a list" where
  "orderByDesc k rows = sort_key (\<lambda>row. - k row) rows"

section \<open>JavaScript numbers\<close>

text \<open>
  A JavaScript number is an IEEE 754 double. A finite one is taken as the rational
  number it denotes, and every arithmetic operation returns the double nearest to
  the exact result, a tie going to the even significand: \<open>binary64\<close> rounds a rational
  to 53 significant bits. The exponent range of a double is not modelled: what the
  code computes from \<open>integer\<close> and \<open>decimal(10,2)\<close> columns stays far inside it.
\<close>

text \<open>\<open>pow2 e\<close> is 2 to the power \<open>e\<close>; \<open>floor_log2 x\<close>, for a positive \<open>x\<close>, is the exponent
  \<open>k\<close> with \<open>pow2 k \<le> x < pow2 (k + 1)\<close>.\<close>

definition pow2 :: "int \<Rightarrow> rat" where
  "pow2 e = (if 0 \<le> e then 2 ^ nat e else 1 / 2 ^ nat (- e))"

definition floor_log2 :: "rat \<Rightarrow> int" where
  "floor_log2 x = (if 1 \<le> x then bitlen \<lfloor>x\<rfloor> - 1 else - bitlen (\<lceil>1 / x\<rceil> - 1))"

definition round_half_even :: "rat \<Rightarrow> int" where
  "round_half_even x =
     (let n = \<lfloor>x\<rfloor>; r = x - of_int n
      in if r < 1 / 2 then n else if 1 / 2 < r then n + 1 else if even n then n else n + 1)"

definition binary64 :: "rat \<Rightarrow> rat" where
  "binary64 x =
     (if x = 0 then 0
      else (let e = floor_log2 \<bar>x\<bar> - 52
            in of_int (round_half_even (x / pow2 e)) * pow2 e))"

text \<open>\<open>a + b\<close> and \<open>a / b\<close> on numbers (the code divides by an array length it has found
  positive), and \<open>Number(s)\<close> for the string of a \<open>decimal(10,2)\<close> column.\<close>

definition number_add :: "rat \<Rightarrow> rat \<Rightarrow> rat" where
  "number_add a b = binary64 (a + b)"

definition number_div :: "rat \<Rightarrow> rat \<Rightarrow> rat" where
  "number_div a b = binary64 (a / b)"

definition toNumber :: "decimal \<Rightarrow> rat" where
  "toNumber x = binary64 x"

section \<open>The storage layer (class DatabaseStorage)\<close>

subsection \<open>Reads\<close>

text \<open>\<open>const [row] = await db.select()...\<close>: the first row, or \<open>undefined\<close>.\<close>

definition firstRow :: "'a list \<Rightarrow> 'a option" where
  "firstRow rows = (case rows of [] \<Rightarrow> None | x # _ \<Rightarrow> Some x)"

definition getUser :: "db \<Rightarrow> varchar \<Rightarrow> User option" where
  "getUser d uid = firstRow (filter (\<lambda>u. u_id u = uid) (users d))"

definition getCarById :: "db \<Rightarrow> varchar \<Rightarrow> Car option" where
  "getCarById d cid = firstRow (filter (\<lambda>c. c_id c = cid) (cars d))"

definition getCarsByOwner :: "db \<Rightarrow> varchar \<Rightarrow> Car list" where
  "getCarsByOwner d ownerId = filter (\<lambda>c. c_ownerId c = ownerId) (cars d)"

definition getAllBookings :: "db \<Rightarrow> Booking list" where
  "getAllBookings d = orderByDesc b_createdAt (bookings d)"

definition getBookingById :: "db \<Rightarrow> varchar \<Rightarrow> Booking option" where
  "getBookingById d bid = firstRow (filter (\<lambda>b. b_id b = bid) (bookings d))"

definition getBookingsByUser :: "db \<Rightarrow> varchar \<Rightarrow> Booking list" where
  "getBookingsByUser d uid =
     orderByDesc b_createdAt (filter (\<lambda>b. b_userId b = uid) (bookings d))"

text \<open>The bookings of each of the owner's cars, car after car.\<close>

definition getBookingsByOwner :: "db \<Rightarrow> varchar \<Rightarrow> Booking list" where
  "getBookingsByOwner d ownerId =
     (let carIds = map c_id (getCarsByOwner d ownerId)
      in if length carIds = 0 then []
         else concat (map (\<lambda>carId.
                orderByDesc b_createdAt (filter (\<lambda>b. b_carId b = carId) (bookings d))) carIds))"

text \<open>
  \<open>checkAvailability\<close>: the bookings of the car whose status is \<open>confirmed\<close> or
  \<open>pending\<close> and whose dates meet the requested ones; available when there is none.
\<close>

definition checkAvailability :: "db \<Rightarrow> varchar \<Rightarrow> timestamp \<Rightarrow> timestamp \<Rightarrow> bool" where
  "checkAvailability d carId startDate endDate =
     (let overlappingBookings =
            filter (\<lambda>b. b_carId b = carId
                       \<and> b_status b \<in> set [''confirmed'', ''pending'']
                       \<and> (b_startDate b \<le> endDate \<and> b_endDate b \<ge> startDate))
                   (bookings d)
      in length overlappingBookings = 0)"

definition getPaymentByBookingId :: "db \<Rightarrow> varchar \<Rightarrow> Payment option" where
  "getPaymentByBookingId d bid = firstRow (filter (\<lambda>p. p_bookingId p = bid) (payments d))"

definition getReviewsByCarId :: "db \<Rightarrow> varchar \<Rightarrow> Review list" where
  "getReviewsByCarId d carId =
     orderByDesc r_createdAt (filter (\<lambda>r. r_carId r = carId) (reviews d))"

text \<open>\<open>reduce((sum, r) => sum + r.rating, 0)\<close> is a left fold from 0; \<open>rating\<close>, an
  \<open>integer\<close> column, is a number as it is.\<close>

definition getAverageRating :: "db \<Rightarrow> varchar \<Rightarrow> rat" where
  "getAverageRating d carId =
     (let carReviews = getReviewsByCarId d carId
      in if length carReviews = 0 then 0
         else (let total = foldl (\<lambda>sum review. number_add sum (of_int (r_rating review)))
                                 0 carReviews
               in number_div total (of_nat (length carReviews))))"

text \<open>A car of \<open>getAllCars\<close>: the row with its \<open>averageRating\<close> and \<open>reviewCount\<close>.\<close>

record CarWithRating =
  cr_car :: Car
  cr_averageRating :: rat
  cr_reviewCount :: nat

definition getAllCars :: "db \<Rightarrow> CarWithRating list" where
  "getAllCars d =
     (let allCars = filter (\<lambda>c. c_isAvailable c = True) (cars d)
      in map (\<lambda>car.
           (let carReviews = filter (\<lambda>r. r_carId r = c_id car) (reviews d);
                avgRating = (if length carReviews > 0
                             then number_div
                                    (foldl (\<lambda>sum r. number_add sum (of_int (r_rating r)))
                                           0 carReviews)
                                    (of_nat (length carReviews))
                             else 0)
            in \<lparr>cr_car = car, cr_averageRating = avgRating,
                cr_reviewCount = length carReviews\<rparr>)) allCars)"

subsection \<open>Writes\<close>

text \<open>
  Every write is one SQL statement: it either fails as a whole, leaving the database
  as it was, or takes effect. The values the database server supplies are arguments:
  \<open>uuid\<close> is what \<open>gen_random_uuid()\<close> returns for the \<open>id\<close> column, \<open>now\<close> what
  \<open>defaultNow()\<close> and \<open>new Date()\<close> return. A statement fails only on a value that does
  not fit its column or on a constraint of the schema; a failure of the connection is
  not among the outcomes. The values are fitted to their columns before any row is
  looked at, so a value that does not fit makes an \<open>update\<close> fail whether or not a row
  has the identifier.
\<close>

text \<open>\<open>InsertBooking\<close>: \<open>id\<close>, \<open>createdAt\<close> and \<open>updatedAt\<close> are omitted; a column with
  a default may be left out (\<open>None\<close>).\<close>

record InsertBooking =
  ib_carId :: varchar
  ib_userId :: varchar
  ib_startDate :: timestamp
  ib_endDate :: timestamp
  ib_totalCost :: decimal
  ib_status :: "varchar option"
  ib_paymentStatus :: "varchar option"

record InsertPayment =
  ip_bookingId :: varchar
  ip_amount :: decimal
  ip_currency :: "varchar option"
  ip_razorpayOrderId :: "varchar option"
  ip_razorpayPaymentId :: "varchar option"
  ip_status :: "varchar option"

text \<open>\<open>Partial<InsertBooking>\<close> and \<open>Partial<InsertPayment>\<close>: every field may be absent
  (\<open>None\<close>); a nullable column that is present holds a value or \<open>null\<close>.\<close>

record PartialBooking =
  pb_carId :: "varchar option"
  pb_userId :: "varchar option"
  pb_startDate :: "timestamp option"
  pb_endDate :: "timestamp option"
  pb_totalCost :: "decimal option"
  pb_status :: "varchar option"
  pb_paymentStatus :: "varchar option"

record PartialPayment =
  pp_bookingId :: "varchar option"
  pp_amount :: "decimal option"
  pp_currency :: "varchar option"
  pp_razorpayOrderId :: "varchar option option"
  pp_razorpayPaymentId :: "varchar option option"
  pp_status :: "varchar option"

text \<open>What \<open>updateReview\<close> is given: \<open>Partial<InsertReview>\<close>, and \<open>ownerResponse\<close>, which
  the route passes through a cast.\<close>

record PartialReview =
  pv_carId :: "varchar option"
  pv_userId :: "varchar option"
  pv_rating :: "int option"
  pv_comment :: "string option option"
  pv_ownerResponse :: "string option option"

text \<open>\<open>.set({...})\<close> leaves a column whose field is absent as it is.\<close>

definition setColumn :: "'a option \<Rightarrow> 'a \<Rightarrow> 'a" where
  "setColumn field old = (case field of None \<Rightarrow> old | Some v \<Rightarrow> v)"

text \<open>A \<open>references\<close> column that is being written must name a row.\<close>

definition refMissing :: "varchar option \<Rightarrow> varchar list \<Rightarrow> bool" where
  "refMissing field ids = (case field of None \<Rightarrow> False | Some v \<Rightarrow> v \<notin> set ids)"

text \<open>The values of a row to insert or of a partial update, fitted to their columns:
  \<open>totalCost\<close> and \<open>amount\<close> are \<open>decimal(10,2)\<close>, \<open>status\<close> and \<open>paymentStatus\<close> are
  \<open>varchar(20)\<close>, \<open>currency\<close> is \<open>varchar(3)\<close>; the other columns take every value of
  their type.\<close>

definition fitInsertBooking :: "InsertBooking \<Rightarrow> storage_error + InsertBooking" where
  "fitInsertBooking bookingData =
     (case decimal_10_2 (ib_totalCost bookingData) of
        Inl error \<Rightarrow> Inl error
      | Inr totalCost \<Rightarrow>
          (case inColumn (varchar_n 20) (ib_status bookingData) of
             Inl error \<Rightarrow> Inl error
           | Inr status \<Rightarrow>
               (case inColumn (varchar_n 20) (ib_paymentStatus bookingData) of
                  Inl error \<Rightarrow> Inl error
                | Inr paymentStatus \<Rightarrow>
                    Inr (bookingData\<lparr>ib_totalCost := totalCost, ib_status := status,
                                      ib_paymentStatus := paymentStatus\<rparr>))))"

definition fitPartialBooking :: "PartialBooking \<Rightarrow> storage_error + PartialBooking" where
  "fitPartialBooking bookingData =
     (case inColumn decimal_10_2 (pb_totalCost bookingData) of
        Inl error \<Rightarrow> Inl error
      | Inr totalCost \<Rightarrow>
          (case inColumn (varchar_n 20) (pb_status bookingData) of
             Inl error \<Rightarrow> Inl error
           | Inr status \<Rightarrow>
               (case inColumn (varchar_n 20) (pb_paymentStatus bookingData) of
                  Inl error \<Rightarrow> Inl error
                | Inr paymentStatus \<Rightarrow>
                    Inr (bookingData\<lparr>pb_totalCost := totalCost, pb_status := status,
                                      pb_paymentStatus := paymentStatus\<rparr>))))"

definition fitInsertPayment :: "InsertPayment \<Rightarrow> storage_error + InsertPayment" where
  "fitInsertPayment paymentData =
     (case decimal_10_2 (ip_amount paymentData) of
        Inl error \<Rightarrow> Inl error
      | Inr amount \<Rightarrow>
          (case inColumn (varchar_n 3) (ip_currency paymentData) of
             Inl error \<Rightarrow> Inl error
           | Inr currency \<Rightarrow>
               (case inColumn (varchar_n 20) (ip_status paymentData) of
                  Inl error \<Rightarrow> Inl error
                | Inr status \<Rightarrow>
                    Inr (paymentData\<lparr>ip_amount := amount, ip_currency := currency,
                                      ip_status := status\<rparr>))))"

definition fitPartialPayment :: "PartialPayment \<Rightarrow> storage_error + PartialPayment" where
  "fitPartialPayment paymentData =
     (case inColumn decimal_10_2 (pp_amount paymentData) of
        Inl error \<Rightarrow> Inl error
      | Inr amount \<Rightarrow>
          (case inColumn (varchar_n 3) (pp_currency paymentData) of
             Inl error \<Rightarrow> Inl error
           | Inr currency \<Rightarrow>
               (case inColumn (varchar_n 20) (pp_status paymentData) of
                  Inl error \<Rightarrow> Inl error
                | Inr status \<Rightarrow>
                    Inr (paymentData\<lparr>pp_amount := amount, pp_currency := currency,
                                      pp_status := status\<rparr>))))"

definition createBooking ::
  "varchar \<Rightarrow> timestamp \<Rightarrow> InsertBooking \<Rightarrow> db \<Rightarrow> storage_error + (Booking \<times> db)" where
  "createBooking uuid now bookingData d =
     (case fitInsertBooking bookingData of
        Inl error \<Rightarrow> Inl error
      | Inr fitted \<Rightarrow>
          (let booking = \<lparr>b_id = uuid,
                           b_carId = ib_carId fitted,
                           b_userId = ib_userId fitted,
                           b_startDate = ib_startDate fitted,
                           b_endDate = ib_endDate fitted,
                           b_totalCost = ib_totalCost fitted,
                           b_status = setColumn (ib_status fitted) ''pending'',
                           b_paymentStatus = setColumn (ib_paymentStatus fitted) ''pending'',
                           b_createdAt = now,
                           b_updatedAt = now\<rparr>
           in if uuid \<in> set (map b_id (bookings d)) then Inl UniqueViolation
              else if ib_carId fitted \<notin> set (map c_id (cars d))
                      \<or> ib_userId fitted \<notin> set (map u_id (users d))
                   then Inl ForeignKeyViolation
              else Inr (booking, d\<lparr>bookings := bookings d @ [booking]\<rparr>)))"

definition applyPartialBooking :: "timestamp \<Rightarrow> PartialBooking \<Rightarrow> Booking \<Rightarrow> Booking" where
  "applyPartialBooking now fitted b =
     b\<lparr>b_carId := setColumn (pb_carId fitted) (b_carId b),
       b_userId := setColumn (pb_userId fitted) (b_userId b),
       b_startDate := setColumn (pb_startDate fitted) (b_startDate b),
       b_endDate := setColumn (pb_endDate fitted) (b_endDate b),
       b_totalCost := setColumn (pb_totalCost fitted) (b_totalCost b),
       b_status := setColumn (pb_status fitted) (b_status b),
       b_paymentStatus := setColumn (pb_paymentStatus fitted) (b_paymentStatus b),
       b_updatedAt := now\<rparr>"

text \<open>\<open>updateBooking\<close>: the rows \<open>where id = ...\<close> are rewritten; \<open>returning\<close> gives them
  back, and the method returns the first, or \<open>undefined\<close> (\<open>None\<close>) when there is none.\<close>

definition updateBooking ::
  "timestamp \<Rightarrow> varchar \<Rightarrow> PartialBooking \<Rightarrow> db \<Rightarrow> storage_error + (Booking option \<times> db)" where
  "updateBooking now bid bookingData d =
     (case fitPartialBooking bookingData of
        Inl error \<Rightarrow> Inl error
      | Inr fitted \<Rightarrow>
          (let hit = filter (\<lambda>b. b_id b = bid) (bookings d)
           in if hit = [] then Inr (None, d)
              else if refMissing (pb_carId fitted) (map c_id (cars d))
                      \<or> refMissing (pb_userId fitted) (map u_id (users d))
                   then Inl ForeignKeyViolation
              else Inr (firstRow (map (applyPartialBooking now fitted) hit),
                        d\<lparr>bookings := map (\<lambda>b. if b_id b = bid
                                                  then applyPartialBooking now fitted b
                                                  else b) (bookings d)\<rparr>)))"

definition createPayment ::
  "varchar \<Rightarrow> timestamp \<Rightarrow> InsertPayment \<Rightarrow> db \<Rightarrow> storage_error + (Payment \<times> db)" where
  "createPayment uuid now paymentData d =
     (case fitInsertPayment paymentData of
        Inl error \<Rightarrow> Inl error
      | Inr fitted \<Rightarrow>
          (let payment = \<lparr>p_id = uuid,
                           p_bookingId = ip_bookingId fitted,
                           p_amount = ip_amount fitted,
                           p_currency = setColumn (ip_currency fitted) ''INR'',
                           p_razorpayOrderId = ip_razorpayOrderId fitted,
                           p_razorpayPaymentId = ip_razorpayPaymentId fitted,
                           p_status = setColumn (ip_status fitted) ''pending'',
                           p_createdAt = now,
                           p_updatedAt = now\<rparr>
           in if uuid \<in> set (map p_id (payments d))
                 \<or> ip_bookingId fitted \<in> set (map p_bookingId (payments d))
              then Inl UniqueViolation
              else if ip_bookingId fitted \<notin> set (map b_id (bookings d))
                   then Inl ForeignKeyViolation
              else Inr (payment, d\<lparr>payments := payments d @ [payment]\<rparr>)))"

definition applyPartialPayment :: "timestamp \<Rightarrow> PartialPayment \<Rightarrow> Payment \<Rightarrow> Payment" where
  "applyPartialPayment now fitted p =
     p\<lparr>p_bookingId := setColumn (pp_bookingId fitted) (p_bookingId p),
       p_amount := setColumn (pp_amount fitted) (p_amount p),
       p_currency := setColumn (pp_currency fitted) (p_currency p),
       p_razorpayOrderId := setColumn (pp_razorpayOrderId fitted) (p_razorpayOrderId p),
       p_razorpayPaymentId :=
         setColumn (pp_razorpayPaymentId fitted) (p_razorpayPaymentId p),
       p_status := setColumn (pp_status fitted) (p_status p),
       p_updatedAt := now\<rparr>"

text \<open>\<open>updatePayment\<close>: as \<open>updateBooking\<close>; the new \<open>bookingId\<close> must name a booking
  and must not be the \<open>bookingId\<close> of another payment, nor be given to two rows.\<close>

definition updatePayment ::
  "timestamp \<Rightarrow> varchar \<Rightarrow> PartialPayment \<Rightarrow> db \<Rightarrow> storage_error + (Payment option \<times> db)" where
  "updatePayment now pid paymentData d =
     (case fitPartialPayment paymentData of
        Inl error \<Rightarrow> Inl error
      | Inr fitted \<Rightarrow>
          (let hit = filter (\<lambda>p. p_id p = pid) (payments d)
           in if hit = [] then Inr (None, d)
              else if (case pp_bookingId fitted of
                         None \<Rightarrow> False
                       | Some v \<Rightarrow>
                           v \<in> set (map p_bookingId (filter (\<lambda>p. p_id p \<noteq> pid) (payments d)))
                           \<or> length hit > 1)
                   then Inl UniqueViolation
              else if refMissing (pp_bookingId fitted) (map b_id (bookings d))
                   then Inl ForeignKeyViolation
              else Inr (firstRow (map (applyPartialPayment now fitted) hit),
                        d\<lparr>payments := map (\<lambda>p. if p_id p = pid
                                                  then applyPartialPayment now fitted p
                                                  else p) (payments d)\<rparr>)))"

definition applyPartialReview :: "timestamp \<Rightarrow> PartialReview \<Rightarrow> Review \<Rightarrow> Review" where
  "applyPartialReview now reviewData r =
     r\<lparr>r_carId := setColumn (pv_carId reviewData) (r_carId r),
       r_userId := setColumn (pv_userId reviewData) (r_userId r),
       r_rating := setColumn (pv_rating reviewData) (r_rating r),
       r_comment := setColumn (pv_comment reviewData) (r_comment r),
       r_ownerResponse := setColumn (pv_ownerResponse reviewData) (r_ownerResponse r),
       r_updatedAt := now\<rparr>"

definition updateReview ::
  "timestamp \<Rightarrow> varchar \<Rightarrow> PartialReview \<Rightarrow> db \<Rightarrow> storage_error + (Review option \<times> db)" where
  "updateReview now rid reviewData d =
     (let hit = filter (\<lambda>r. r_id r = rid) (reviews d)
      in if hit = [] then Inr (None, d)
         else if refMissing (pv_carId reviewData) (map c_id (cars d))
                 \<or> refMissing (pv_userId reviewData) (map u_id (users d))
              then Inl ForeignKeyViolation
         else Inr (firstRow (map (applyPartialReview now reviewData) hit),
                   d\<lparr>reviews := map (\<lambda>r. if r_id r = rid
                                            then applyPartialReview now reviewData r
                                            else r) (reviews d)\<rparr>))"

text \<open>\<open>deleteCar\<close>: the car's row goes, and with it (\<open>onDelete: 'cascade'\<close>) its bookings,
  their payments, and its reviews.\<close>

definition deleteCar :: "varchar \<Rightarrow> db \<Rightarrow> db" where
  "deleteCar cid d =
     (let gone = map b_id (filter (\<lambda>b. b_carId b = cid) (bookings d))
      in d\<lparr>cars := filter (\<lambda>c. c_id c \<noteq> cid) (cars d),
           bookings := filter (\<lambda>b. b_carId b \<noteq> cid) (bookings d),
           payments := filter (\<lambda>p. p_bookingId p \<notin> set gone) (payments d),
           reviews := filter (\<lambda>r. r_carId r \<noteq> cid) (reviews d)\<rparr>)"

section \<open>The routes (registerRoutes)\<close>

text \<open>
  A handler answers with \<open>res.json(value)\<close> or with \<open>res.status(code).json({message})\<close>;
  in a \<open>catch\<close> the message is the caught error's. The caller's identity
  (\<open>req.user.claims.sub\<close>) is supplied by the authentication middleware.
\<close>

datatype failure = Message string | ErrorMessage storage_error

datatype 'a response = Json 'a | Status nat failure

subsection \<open>GET /api/cars\<close>

text \<open>JavaScript numbers as far as the price filters need them; a comparison with
  \<open>NaN\<close> is false.\<close>

datatype number = NaN | Finite rat | Infinity | NegInfinity

fun number_ge :: "number \<Rightarrow> number \<Rightarrow> bool" where
  "number_ge NaN _ = False"
| "number_ge _ NaN = False"
| "number_ge (Finite a) (Finite b) = (a \<ge> b)"
| "number_ge Infinity _ = True"
| "number_ge _ NegInfinity = True"
| "number_ge _ _ = False"

definition number_le :: "number \<Rightarrow> number \<Rightarrow> bool" where
  "number_le a b = number_ge b a"

text \<open>\<open>String.prototype.includes\<close>, and \<open>split(',')\<close>.\<close>

fun startsWith :: "string \<Rightarrow> string \<Rightarrow> bool" where
  "startsWith _ [] = True"
| "startsWith [] (_ # _) = False"
| "startsWith (x # xs) (y # ys) = (x = y \<and> startsWith xs ys)"

fun string_includes :: "string \<Rightarrow> string \<Rightarrow> bool" where
  "string_includes [] sub = (sub = [])"
| "string_includes (x # xs) sub = (startsWith (x # xs) sub \<or> string_includes xs sub)"

fun split :: "char \<Rightarrow> string \<Rightarrow> string list" where
  "split sep [] = [[]]"
| "split sep (x # xs) =
     (if x = sep then [] # split sep xs
      else (case split sep xs of
              [] \<Rightarrow> [[x]]
            | piece # pieces \<Rightarrow> (x # piece) # pieces))"

text \<open>The query string: a parameter is \<open>None\<close> when it is absent or not a single string.
  \<open>param && typeof param === 'string'\<close> holds for a string that is not empty.\<close>

record CarsQuery =
  q_search :: "string option"
  q_minPrice :: "string option"
  q_maxPrice :: "string option"
  q_brands :: "string option"
  q_carTypes :: "string option"
  q_transmission :: "string option"

definition filterIf :: "string option \<Rightarrow> (string \<Rightarrow> 'a \<Rightarrow> bool) \<Rightarrow> 'a list \<Rightarrow> 'a list" where
  "filterIf param keep rows =
     (case param of
        None \<Rightarrow> rows
      | Some s \<Rightarrow> if s \<noteq> [] then filter (keep s) rows else rows)"

text \<open>The handler; \<open>toLowerCase\<close> and \<open>Number\<close> are the JavaScript built-ins, taken as
  parameters.\<close>

definition get_api_cars ::
  "(string \<Rightarrow> string) \<Rightarrow> (string \<Rightarrow> number) \<Rightarrow> CarsQuery \<Rightarrow> db \<Rightarrow> CarWithRating list response" where
  "get_api_cars toLowerCase Number q d =
     (let cars0 = getAllCars d;
          cars1 = filterIf (q_search q) (\<lambda>search car.
                    (let searchLower = toLowerCase search
                     in string_includes (toLowerCase (c_brand (cr_car car))) searchLower
                        \<or> string_includes (toLowerCase (c_model (cr_car car))) searchLower)) cars0;
          cars2 = filterIf (q_minPrice q) (\<lambda>minPrice car.
                    number_ge (Finite (toNumber (c_pricePerDay (cr_car car))))
                              (Number minPrice)) cars1;
          cars3 = filterIf (q_maxPrice q) (\<lambda>maxPrice car.
                    number_le (Finite (toNumber (c_pricePerDay (cr_car car))))
                              (Number maxPrice)) cars2;
          cars4 = filterIf (q_brands q) (\<lambda>brands car.
                    c_brand (cr_car car) \<in> set (split CHR '','' brands)) cars3;
          cars5 = filterIf (q_carTypes q) (\<lambda>carTypes car.
                    c_carType (cr_car car) \<in> set (split CHR '','' carTypes)) cars4;
          cars6 = filterIf (q_transmission q) (\<lambda>transmission car.
                    c_transmission (cr_car car) \<in> set (split CHR '','' transmission)) cars5
      in Json cars6)"

subsection \<open>GET /api/cars/:id\<close>

record CarDetail =
  cd_car :: Car
  cd_owner :: "User option"
  cd_reviews :: "(Review \<times> User option) list"
  cd_averageRating :: rat

definition get_api_cars_id :: "varchar \<Rightarrow> db \<Rightarrow> CarDetail response" where
  "get_api_cars_id cid d =
     (case getCarById d cid of
        None \<Rightarrow> Status 404 (Message ''Car not found'')
      | Some car \<Rightarrow>
          (let owner = getUser d (c_ownerId car);
               carReviews = getReviewsByCarId d (c_id car);
               reviewsWithUsers = map (\<lambda>review. (review, getUser d (r_userId review))) carReviews;
               averageRating = getAverageRating d (c_id car)
           in Json \<lparr>cd_car = car, cd_owner = owner, cd_reviews = reviewsWithUsers,
                     cd_averageRating = averageRating\<rparr>))"

subsection \<open>POST /api/bookings\<close>

text \<open>The request body, with \<open>new Date(startDate)\<close> and \<open>new Date(endDate)\<close> already
  taken; and what the request meets: the caller and the values the database server
  generates for the two inserts.\<close>

record BookingBody =
  bb_carId :: varchar
  bb_startDate :: timestamp
  bb_endDate :: timestamp
  bb_totalCost :: decimal

record PostEnv =
  e_userId :: varchar
  e_bookingUuid :: varchar
  e_bookingNow :: timestamp
  e_paymentUuid :: varchar
  e_paymentNow :: timestamp

text \<open>\<open>insertBookingSchema.parse\<close> checks the types of the fields and leaves a body of
  these types as it is; what it returns is the row to insert.\<close>

definition bookingDataOf :: "PostEnv \<Rightarrow> BookingBody \<Rightarrow> InsertBooking" where
  "bookingDataOf env body =
     \<lparr>ib_carId = bb_carId body,
      ib_userId = e_userId env,
      ib_startDate = bb_startDate body,
      ib_endDate = bb_endDate body,
      ib_totalCost = bb_totalCost body,
      ib_status = Some ''pending'',
      ib_paymentStatus = Some ''pending''\<rparr>"

definition paymentDataOf :: "BookingBody \<Rightarrow> Booking \<Rightarrow> InsertPayment" where
  "paymentDataOf body booking =
     \<lparr>ip_bookingId = b_id booking,
      ip_amount = bb_totalCost body,
      ip_currency = Some ''INR'',
      ip_razorpayOrderId = None,
      ip_razorpayPaymentId = None,
      ip_status = Some ''pending''\<rparr>"

definition post_api_bookings :: "PostEnv \<Rightarrow> BookingBody \<Rightarrow> db \<Rightarrow> Booking response \<times> db" where
  "post_api_bookings env body d =
     (let isAvailable = checkAvailability d (bb_carId body) (bb_startDate body) (bb_endDate body)
      in if \<not> isAvailable
         then (Status 400 (Message ''Car is not available for the selected dates''), d)
         else (case createBooking (e_bookingUuid env) (e_bookingNow env)
                      (bookingDataOf env body) d of
                 Inl error \<Rightarrow> (Status 400 (ErrorMessage error), d)
               | Inr (booking, d1) \<Rightarrow>
                   (case createPayment (e_paymentUuid env) (e_paymentNow env)
                           (paymentDataOf body booking) d1 of
                      Inl error \<Rightarrow> (Status 400 (ErrorMessage error), d1)
                    | Inr (payment, d2) \<Rightarrow> (Json booking, d2))))"

text \<open>
  The same handler, one \<open>await\<close> at a time. Between two awaits another request's
  statements may run; \<open>pc\<close> is where a request stands.
\<close>

datatype pc = AwaitCheck | AwaitBooking | AwaitPayment Booking | Responded "Booking response"

definition post_step :: "PostEnv \<Rightarrow> BookingBody \<Rightarrow> pc \<Rightarrow> db \<Rightarrow> pc \<times> db" where
  "post_step env body state d =
     (case state of
        AwaitCheck \<Rightarrow>
          (if \<not> checkAvailability d (bb_carId body) (bb_startDate body) (bb_endDate body)
           then (Responded (Status 400 (Message ''Car is not available for the selected dates'')), d)
           else (AwaitBooking, d))
      | AwaitBooking \<Rightarrow>
          (case createBooking (e_bookingUuid env) (e_bookingNow env) (bookingDataOf env body) d of
             Inl error \<Rightarrow> (Responded (Status 400 (ErrorMessage error)), d)
           | Inr (booking, d1) \<Rightarrow> (AwaitPayment booking, d1))
      | AwaitPayment booking \<Rightarrow>
          (case createPayment (e_paymentUuid env) (e_paymentNow env)
                  (paymentDataOf body booking) d of
             Inl error \<Rightarrow> (Responded (Status 400 (ErrorMessage error)), d)
           | Inr (payment, d2) \<Rightarrow> (Responded (Json booking), d2))
      | Responded r \<Rightarrow> (Responded r, d))"

text \<open>Two requests in flight: a schedule says whose statement runs next.\<close>

datatype turn = First | Second

fun interleave ::
  "PostEnv \<times> BookingBody \<Rightarrow> PostEnv \<times> BookingBody \<Rightarrow> turn list \<Rightarrow> pc \<times> pc \<times> db \<Rightarrow> pc \<times> pc \<times> db" where
  "interleave r1 r2 [] cfg = cfg"
| "interleave r1 r2 (First # sched) (pc1, pc2, d) =
     (case post_step (fst r1) (snd r1) pc1 d of
        (pc1', d') \<Rightarrow> interleave r1 r2 sched (pc1', pc2, d'))"
| "interleave r1 r2 (Second # sched) (pc1, pc2, d) =
     (case post_step (fst r2) (snd r2) pc2 d of
        (pc2', d') \<Rightarrow> interleave r1 r2 sched (pc1, pc2', d'))"

subsection \<open>GET /api/owner/dashboard\<close>

record OwnerStats =
  os_totalCars :: nat
  os_totalRevenue :: rat
  os_activeBookings :: nat
  os_averageRating :: rat

record OwnerDashboard =
  od_cars :: "Car list"
  od_bookings :: "(Booking \<times> Car option) list"
  od_stats :: OwnerStats

text \<open>\<open>user?.role !== "owner"\<close>: true also when there is no such user.\<close>

definition roleIsNot :: "User option \<Rightarrow> varchar \<Rightarrow> bool" where
  "roleIsNot user role = (case user of None \<Rightarrow> True | Some u \<Rightarrow> u_role u \<noteq> role)"

text \<open>\<open>.filter(b => b.paymentStatus === "paid").reduce((sum, b) => sum + Number(b.totalCost), 0)\<close>,
  the expression of both dashboards.\<close>

definition totalRevenueOf :: "Booking list \<Rightarrow> rat" where
  "totalRevenueOf bs =
     foldl (\<lambda>sum b. number_add sum (toNumber (b_totalCost b))) 0
           (filter (\<lambda>b. b_paymentStatus b = ''paid'') bs)"

definition get_api_owner_dashboard :: "varchar \<Rightarrow> db \<Rightarrow> OwnerDashboard response" where
  "get_api_owner_dashboard userId d =
     (let user = getUser d userId
      in if roleIsNot user ''owner'' then Status 403 (Message ''Not authorized'')
         else
          (let ownerCars = getCarsByOwner d userId;
               ownerBookings = getBookingsByOwner d userId;
               bookingsWithCars = map (\<lambda>booking. (booking, getCarById d (b_carId booking)))
                                      ownerBookings;
               totalRevenue = totalRevenueOf ownerBookings;
               activeBookings = length (filter (\<lambda>b. b_status b = ''confirmed''
                                                      \<or> b_status b = ''pending'') ownerBookings);
               (totalRating, totalReviews) =
                  foldl (\<lambda>(totalRating, totalReviews) car.
                           (let reviews = getReviewsByCarId d (c_id car)
                            in (number_add totalRating
                                  (foldl (\<lambda>sum r. number_add sum (of_int (r_rating r)))
                                         0 reviews),
                                totalReviews + length reviews)))
                        (0, 0) ownerCars;
               averageRating = (if totalReviews > 0
                                then number_div totalRating (of_nat totalReviews) else 0)
           in Json \<lparr>od_cars = ownerCars,
                     od_bookings = bookingsWithCars,
                     od_stats = \<lparr>os_totalCars = length ownerCars,
                                 os_totalRevenue = totalRevenue,
                                 os_activeBookings = activeBookings,
                                 os_averageRating = averageRating\<rparr>\<rparr>))"

subsection \<open>GET /api/admin/dashboard\<close>

record AdminStats =
  as_totalUsers :: nat
  as_totalCars :: nat
  as_totalBookings :: nat
  as_totalRevenue :: rat

record AdminDashboard =
  ad_users :: "User list"
  ad_cars :: "(CarWithRating \<times> User option) list"
  ad_bookings :: "(Booking \<times> Car option \<times> User option) list"
  ad_stats :: AdminStats

definition get_api_admin_dashboard :: "varchar \<Rightarrow> db \<Rightarrow> AdminDashboard response" where
  "get_api_admin_dashboard userId d =
     (let user = getUser d userId
      in if roleIsNot user ''admin'' then Status 403 (Message ''Not authorized'')
         else
          (let allCars = getAllCars d;
               allBookings = getAllBookings d;
               allUsers = [];
               carsWithOwners = map (\<lambda>car. (car, getUser d (c_ownerId (cr_car car)))) allCars;
               bookingsWithDetails = map (\<lambda>booking. (booking, getCarById d (b_carId booking),
                                                       getUser d (b_userId booking))) allBookings;
               totalRevenue = totalRevenueOf allBookings
           in Json \<lparr>ad_users = allUsers,
                     ad_cars = carsWithOwners,
                     ad_bookings = bookingsWithDetails,
                     ad_stats = \<lparr>as_totalUsers = 0,
                                 as_totalCars = length allCars,
                                 as_totalBookings = length allBookings,
                                 as_totalRevenue = totalRevenue\<rparr>\<rparr>))"

subsection \<open>PUT /api/reviews/:id/response\<close>


section \<open>States the application can reach\<close>

text \<open>
  The statements that write the \<open>bookings\<close> or \<open>payments\<close> table, one at a time: a
  step of a booking request, \<open>updateBooking\<close>, \<open>updatePayment\<close>, and \<open>deleteCar\<close> with
  its cascade. Every other write of the application (\<open>createCar\<close>, \<open>updateCar\<close>,
  \<open>createReview\<close>, \<open>updateReview\<close>, \<open>upsertUser\<close>) leaves both tables as they are,
  which is all that \<open>other_tables\<close> says of it.
\<close>

inductive reachable :: "db \<Rightarrow> db \<Rightarrow> bool" for d0 :: db where
  initial: "reachable d0 d0"
| post: "reachable d0 d \<Longrightarrow> reachable d0 (snd (post_step env body state d))"
| update_booking:
    "reachable d0 d \<Longrightarrow> updateBooking now bid bookingData d = Inr (row, d') \<Longrightarrow> reachable d0 d'"
| update_payment:
    "reachable d0 d \<Longrightarrow> updatePayment now pid paymentData d = Inr (row, d') \<Longrightarrow> reachable d0 d'"
| delete_car: "reachable d0 d \<Longrightarrow> reachable d0 (deleteCar cid d)"
| other_tables:
    "reachable d0 d \<Longrightarrow> bookings d' = bookings d \<Longrightarrow> payments d' = payments d
     \<Longrightarrow> reachable d0 d'"

text \<open>The payments of a booking.\<close>

definition paymentsOf :: "db \<Rightarrow> varchar \<Rightarrow> Payment list" where
  "paymentsOf d bid = filter (\<lambda>p. p_bookingId p = bid) (payments d)"

text \<open>The two constraints of \<open>payments.bookingId\<close>: \<open>unique\<close>, and \<open>references\<close>.\<close>

definition payments_constraints :: "db \<Rightarrow> bool" where
  "payments_constraints d =
     (distinct (map p_bookingId (payments d))
      \<and> set (map p_bookingId (payments d)) \<subseteq> set (map b_id (bookings d)))"

text \<open>The constraint of \<open>bookings.carId\<close>: \<open>references\<close>.\<close>

definition bookings_constraint :: "db \<Rightarrow> bool" where
  "bookings_constraint d = (\<forall>b \<in> set (bookings d). b_carId b \<in> set (map c_id (cars d)))"

section \<open>The specification's formulas\<close>

text \<open>The arithmetic mean, 0 for no value; and the ratings of a car's reviews.\<close>

definition arithmetic_mean :: "int list \<Rightarrow> rat" where
  "arithmetic_mean xs = (if xs = [] then 0 else of_int (sum_list xs) / of_nat (length xs))"

definition ratingsOf :: "db \<Rightarrow> varchar \<Rightarrow> int list" where
  "ratingsOf d carId = map r_rating (filter (\<lambda>r. r_carId r = carId) (reviews d))"

text \<open>The ratings of the reviews of all the cars an owner has, car after car.\<close>

definition ratingsOfOwner :: "db \<Rightarrow> varchar \<Rightarrow> int list" where
  "ratingsOfOwner d ownerId =
     concat (map (\<lambda>car. ratingsOf d (c_id car)) (filter (\<lambda>c. c_ownerId c = ownerId) (cars d)))"






text \<open>Midnight (UTC) of a day of June 2024, in milliseconds.\<close>

definition june :: "int \<Rightarrow> timestamp" where
  "june day = 1717200000000 + (day - 1) * 86400000"

section \<open>Example data\<close>

definition mkUser :: "varchar \<Rightarrow> varchar \<Rightarrow> User" where
  "mkUser uid role =
     \<lparr>u_id = uid, u_email = None, u_firstName = None, u_lastName = None,
      u_profileImageUrl = None, u_role = role, u_governmentId = None,
      u_createdAt = june 1, u_updatedAt = june 1\<rparr>"

definition mkCar :: "varchar \<Rightarrow> varchar \<Rightarrow> bool \<Rightarrow> Car" where
  "mkCar cid ownerId available =
     \<lparr>c_id = cid, c_ownerId = ownerId, c_brand = ''Maruti'', c_model = ''Swift'',
      c_year = 2022, c_registrationNumber = cid, c_carType = ''Hatchback'',
      c_transmission = ''Manual'', c_fuelType = ''Petrol'', c_seats = 5,
      c_pricePerDay = 1500, c_images = [], c_features = None, c_description = None,
      c_isAvailable = available, c_createdAt = june 1, c_updatedAt = june 1\<rparr>"

definition mkBooking ::
  "varchar \<Rightarrow> varchar \<Rightarrow> timestamp \<Rightarrow> timestamp \<Rightarrow> decimal \<Rightarrow> varchar \<Rightarrow> varchar \<Rightarrow> Booking" where
  "mkBooking bid carId startDate endDate cost status paymentStatus =
     \<lparr>b_id = bid, b_carId = carId, b_userId = ''u1'', b_startDate = startDate,
      b_endDate = endDate, b_totalCost = cost, b_status = status,
      b_paymentStatus = paymentStatus, b_createdAt = june 1, b_updatedAt = june 1\<rparr>"

definition mkPayment :: "varchar \<Rightarrow> varchar \<Rightarrow> decimal \<Rightarrow> Payment" where
  "mkPayment pid bookingId amount =
     \<lparr>p_id = pid, p_bookingId = bookingId, p_amount = amount, p_currency = ''INR'',
      p_razorpayOrderId = None, p_razorpayPaymentId = None, p_status = ''pending'',
      p_createdAt = june 1, p_updatedAt = june 1\<rparr>"

definition mkReview :: "varchar \<Rightarrow> varchar \<Rightarrow> int \<Rightarrow> Review" where
  "mkReview rid carId rating =
     \<lparr>r_id = rid, r_carId = carId, r_userId = ''u1'', r_rating = rating,
      r_comment = None, r_ownerResponse = None, r_createdAt = june 1, r_updatedAt = june 1\<rparr>"

text \<open>A renter \<open>u1\<close>, two owners \<open>o1\<close> and \<open>o2\<close>, an administrator \<open>a1\<close>; \<open>o1\<close> owns the
  listed car \<open>c1\<close> and the unlisted car \<open>c2\<close>; \<open>c1\<close> has a confirmed, paid booking for
  1 to 5 June with its payment, and three reviews.\<close>

definition demo_db :: db where
  "demo_db =
     \<lparr>users = [mkUser ''u1'' ''user'', mkUser ''o1'' ''owner'', mkUser ''o2'' ''owner'',
               mkUser ''a1'' ''admin''],
      cars = [mkCar ''c1'' ''o1'' True, mkCar ''c2'' ''o1'' False],
      bookings = [mkBooking ''b1'' ''c1'' (june 1) (june 5) 6000 ''confirmed'' ''paid''],
      payments = [mkPayment ''p1'' ''b1'' 6000],
      reviews = [mkReview ''r1'' ''c1'' 5, mkReview ''r2'' ''c1'' 3, mkReview ''r3'' ''c1'' 4]\<rparr>"

text \<open>A request of \<open>u1\<close> for car \<open>c1\<close>, and what the database server generates for it.\<close>

definition demo_body :: "varchar \<Rightarrow> timestamp \<Rightarrow> timestamp \<Rightarrow> BookingBody" where
  "demo_body carId startDate endDate =
     \<lparr>bb_carId = carId, bb_startDate = startDate, bb_endDate = endDate, bb_totalCost = 3000\<rparr>"

definition demo_env :: "varchar \<Rightarrow> varchar \<Rightarrow> PostEnv" where
  "demo_env bookingUuid paymentUuid =
     \<lparr>e_userId = ''u1'', e_bookingUuid = bookingUuid, e_bookingNow = june 2,
      e_paymentUuid = paymentUuid, e_paymentNow = june 2\<rparr>"

text \<open>The same users with three cars: \<open>o1\<close> has \<open>c1\<close> and the unlisted \<open>c2\<close>, \<open>o2\<close> has \<open>c3\<close>.
  \<open>c1\<close> has a paid booking of 6000 and a pending one of 3000, \<open>c2\<close> a paid booking of
  1250, \<open>c3\<close> a paid booking of 4500; \<open>c1\<close> has the reviews 5, 3, 4 and \<open>c3\<close> the review 1.\<close>

definition fleet_db :: db where
  "fleet_db =
     \<lparr>users = [mkUser ''u1'' ''user'', mkUser ''o1'' ''owner'', mkUser ''o2'' ''owner'',
               mkUser ''a1'' ''admin''],
      cars = [mkCar ''c1'' ''o1'' True, mkCar ''c2'' ''o1'' False, mkCar ''c3'' ''o2'' True],
      bookings = [mkBooking ''b1'' ''c1'' (june 1) (june 5) 6000 ''confirmed'' ''paid'',
                  mkBooking ''b2'' ''c3'' (june 1) (june 3) 4500 ''completed'' ''paid'',
                  mkBooking ''b3'' ''c1'' (june 10) (june 12) 3000 ''pending'' ''pending'',
                  mkBooking ''b4'' ''c2'' (june 20) (june 21) 1250 ''confirmed'' ''paid''],
      payments = [mkPayment ''p1'' ''b1'' 6000, mkPayment ''p2'' ''b2'' 4500,
                  mkPayment ''p3'' ''b3'' 3000, mkPayment ''p4'' ''b4'' 1250],
      reviews = [mkReview ''r1'' ''c1'' 5, mkReview ''r2'' ''c1'' 3, mkReview ''r3'' ''c1'' 4,
                 mkReview ''r4'' ''c3'' 1]\<rparr>"

section \<open>Properties\<close>

lemma checkAvailability_iff:
  "checkAvailability d carId s e \<longleftrightarrow>
     \<not> (\<exists>b \<in> set (bookings d). b_carId b = carId
           \<and> (b_status b = ''pending'' \<or> b_status b = ''confirmed'')
           \<and> b_startDate b \<le> e \<and> b_endDate b \<ge> s)"
  by (auto simp: checkAvailability_def filter_empty_conv)

lemma owner_dashboard_answers:
  "getUser d userId = Some u \<Longrightarrow> u_role u = ''owner'' \<Longrightarrow>
     \<exists>dash. get_api_owner_dashboard userId d = Json dash"
  by (simp add: get_api_owner_dashboard_def Let_def roleIsNot_def split: prod.splits)

lemma admin_dashboard_answers:
  "getUser d userId = Some u \<Longrightarrow> u_role u = ''admin'' \<Longrightarrow>
     \<exists>dash. get_api_admin_dashboard userId d = Json dash"
  by (simp add: get_api_admin_dashboard_def Let_def roleIsNot_def)

lemma getAllCars_rows: "map cr_car (getAllCars d) = filter c_isAvailable (cars d)"
  by (simp add: getAllCars_def Let_def comp_def)

subsection \<open>Rounding to a double\<close>

lemma pow2_pos: "0 < pow2 e"
  by (simp add: pow2_def)

lemma pow2_nat: "0 \<le> k \<Longrightarrow> pow2 k = 2 ^ nat k"
  by (simp add: pow2_def)

lemma pow2_neg: "0 \<le> k \<Longrightarrow> pow2 (- k) = 1 / 2 ^ nat k"
  by (cases "k = 0") (simp_all add: pow2_def)

lemma pow2_Suc: "pow2 (k + 1) = 2 * pow2 k"
proof (cases "0 \<le> k")
  case True
  then show ?thesis by (simp add: pow2_def nat_add_distrib)
next
  case False
  then have "nat (- k) = Suc (nat (- k - 1))" by simp
  with False show ?thesis
    by (cases "k = -1") (simp_all add: pow2_def)
qed

lemma pow2_add_nat: "pow2 (e + int n) = 2 ^ n * pow2 e"
proof (induction n)
  case 0
  then show ?case by simp
next
  case (Suc n)
  have "e + int (Suc n) = (e + int n) + 1" by simp
  then have "pow2 (e + int (Suc n)) = 2 * pow2 (e + int n)"
    by (simp only: pow2_Suc)
  with Suc show ?case by simp
qed

text \<open>\<open>floor_log2\<close> is the exponent of the power of two at or below a positive number.\<close>

lemma floor_log2_bounds:
  assumes "0 < x"
  shows "pow2 (floor_log2 x) \<le> x \<and> x < pow2 (floor_log2 x + 1)"
proof (cases "1 \<le> x")
  case True
  define n where "n = \<lfloor>x\<rfloor>"
  from True have n: "0 < n" by (simp add: n_def)
  from bitlen_bounds [OF n] have lo: "2 ^ nat (bitlen n - 1) \<le> n" and hi: "n < 2 ^ nat (bitlen n)"
    by simp_all
  from n have b: "1 \<le> bitlen n"
    by (simp add: bitlen_alt_def)
  have fl: "floor_log2 x = bitlen n - 1"
    using True by (simp add: floor_log2_def n_def)
  have "(of_int n :: rat) \<le> x"
    by (simp add: n_def)
  moreover from lo have "(2 :: rat) ^ nat (bitlen n - 1) \<le> of_int n"
    by (metis of_int_le_iff of_int_numeral of_int_power)
  ultimately have "(2 :: rat) ^ nat (bitlen n - 1) \<le> x"
    by (rule order_trans [rotated])
  then have A: "pow2 (floor_log2 x) \<le> x"
    using b by (simp add: fl pow2_nat)
  from hi have "n + 1 \<le> 2 ^ nat (bitlen n)"
    by simp
  then have "(of_int (n + 1) :: rat) \<le> 2 ^ nat (bitlen n)"
    by (metis of_int_le_iff of_int_numeral of_int_power)
  moreover have "x < of_int (n + 1)"
    using floor_correct [of x] by (simp add: n_def)
  ultimately have B: "x < pow2 (floor_log2 x + 1)"
    using b by (simp add: fl pow2_nat)
  from A B show ?thesis ..
next
  case False
  define y where "y = 1 / x"
  define m where "m = \<lceil>y\<rceil> - 1"
  from False assms have y1: "1 < y"
    by (simp add: y_def)
  then have m: "0 < m"
    by (simp add: m_def less_ceiling_iff)
  have my: "of_int m < y" "y \<le> of_int m + 1"
    unfolding m_def by (simp_all add: ceiling_correct)
  from bitlen_bounds [OF m] have lo: "2 ^ nat (bitlen m - 1) \<le> m" and hi: "m < 2 ^ nat (bitlen m)"
    by simp_all
  from m have b: "1 \<le> bitlen m"
    by (simp add: bitlen_alt_def)
  have fl: "floor_log2 x = - bitlen m"
    using False by (simp add: floor_log2_def m_def y_def)
  from hi have "m + 1 \<le> 2 ^ nat (bitlen m)"
    by simp
  then have "(of_int (m + 1) :: rat) \<le> 2 ^ nat (bitlen m)"
    by (metis of_int_le_iff of_int_numeral of_int_power)
  moreover from my(2) have "y \<le> of_int (m + 1)"
    by simp
  ultimately have "y \<le> 2 ^ nat (bitlen m)"
    by (rule order_trans [rotated])
  with assms have A: "1 / 2 ^ nat (bitlen m) \<le> x"
    by (simp add: y_def field_simps)
  from lo have "(2 :: rat) ^ nat (bitlen m - 1) \<le> of_int m"
    by (metis of_int_le_iff of_int_numeral of_int_power)
  then have "2 ^ nat (bitlen m - 1) < y"
    using my(1) by (rule le_less_trans)
  with assms have B: "x < 1 / 2 ^ nat (bitlen m - 1)"
    by (simp add: y_def field_simps)
  have p1: "pow2 (- bitlen m) = 1 / 2 ^ nat (bitlen m)"
    using b by (intro pow2_neg) simp
  have "pow2 (- bitlen m + 1) = pow2 (- (bitlen m - 1))"
    by simp
  also have "\<dots> = 1 / 2 ^ nat (bitlen m - 1)"
    using b by (intro pow2_neg) simp
  finally have p2: "pow2 (- bitlen m + 1) = 1 / 2 ^ nat (bitlen m - 1)" .
  from A have "pow2 (floor_log2 x) \<le> x"
    by (simp only: fl p1)
  moreover from B have "x < pow2 (floor_log2 x + 1)"
    by (simp only: fl p2)
  ultimately show ?thesis ..
qed

lemma floor_log2_small: "0 < x \<Longrightarrow> x < 2 ^ 53 \<Longrightarrow> floor_log2 x \<le> 52"
proof (cases "1 \<le> x")
  case True
  assume "x < 2 ^ 53"
  then have "\<lfloor>x\<rfloor> < 2 ^ 53"
    by (simp add: floor_less_iff)
  then have "bitlen \<lfloor>x\<rfloor> \<le> 53"
    by (simp add: bitlen_le_iff_power)
  with True show ?thesis by (simp add: floor_log2_def)
next
  case False
  have "0 \<le> bitlen (\<lceil>1 / x\<rceil> - 1)" by (rule bitlen_nonneg)
  with False show ?thesis by (simp add: floor_log2_def)
qed

lemma round_half_even_of_int: "round_half_even (of_int n) = n"
  by (simp add: round_half_even_def)

lemma round_half_even_le: "x \<le> of_int m \<Longrightarrow> round_half_even x \<le> m"
proof -
  assume le: "x \<le> of_int m"
  show ?thesis
  proof (cases "x = of_int m")
    case True
    then show ?thesis by (simp add: round_half_even_of_int)
  next
    case False
    with le have "x < of_int m" by simp
    then have "\<lfloor>x\<rfloor> < m" by (simp add: floor_less_iff)
    then show ?thesis by (simp add: round_half_even_def Let_def)
  qed
qed

lemma round_half_even_ge: "of_int m \<le> x \<Longrightarrow> m \<le> round_half_even x"
proof -
  assume "of_int m \<le> x"
  then have "m \<le> \<lfloor>x\<rfloor>" by (simp add: le_floor_iff)
  then show ?thesis by (simp add: round_half_even_def Let_def)
qed

lemma round_half_even_error: "\<bar>of_int (round_half_even y) - y\<bar> \<le> 1 / 2"
proof -
  have "of_int \<lfloor>y\<rfloor> \<le> y" "y < of_int \<lfloor>y\<rfloor> + 1"
    using floor_correct [of y] by simp_all
  then show ?thesis
    by (auto simp: round_half_even_def Let_def abs_le_iff)
qed

lemma pow2_scale:
  assumes "e \<le> 0"
  shows "of_int m / pow2 e = of_int (m * 2 ^ nat (- e))"
  using assms by (cases "e = 0") (simp_all add: pow2_def)

text \<open>The significand of \<open>binary64 x\<close> has 53 bits.\<close>

lemma binary64_significand:
  assumes "x \<noteq> 0"
  shows "\<exists>m. binary64 x = of_int m * pow2 (floor_log2 \<bar>x\<bar> - 52)
             \<and> 2 ^ 52 \<le> \<bar>m\<bar> \<and> \<bar>m\<bar> \<le> 2 ^ 53"
proof -
  define e where "e = floor_log2 \<bar>x\<bar> - 52"
  define y where "y = x / pow2 e"
  have pe: "0 < pow2 e" by (rule pow2_pos)
  from assms have "0 < \<bar>x\<bar>" by simp
  have k: "e + int 52 = floor_log2 \<bar>x\<bar>" "e + int 53 = floor_log2 \<bar>x\<bar> + 1"
    by (simp_all add: e_def)
  from floor_log2_bounds [OF \<open>0 < \<bar>x\<bar>\<close>]
  have "pow2 (e + int 52) \<le> \<bar>x\<bar>" and "\<bar>x\<bar> < pow2 (e + int 53)"
    unfolding k by blast+
  then have "2 ^ 52 * pow2 e \<le> \<bar>x\<bar>" and "\<bar>x\<bar> < 2 ^ 53 * pow2 e"
    by (simp_all only: pow2_add_nat)
  with pe have lo: "2 ^ 52 \<le> \<bar>y\<bar>" and hi: "\<bar>y\<bar> < 2 ^ 53"
    by (simp_all add: y_def pos_le_divide_eq pos_divide_less_eq)
  have m: "2 ^ 52 \<le> \<bar>round_half_even y\<bar> \<and> \<bar>round_half_even y\<bar> \<le> 2 ^ 53"
  proof (cases "0 \<le> y")
    case True
    with lo hi have a: "of_int (2 ^ 52) \<le> y" and b: "y \<le> of_int (2 ^ 53)"
      by simp_all
    from round_half_even_ge [OF a] round_half_even_le [OF b] show ?thesis
      by simp
  next
    case False
    with lo hi have a: "y \<le> of_int (- (2 ^ 52))" and b: "of_int (- (2 ^ 53)) \<le> y"
      by simp_all
    from round_half_even_le [OF a] round_half_even_ge [OF b] show ?thesis
      by simp
  qed
  have "binary64 x = of_int (round_half_even y) * pow2 e"
    using assms by (simp add: binary64_def Let_def e_def y_def)
  with m show ?thesis
    unfolding e_def by blast
qed

text \<open>\<open>binary64 x\<close> is within half a unit in the last place of \<open>x\<close>.\<close>

lemma binary64_error:
  "\<bar>binary64 x - x\<bar> \<le> \<bar>x\<bar> / 2 ^ 53"
proof (cases "x = 0")
  case True
  then show ?thesis by (simp add: binary64_def)
next
  case False
  define k where "k = floor_log2 \<bar>x\<bar>"
  define e where "e = k - 52"
  define y where "y = x / pow2 e"
  have pe: "0 < pow2 e" by (rule pow2_pos)
  from False have "0 < \<bar>x\<bar>" by simp
  from floor_log2_bounds [OF this] have low: "pow2 k \<le> \<bar>x\<bar>"
    by (simp add: k_def)
  have x: "x = y * pow2 e"
    using pe by (simp add: y_def)
  have "binary64 x = of_int (round_half_even y) * pow2 e"
    using False by (simp add: binary64_def Let_def k_def e_def y_def)
  then have "binary64 x - x = of_int (round_half_even y) * pow2 e - y * pow2 e"
    using x by simp
  then have "binary64 x - x = (of_int (round_half_even y) - y) * pow2 e"
    by (simp add: algebra_simps)
  then have "\<bar>binary64 x - x\<bar> = \<bar>of_int (round_half_even y) - y\<bar> * pow2 e"
    using pe by (simp add: abs_mult)
  also have "\<dots> \<le> 1 / 2 * pow2 e"
    using round_half_even_error [of y] pe by (simp add: mult_right_mono less_imp_le)
  finally have err: "\<bar>binary64 x - x\<bar> \<le> pow2 e / 2"
    by simp
  have "pow2 (e + 53) = 2 ^ 53 * pow2 e"
  proof -
    have "pow2 (e + int n) = 2 ^ n * pow2 e" for n
    proof (induction n)
      case 0
      then show ?case by simp
    next
      case (Suc n)
      have "e + int (Suc n) = (e + int n) + 1" by simp
      then have "pow2 (e + int (Suc n)) = 2 * pow2 (e + int n)"
        by (simp only: pow2_Suc)
      with Suc show ?case by simp
    qed
    from this [of 53] show ?thesis by simp
  qed
  moreover have "e + 53 = k + 1" by (simp add: e_def)
  ultimately have "2 * pow2 k = 2 ^ 53 * pow2 e"
    by (simp add: pow2_Suc)
  then have "pow2 e / 2 = pow2 k / 2 ^ 53"
    by (simp add: field_simps)
  also from low have "\<dots> \<le> \<bar>x\<bar> / 2 ^ 53"
    by (simp add: divide_right_mono)
  finally show ?thesis
    using err by simp
qed

text \<open>An integer below \<open>2 ^ 53\<close> in magnitude is a double.\<close>

lemma binary64_of_int:
  assumes "\<bar>of_int n :: rat\<bar> < 2 ^ 53"
  shows "binary64 (of_int n) = of_int n"
proof (cases "n = 0")
  case True
  then show ?thesis by (simp add: binary64_def)
next
  case False
  define e where "e = floor_log2 \<bar>of_int n\<bar> - 52"
  from False have pos: "0 < \<bar>of_int n :: rat\<bar>" by simp
  from floor_log2_small [OF pos assms] have e: "e \<le> 0"
    by (simp add: e_def)
  have "of_int (round_half_even (of_int n / pow2 e)) * pow2 e
          = of_int (n * 2 ^ nat (- e)) * pow2 e"
    by (simp only: pow2_scale [OF e] round_half_even_of_int)
  also have "\<dots> = of_int n / pow2 e * pow2 e"
    by (simp only: pow2_scale [OF e])
  also have "\<dots> = of_int n"
    using pow2_pos [of e] by simp
  finally show ?thesis
    using False by (simp add: binary64_def Let_def e_def)
qed

lemma binary64_whole: "x \<in> \<int> \<Longrightarrow> \<bar>x\<bar> < 2 ^ 53 \<Longrightarrow> binary64 x = x"
  by (auto elim!: Ints_cases intro: binary64_of_int)

lemma binary64_nonneg: "0 \<le> x \<Longrightarrow> 0 \<le> binary64 x"
proof -
  assume x: "0 \<le> x"
  have "0 \<le> round_half_even (x / pow2 e)" for e
    using x pow2_pos [of e] by (intro round_half_even_ge) simp
  then show ?thesis
    using pow2_pos by (simp add: binary64_def Let_def less_imp_le)
qed

text \<open>Rounding does not pass an integer.\<close>

lemma binary64_le_int:
  assumes "0 \<le> x" and "x \<le> of_int m" and "x < 2 ^ 53"
  shows "binary64 x \<le> of_int m"
proof (cases "x = 0")
  case True
  with assms show ?thesis by (simp add: binary64_def)
next
  case False
  define e where "e = floor_log2 \<bar>x\<bar> - 52"
  from False assms(1) have pos: "0 < \<bar>x\<bar>" and ax: "\<bar>x\<bar> = x" by simp_all
  from floor_log2_small [OF pos] assms(3) ax have e: "e \<le> 0"
    by (simp add: e_def)
  from assms(2) pow2_pos [of e] have "x / pow2 e \<le> of_int m / pow2 e"
    by (simp add: divide_right_mono less_imp_le)
  then have "x / pow2 e \<le> of_int (m * 2 ^ nat (- e))"
    by (simp only: pow2_scale [OF e])
  then have "round_half_even (x / pow2 e) \<le> m * 2 ^ nat (- e)"
    by (rule round_half_even_le)
  then have "(of_int (round_half_even (x / pow2 e)) :: rat) \<le> of_int (m * 2 ^ nat (- e))"
    by (simp only: of_int_le_iff)
  then have "of_int (round_half_even (x / pow2 e)) * pow2 e
               \<le> of_int (m * 2 ^ nat (- e)) * pow2 e"
    using pow2_pos [of e] by (simp add: mult_right_mono less_imp_le)
  also have "of_int (m * 2 ^ nat (- e)) * pow2 e = of_int m / pow2 e * pow2 e"
    by (simp only: pow2_scale [OF e])
  also have "\<dots> = of_int m"
    using pow2_pos [of e] by simp
  finally show ?thesis
    using False by (simp add: binary64_def Let_def e_def)
qed

lemma sum_list_abs_nonneg: "0 \<le> sum_list (map abs xs)" for xs :: "'a::linordered_idom list"
  by (induction xs) simp_all


text \<open>Whole numbers whose magnitudes add up to less than \<open>2 ^ 53\<close> are added without
  rounding.\<close>

lemma foldl_number_add:
  assumes "a \<in> \<int>" and "list_all (\<lambda>x. x \<in> \<int>) xs"
      and "\<bar>a\<bar> + sum_list (map abs xs) < 2 ^ 53"
  shows "foldl number_add a xs = a + sum_list xs"
  using assms
proof (induction xs arbitrary: a)
  case Nil
  then show ?case by simp
next
  case (Cons x xs)
  from Cons.prems have x: "x \<in> \<int>" and xs: "list_all (\<lambda>x. x \<in> \<int>) xs"
    by simp_all
  have nonneg: "0 \<le> sum_list (map abs xs)"
    by (rule sum_list_abs_nonneg)
  from Cons.prems(1) x have whole: "a + x \<in> \<int>"
    by simp
  have "\<bar>a + x\<bar> \<le> \<bar>a\<bar> + \<bar>x\<bar>"
    by simp
  with Cons.prems(3) nonneg have small: "\<bar>a + x\<bar> < 2 ^ 53"
    and rest: "\<bar>a + x\<bar> + sum_list (map abs xs) < 2 ^ 53"
    by simp_all
  from whole small have step: "number_add a x = a + x"
    by (simp add: number_add_def binary64_whole)
  from Cons.IH [OF whole xs rest] show ?case
    by (simp add: step add.assoc)
qed




subsection \<open>Values and their columns\<close>

text \<open>\<open>round2 x\<close> is a multiple of \<open>1 / 100\<close> nearest to \<open>x\<close>, the one away from zero of two.\<close>

lemma round2_nearest:
  "round2 x * 100 \<in> \<int> \<and> \<bar>round2 x - x\<bar> \<le> 1 / 200
   \<and> (\<bar>round2 x - x\<bar> = 1 / 200 \<longrightarrow> \<bar>x\<bar> < \<bar>round2 x\<bar>)"
proof -
  have half: "of_int \<lfloor>y + 1 / 2\<rfloor> \<le> y + 1 / 2 \<and> y - 1 / 2 < of_int \<lfloor>y + 1 / 2\<rfloor>"
    for y :: rat
    using floor_correct [of "y + 1 / 2"] by simp
  show ?thesis
  proof (cases "0 \<le> x")
    case True
    define n where "n = \<lfloor>x * 100 + 1 / 2\<rfloor>"
    from half [of "x * 100"] have "of_int n \<le> x * 100 + 1 / 2" "x * 100 - 1 / 2 < of_int n"
      by (simp_all add: n_def)
    then have a: "of_int n / 100 - x \<le> 1 / 200" and b: "- (1 / 200) < of_int n / 100 - x"
      by (simp_all add: field_simps)
    from True have r: "round2 x = of_int n / 100"
      by (simp add: round2_def n_def)
    from a b True show ?thesis
      unfolding r by (auto simp: abs_if split: if_splits)
  next
    case False
    define n where "n = \<lfloor>- x * 100 + 1 / 2\<rfloor>"
    from half [of "- x * 100"] have "of_int n \<le> - x * 100 + 1 / 2" "- x * 100 - 1 / 2 < of_int n"
      by (simp_all add: n_def)
    then have a: "of_int n / 100 + x \<le> 1 / 200" and b: "- (1 / 200) < of_int n / 100 + x"
      by (simp_all add: field_simps)
    from False have r: "round2 x = - (of_int n / 100)"
      by (simp add: round2_def n_def)
    from a b False show ?thesis
      unfolding r by (auto simp: abs_if split: if_splits)
  qed
qed

lemma round2_exact: "x * 100 \<in> \<int> \<Longrightarrow> round2 x = x"
proof -
  assume "x * 100 \<in> \<int>"
  then obtain n :: int where n: "x * 100 = of_int n"
    by (auto elim: Ints_cases)
  have up: "\<lfloor>(of_int k :: rat) + 1 / 2\<rfloor> = k" for k :: int
    by (simp add: floor_unique)
  from n have m: "- x * 100 = of_int (- n)"
    by simp
  from n have x: "x = of_int n / 100"
    by simp
  show ?thesis
    unfolding round2_def n m up by (simp add: x)
qed

lemma varchar_n_fits: "length s \<le> n \<Longrightarrow> varchar_n n s = Inr s"
  by (simp add: varchar_n_def)

lemma inColumn_varchar_n:
  "inColumn (varchar_n n) None = Inr None"
  "length s \<le> n \<Longrightarrow> inColumn (varchar_n n) (Some s) = Inr (Some s)"
  by (simp_all add: inColumn_def varchar_n_def)

lemma inColumn_decimal:
  "inColumn decimal_10_2 None = Inr None"
  "\<bar>round2 x\<bar> < 100000000 \<Longrightarrow> inColumn decimal_10_2 (Some x) = Inr (Some (round2 x))"
  by (simp_all add: inColumn_def decimal_10_2_def)

lemma fitInsertBooking_references:
  "fitInsertBooking bookingData = Inr fitted \<Longrightarrow>
     ib_carId fitted = ib_carId bookingData \<and> ib_userId fitted = ib_userId bookingData
     \<and> ib_startDate fitted = ib_startDate bookingData
     \<and> ib_endDate fitted = ib_endDate bookingData"
  by (auto simp: fitInsertBooking_def split: sum.splits)

lemma fitInsertPayment_references:
  "fitInsertPayment paymentData = Inr fitted \<Longrightarrow> ip_bookingId fitted = ip_bookingId paymentData"
  by (auto simp: fitInsertPayment_def split: sum.splits)

lemma fitPartialBooking_references:
  "fitPartialBooking bookingData = Inr fitted \<Longrightarrow>
     pb_carId fitted = pb_carId bookingData \<and> pb_userId fitted = pb_userId bookingData"
  by (auto simp: fitPartialBooking_def split: sum.splits)

lemma fitPartialPayment_references:
  "fitPartialPayment paymentData = Inr fitted \<Longrightarrow> pp_bookingId fitted = pp_bookingId paymentData"
  by (auto simp: fitPartialPayment_def split: sum.splits)

lemma fitInsertBooking_bookingDataOf:
  "fitInsertBooking (bookingDataOf env body)
     = (if \<bar>round2 (bb_totalCost body)\<bar> < 100000000
        then Inr ((bookingDataOf env body)\<lparr>ib_totalCost := round2 (bb_totalCost body)\<rparr>)
        else Inl NumericOverflow)"
  by (simp add: fitInsertBooking_def bookingDataOf_def decimal_10_2_def inColumn_def
        varchar_n_def)

lemma fitInsertPayment_paymentDataOf:
  "fitInsertPayment (paymentDataOf body booking)
     = (if \<bar>round2 (bb_totalCost body)\<bar> < 100000000
        then Inr ((paymentDataOf body booking)\<lparr>ip_amount := round2 (bb_totalCost body)\<rparr>)
        else Inl NumericOverflow)"
  by (simp add: fitInsertPayment_def paymentDataOf_def decimal_10_2_def inColumn_def
        varchar_n_def)

subsection \<open>Availability\<close>

text \<open>
  Claim C1. \<open>checkAvailability\<close> answers true exactly when no booking of the car with
  status \<open>pending\<close> or \<open>confirmed\<close> meets the requested range, the ends included
  (a booking from \<open>bs\<close> to \<open>be\<close> meets the range from \<open>s\<close> to \<open>e\<close> when \<open>bs \<le> e\<close> and
  \<open>be \<ge> s\<close>). Bookings that are \<open>cancelled\<close> or \<open>completed\<close> never change the answer:
  taking them all away leaves it as it is. With one confirmed booking from 1 to
  5 June, a request from 5 to 7 June is refused and one from 6 to 7 June is
  accepted. The check writes nothing: the step of a booking request that runs it
  leaves the database as it was.
\<close>

theorem C1_checkAvailability:
  "(checkAvailability d carId s e \<longleftrightarrow>
      \<not> (\<exists>b \<in> set (bookings d). b_carId b = carId
            \<and> (b_status b = ''pending'' \<or> b_status b = ''confirmed'')
            \<and> b_startDate b \<le> e \<and> b_endDate b \<ge> s))
   \<and> checkAvailability
        (d\<lparr>bookings := filter (\<lambda>b. b_status b \<noteq> ''cancelled'' \<and> b_status b \<noteq> ''completed'')
                              (bookings d)\<rparr>) carId s e
       = checkAvailability d carId s e
   \<and> (bookings d = [b] \<and> b_carId b = carId \<and> b_status b = ''confirmed''
        \<and> b_startDate b = june 1 \<and> b_endDate b = june 5
      \<longrightarrow> \<not> checkAvailability d carId (june 5) (june 7)
          \<and> checkAvailability d carId (june 6) (june 7))
   \<and> snd (post_step env body AwaitCheck d) = d"
proof -
  have iff: "\<And>d. checkAvailability d carId s e \<longleftrightarrow>
      \<not> (\<exists>b \<in> set (bookings d). b_carId b = carId
            \<and> (b_status b = ''pending'' \<or> b_status b = ''confirmed'')
            \<and> b_startDate b \<le> e \<and> b_endDate b \<ge> s)"
    by (rule checkAvailability_iff)
  have inactive: "checkAvailability
        (d\<lparr>bookings := filter (\<lambda>b. b_status b \<noteq> ''cancelled'' \<and> b_status b \<noteq> ''completed'')
                              (bookings d)\<rparr>) carId s e
       = checkAvailability d carId s e"
    unfolding iff by auto
  have example: "bookings d = [b] \<and> b_carId b = carId \<and> b_status b = ''confirmed''
        \<and> b_startDate b = june 1 \<and> b_endDate b = june 5
      \<longrightarrow> \<not> checkAvailability d carId (june 5) (june 7)
          \<and> checkAvailability d carId (june 6) (june 7)"
    by (simp add: checkAvailability_iff june_def)
  have readonly: "snd (post_step env body AwaitCheck d) = d"
    by (simp add: post_step_def)
  from iff inactive example readonly show ?thesis by blast
qed

theorem C1_checkAvailability_witness:
  "\<not> checkAvailability demo_db ''c1'' (june 5) (june 7)
   \<and> checkAvailability demo_db ''c1'' (june 6) (june 7)"
proof -
  let ?b = "mkBooking ''b1'' ''c1'' (june 1) (june 5) 6000 ''confirmed'' ''paid''"
  have pre: "bookings demo_db = [?b] \<and> b_carId ?b = ''c1'' \<and> b_status ?b = ''confirmed''
        \<and> b_startDate ?b = june 1 \<and> b_endDate ?b = june 5"
    by (simp add: demo_db_def mkBooking_def)
  from C1_checkAvailability [of demo_db "''c1''" 0 0 ?b]
  have "bookings demo_db = [?b] \<and> b_carId ?b = ''c1'' \<and> b_status ?b = ''confirmed''
        \<and> b_startDate ?b = june 1 \<and> b_endDate ?b = june 5
      \<longrightarrow> \<not> checkAvailability demo_db ''c1'' (june 5) (june 7)
          \<and> checkAvailability demo_db ''c1'' (june 6) (june 7)"
    by blast
  with pre show ?thesis by blast
qed

subsection \<open>Ratings\<close>

lemma mset_orderByDesc: "mset (orderByDesc k rows) = mset rows"
  by (simp add: orderByDesc_def)

lemma length_orderByDesc: "length (orderByDesc k rows) = length rows"
  by (simp add: orderByDesc_def)

lemma set_orderByDesc: "set (orderByDesc k rows) = set rows"
  by (simp add: orderByDesc_def)

lemma sum_list_map_mset:
  fixes f :: "'a \<Rightarrow> 'b::comm_monoid_add"
  shows "sum_list (map f xs) = sum_mset (image_mset f (mset xs))"
  by (metis mset_map sum_mset_sum_list)

lemma sum_list_orderByDesc:
  fixes f :: "'a \<Rightarrow> 'b::comm_monoid_add"
  shows "sum_list (map f (orderByDesc k rows)) = sum_list (map f rows)"
  by (simp add: sum_list_map_mset mset_orderByDesc)

text \<open>Ratings whose magnitudes add up to less than \<open>2 ^ 53\<close> are summed without
  rounding.\<close>

lemma foldl_ratings:
  assumes "sum_list (map (\<lambda>r. \<bar>r_rating r\<bar>) rows) < 2 ^ 53"
  shows "foldl (\<lambda>sum r. number_add sum (of_int (r_rating r))) a0 rows
         = foldl number_add a0 (map (\<lambda>r. of_int (r_rating r)) rows)"
    and "foldl number_add 0 (map (\<lambda>r. of_int (r_rating r)) rows)
         = of_int (sum_list (map r_rating rows))"
proof -
  show "foldl (\<lambda>sum r. number_add sum (of_int (r_rating r))) a0 rows
         = foldl number_add a0 (map (\<lambda>r. of_int (r_rating r)) rows)"
    by (simp add: foldl_map)
  have whole: "list_all (\<lambda>x. x \<in> \<int>) (map (\<lambda>r. rat_of_int (r_rating r)) rows)"
    by (simp add: list_all_iff)
  have "sum_list (map abs (map (\<lambda>r. rat_of_int (r_rating r)) rows))
          = of_int (sum_list (map (\<lambda>r. \<bar>r_rating r\<bar>) rows))"
    by (induction rows) simp_all
  also from assms have "\<dots> < of_int (2 ^ 53)"
    by (simp only: of_int_less_iff)
  finally have small:
    "\<bar>0\<bar> + sum_list (map abs (map (\<lambda>r. rat_of_int (r_rating r)) rows)) < 2 ^ 53"
    by simp
  have "foldl number_add 0 (map (\<lambda>r. rat_of_int (r_rating r)) rows)
          = 0 + sum_list (map (\<lambda>r. rat_of_int (r_rating r)) rows)"
    using _ whole small by (rule foldl_number_add) simp
  also have "\<dots> = of_int (sum_list (map r_rating rows))"
    by (induction rows) simp_all
  finally show "foldl number_add 0 (map (\<lambda>r. of_int (r_rating r)) rows)
         = of_int (sum_list (map r_rating rows))" .
qed

lemma reviews_total_exact:
  assumes "sum_list (map (\<lambda>r. \<bar>r_rating r\<bar>) rows) < 2 ^ 53"
  shows "foldl (\<lambda>sum r. number_add sum (of_int (r_rating r))) 0 rows
         = of_int (sum_list (map r_rating rows))"
  using foldl_ratings [OF assms] by simp

lemma reviews_magnitude:
  "sum_list (map (\<lambda>r. \<bar>r_rating r\<bar>) (getReviewsByCarId d carId))
     = sum_list (map abs (ratingsOf d carId))"
  by (simp add: getReviewsByCarId_def ratingsOf_def sum_list_orderByDesc comp_def)

lemma reviews_sum:
  "sum_list (map r_rating (getReviewsByCarId d carId)) = sum_list (ratingsOf d carId)"
  by (simp add: getReviewsByCarId_def ratingsOf_def sum_list_orderByDesc)

lemma reviews_count:
  "length (getReviewsByCarId d carId) = length (ratingsOf d carId)"
  by (simp add: getReviewsByCarId_def ratingsOf_def length_orderByDesc)

lemma reviews_empty:
  "getReviewsByCarId d carId = [] \<longleftrightarrow> ratingsOf d carId = []"
  using reviews_count [of d carId] by (metis length_0_conv)

lemma reviews_total:
  assumes "sum_list (map abs (ratingsOf d carId)) < 2 ^ 53"
  shows "foldl (\<lambda>sum r. number_add sum (of_int (r_rating r))) 0 (getReviewsByCarId d carId)
         = of_int (sum_list (ratingsOf d carId))"
proof -
  from assms have "sum_list (map (\<lambda>r. \<bar>r_rating r\<bar>) (getReviewsByCarId d carId)) < 2 ^ 53"
    by (simp only: reviews_magnitude)
  from reviews_total_exact [OF this] show ?thesis
    by (simp only: reviews_sum)
qed

lemma getAverageRating_none: "ratingsOf d carId = [] \<Longrightarrow> getAverageRating d carId = 0"
  by (simp add: getAverageRating_def Let_def reviews_empty)

lemma getAverageRating_mean:
  assumes "sum_list (map abs (ratingsOf d carId)) < 2 ^ 53"
  shows "getAverageRating d carId = binary64 (arithmetic_mean (ratingsOf d carId))"
proof (cases "ratingsOf d carId = []")
  case True
  then show ?thesis
    by (simp add: getAverageRating_none arithmetic_mean_def binary64_def)
next
  case False
  then show ?thesis
    by (simp add: getAverageRating_def arithmetic_mean_def Let_def reviews_total [OF assms]
          reviews_count reviews_empty number_div_def)
qed

lemma arithmetic_mean_bounds:
  assumes "\<forall>x \<in> set xs. 1 \<le> x \<and> x \<le> 5"
  shows "0 \<le> arithmetic_mean xs \<and> arithmetic_mean xs \<le> 5"
proof (cases "xs = []")
  case True
  then show ?thesis by (simp add: arithmetic_mean_def)
next
  case False
  from assms have lo: "0 \<le> sum_list xs"
    by (induction xs) auto
  from assms have hi: "sum_list xs \<le> 5 * int (length xs)"
    by (induction xs) auto
  from False have n: "0 < (of_nat (length xs) :: rat)" by simp
  from lo have "0 \<le> (of_int (sum_list xs) :: rat)" by simp
  with n have a: "0 \<le> (of_int (sum_list xs) :: rat) / of_nat (length xs)" by simp
  from hi have "(of_int (sum_list xs) :: rat) \<le> of_int (5 * int (length xs))"
    by (simp only: of_int_le_iff)
  then have "(of_int (sum_list xs) :: rat) \<le> 5 * of_nat (length xs)" by simp
  with n have b: "(of_int (sum_list xs) :: rat) / of_nat (length xs) \<le> 5"
    by (simp add: divide_le_eq)
  from a b False show ?thesis by (simp add: arithmetic_mean_def)
qed

lemma stars_magnitude:
  assumes "\<forall>x \<in> set xs. 1 \<le> x \<and> x \<le> 5" and "length xs < 2 ^ 32"
  shows "sum_list (map abs xs) < (2 :: int) ^ 53"
proof -
  from assms(1) have "sum_list (map abs xs) \<le> 5 * int (length xs)"
    by (induction xs) auto
  also from assms(2) have "\<dots> < 5 * 2 ^ 32"
    by simp
  also have "\<dots> < (2 :: int) ^ 53"
    by simp
  finally show ?thesis .
qed

lemma getAverageRating_bounds:
  assumes "\<forall>x \<in> set (ratingsOf d carId). 1 \<le> x \<and> x \<le> 5"
      and "length (ratingsOf d carId) < 2 ^ 32"
  shows "0 \<le> getAverageRating d carId \<and> getAverageRating d carId \<le> 5"
proof -
  from stars_magnitude [OF assms]
  have eq: "getAverageRating d carId = binary64 (arithmetic_mean (ratingsOf d carId))"
    by (rule getAverageRating_mean)
  from arithmetic_mean_bounds [OF assms(1)]
  have lo: "0 \<le> arithmetic_mean (ratingsOf d carId)"
    and hi: "arithmetic_mean (ratingsOf d carId) \<le> of_int 5"
    by simp_all
  from hi have small: "arithmetic_mean (ratingsOf d carId) < 2 ^ 53"
    by simp
  from binary64_nonneg [OF lo] binary64_le_int [OF lo hi small] show ?thesis
    by (simp add: eq)
qed

lemma arithmetic_mean_whole:
  assumes "arithmetic_mean xs = of_int m" and "sum_list (map abs xs) < 2 ^ 53"
  shows "binary64 (arithmetic_mean xs) = of_int m"
proof (cases "xs = []")
  case True
  with assms(1) show ?thesis
    by (simp add: arithmetic_mean_def binary64_def)
next
  case False
  then have n: "1 \<le> (of_nat (length xs) :: rat)"
    by (cases xs) simp_all
  have "\<bar>sum_list xs\<bar> \<le> sum_list (map abs xs)"
    by (rule sum_list_abs)
  with assms(2) have "\<bar>sum_list xs\<bar> < 2 ^ 53"
    by simp
  then have s: "\<bar>rat_of_int (sum_list xs)\<bar> < 2 ^ 53"
    by (metis of_int_abs of_int_less_iff of_int_numeral of_int_power)
  from False have "\<bar>arithmetic_mean xs\<bar> = \<bar>rat_of_int (sum_list xs)\<bar> / of_nat (length xs)"
    by (simp add: arithmetic_mean_def)
  also from n have "\<dots> \<le> \<bar>rat_of_int (sum_list xs)\<bar>"
    by (simp add: divide_le_eq mult_le_cancel_left1)
  finally have "\<bar>arithmetic_mean xs\<bar> < 2 ^ 53"
    using s by simp
  with assms(1) have "\<bar>rat_of_int m\<bar> < 2 ^ 53"
    by simp
  from binary64_of_int [OF this] assms(1) show ?thesis
    by simp
qed

lemma getAllCars_rating:
  assumes "car \<in> set (getAllCars d)"
      and "sum_list (map abs (ratingsOf d (c_id (cr_car car)))) < 2 ^ 53"
  shows "cr_averageRating car = binary64 (arithmetic_mean (ratingsOf d (c_id (cr_car car))))"
proof -
  let ?rows = "filter (\<lambda>r. r_carId r = c_id (cr_car car)) (reviews d)"
  from assms(2) have "sum_list (map (\<lambda>r. \<bar>r_rating r\<bar>) ?rows) < 2 ^ 53"
    by (simp add: ratingsOf_def comp_def)
  from reviews_total_exact [OF this]
  have total: "foldl (\<lambda>sum r. number_add sum (of_int (r_rating r))) 0 ?rows
                 = of_int (sum_list (ratingsOf d (c_id (cr_car car))))"
    by (simp add: ratingsOf_def)
  from assms(1) have "cr_averageRating car
      = (if length ?rows > 0
         then number_div (foldl (\<lambda>sum r. number_add sum (of_int (r_rating r))) 0 ?rows)
                         (of_nat (length ?rows))
         else 0)"
    by (auto simp: getAllCars_def Let_def)
  then show ?thesis
    unfolding total
    by (simp add: arithmetic_mean_def ratingsOf_def number_div_def binary64_def)
qed

lemma getAllCars_count:
  "car \<in> set (getAllCars d) \<Longrightarrow>
     c_isAvailable (cr_car car)
     \<and> (ratingsOf d (c_id (cr_car car)) = [] \<longrightarrow> cr_averageRating car = 0)
     \<and> cr_reviewCount car = length (ratingsOf d (c_id (cr_car car)))"
  by (auto simp: getAllCars_def Let_def ratingsOf_def)

lemma getCarById_id: "getCarById d cid = Some car \<Longrightarrow> c_id car = cid"
proof -
  assume "getCarById d cid = Some car"
  then obtain rest where "filter (\<lambda>c. c_id c = cid) (cars d) = car # rest"
    by (auto simp: getCarById_def firstRow_def split: list.splits)
  then have "car \<in> set (filter (\<lambda>c. c_id c = cid) (cars d))"
    by simp
  then show ?thesis by simp
qed

lemma car_detail_rating:
  "get_api_cars_id cid d = Json detail \<Longrightarrow> cd_averageRating detail = getAverageRating d cid"
  by (auto simp: get_api_cars_id_def Let_def dest: getCarById_id split: option.splits)

lemma owner_rating_loop:
  assumes "\<bar>a\<bar> + sum_list (map abs (concat (map (\<lambda>car. ratingsOf d (c_id car)) ownerCars)))
             < 2 ^ 53"
  shows "foldl (\<lambda>(totalRating, totalReviews) car.
            (number_add totalRating
               (foldl (\<lambda>sum r. number_add sum (of_int (r_rating r))) 0
                      (getReviewsByCarId d (c_id car))),
             totalReviews + length (getReviewsByCarId d (c_id car))))
         (of_int a, n) ownerCars
   = (of_int (a + sum_list (concat (map (\<lambda>car. ratingsOf d (c_id car)) ownerCars))),
      n + length (concat (map (\<lambda>car. ratingsOf d (c_id car)) ownerCars)))"
  using assms
proof (induction ownerCars arbitrary: a n)
  case Nil
  then show ?case by simp
next
  case (Cons car ownerCars)
  let ?own = "ratingsOf d (c_id car)"
  let ?rest = "concat (map (\<lambda>car. ratingsOf d (c_id car)) ownerCars)"
  from Cons.prems have bound: "\<bar>a\<bar> + sum_list (map abs ?own) + sum_list (map abs ?rest) < 2 ^ 53"
    by simp
  have r: "0 \<le> sum_list (map abs ?rest)" and o: "0 \<le> sum_list (map abs ?own)"
    by (rule sum_list_abs_nonneg)+
  from bound r have own: "sum_list (map abs ?own) < 2 ^ 53"
    by simp
  have tri: "\<bar>a + sum_list ?own\<bar> \<le> \<bar>a\<bar> + sum_list (map abs ?own)"
    using sum_list_abs [of ?own] by simp
  with bound r have small: "\<bar>a + sum_list ?own\<bar> < 2 ^ 53"
    and next_bound: "\<bar>a + sum_list ?own\<bar> + sum_list (map abs ?rest) < 2 ^ 53"
    by simp_all
  from small have "\<bar>rat_of_int (a + sum_list ?own)\<bar> < 2 ^ 53"
    by (metis of_int_abs of_int_less_iff of_int_numeral of_int_power)
  then have step: "number_add (of_int a) (of_int (sum_list ?own)) = of_int (a + sum_list ?own)"
    using binary64_of_int [of "a + sum_list ?own"] by (simp add: number_add_def)
  from Cons.IH [OF next_bound, of "n + length ?own"] show ?case
    by (simp add: reviews_total [OF own] reviews_count step add.assoc)
qed

lemma owner_dashboard_rating:
  assumes "get_api_owner_dashboard userId d = Json dash"
      and "sum_list (map abs (ratingsOfOwner d userId)) < 2 ^ 53"
  shows "os_averageRating (od_stats dash) = binary64 (arithmetic_mean (ratingsOfOwner d userId))"
proof -
  from assms(2) have "\<bar>0\<bar> + sum_list (map abs
      (concat (map (\<lambda>car. ratingsOf d (c_id car)) (getCarsByOwner d userId)))) < 2 ^ 53"
    by (simp add: ratingsOfOwner_def getCarsByOwner_def)
  from owner_rating_loop [OF this, of 0]
  have loop: "foldl (\<lambda>(totalRating, totalReviews) car.
            (number_add totalRating
               (foldl (\<lambda>sum r. number_add sum (of_int (r_rating r))) 0
                      (getReviewsByCarId d (c_id car))),
             totalReviews + length (getReviewsByCarId d (c_id car))))
         (0, 0) (getCarsByOwner d userId)
   = (of_int (sum_list (ratingsOfOwner d userId)), length (ratingsOfOwner d userId))"
    by (simp add: ratingsOfOwner_def getCarsByOwner_def)
  from assms(1) show ?thesis
    by (auto simp: get_api_owner_dashboard_def Let_def loop arithmetic_mean_def number_div_def
          binary64_def split: if_splits)
qed

text \<open>
  Claim C5, as the code has it. \<open>getAverageRating\<close> adds the ratings and divides in
  double-precision arithmetic. The ratings are added without rounding (their
  magnitudes total less than \<open>2 ^ 53\<close>), so the result is the arithmetic mean of the
  ratings of all the car's reviews rounded once, to the nearest double: it differs
  from the mean by at most the mean's magnitude divided by \<open>2 ^ 53\<close>, it is the mean
  itself when that is a whole number, and 0 when the car has no review. When every
  stored rating is between 1 and 5 (and the reviews are fewer than \<open>2 ^ 32\<close>, as the
  elements of a JavaScript array are) the result is between 0 and 5; for the
  ratings 5, 3, 4 it is 4. The car list (\<open>getAllCars\<close>) and the car detail give each
  car this same value, and the owner dashboard applies the same formula to the
  reviews of all the cars the owner has.
\<close>

theorem C5_getAverageRating:
  "(sum_list (map abs (ratingsOf d carId)) < 2 ^ 53
      \<longrightarrow> getAverageRating d carId = binary64 (arithmetic_mean (ratingsOf d carId)))
   \<and> (\<forall>m. sum_list (map abs (ratingsOf d carId)) < 2 ^ 53
            \<and> arithmetic_mean (ratingsOf d carId) = of_int m
         \<longrightarrow> getAverageRating d carId = of_int m)
   \<and> (ratingsOf d carId = [] \<longrightarrow> getAverageRating d carId = 0)
   \<and> ((\<forall>r \<in> set (reviews d). 1 \<le> r_rating r \<and> r_rating r \<le> 5)
        \<and> length (ratingsOf d carId) < 2 ^ 32
        \<longrightarrow> 0 \<le> getAverageRating d carId \<and> getAverageRating d carId \<le> 5)
   \<and> (ratingsOf d carId = [5, 3, 4] \<longrightarrow> getAverageRating d carId = 4)
   \<and> (\<forall>car \<in> set (getAllCars d).
         sum_list (map abs (ratingsOf d (c_id (cr_car car)))) < 2 ^ 53
         \<longrightarrow> cr_averageRating car = getAverageRating d (c_id (cr_car car)))
   \<and> (\<forall>detail. get_api_cars_id carId d = Json detail
         \<longrightarrow> cd_averageRating detail = getAverageRating d carId)
   \<and> (\<forall>dash. get_api_owner_dashboard userId d = Json dash
               \<and> sum_list (map abs (ratingsOfOwner d userId)) < 2 ^ 53
         \<longrightarrow> os_averageRating (od_stats dash)
             = binary64 (arithmetic_mean (ratingsOfOwner d userId)))
   \<and> (sum_list (map abs (ratingsOf d carId)) < 2 ^ 53
      \<longrightarrow> \<bar>getAverageRating d carId - arithmetic_mean (ratingsOf d carId)\<bar>
            \<le> \<bar>arithmetic_mean (ratingsOf d carId)\<bar> / 2 ^ 53)"
proof -
  have mean: "sum_list (map abs (ratingsOf d carId)) < 2 ^ 53
      \<longrightarrow> getAverageRating d carId = binary64 (arithmetic_mean (ratingsOf d carId))"
    by (simp add: getAverageRating_mean)
  have whole: "\<forall>m. sum_list (map abs (ratingsOf d carId)) < 2 ^ 53
            \<and> arithmetic_mean (ratingsOf d carId) = of_int m
         \<longrightarrow> getAverageRating d carId = of_int m"
  proof (intro allI impI, elim conjE)
    fix m
    assume small: "sum_list (map abs (ratingsOf d carId)) < 2 ^ 53"
      and m: "arithmetic_mean (ratingsOf d carId) = of_int m"
    from getAverageRating_mean [OF small] arithmetic_mean_whole [OF m small]
    show "getAverageRating d carId = of_int m"
      by simp
  qed
  have none: "ratingsOf d carId = [] \<longrightarrow> getAverageRating d carId = 0"
    by (simp add: getAverageRating_none)
  have range: "(\<forall>r \<in> set (reviews d). 1 \<le> r_rating r \<and> r_rating r \<le> 5)
        \<and> length (ratingsOf d carId) < 2 ^ 32
        \<longrightarrow> 0 \<le> getAverageRating d carId \<and> getAverageRating d carId \<le> 5"
  proof (intro impI, elim conjE)
    assume all: "\<forall>r \<in> set (reviews d). 1 \<le> r_rating r \<and> r_rating r \<le> 5"
      and few: "length (ratingsOf d carId) < 2 ^ 32"
    from all have "\<forall>x \<in> set (ratingsOf d carId). 1 \<le> x \<and> x \<le> 5"
      by (auto simp: ratingsOf_def)
    then show "0 \<le> getAverageRating d carId \<and> getAverageRating d carId \<le> 5"
      using few by (rule getAverageRating_bounds)
  qed
  have example: "ratingsOf d carId = [5, 3, 4] \<longrightarrow> getAverageRating d carId = 4"
  proof
    assume r: "ratingsOf d carId = [5, 3, 4]"
    then have "sum_list (map abs (ratingsOf d carId)) < 2 ^ 53"
      and "arithmetic_mean (ratingsOf d carId) = of_int 4"
      by (simp_all add: arithmetic_mean_def)
    with whole show "getAverageRating d carId = 4"
      by (metis of_int_numeral)
  qed
  have list: "\<forall>car \<in> set (getAllCars d).
         sum_list (map abs (ratingsOf d (c_id (cr_car car)))) < 2 ^ 53
         \<longrightarrow> cr_averageRating car = getAverageRating d (c_id (cr_car car))"
    by (simp add: getAllCars_rating getAverageRating_mean)
  have detail: "\<forall>detail. get_api_cars_id carId d = Json detail
         \<longrightarrow> cd_averageRating detail = getAverageRating d carId"
    by (simp add: car_detail_rating)
  have owner: "\<forall>dash. get_api_owner_dashboard userId d = Json dash
               \<and> sum_list (map abs (ratingsOfOwner d userId)) < 2 ^ 53
         \<longrightarrow> os_averageRating (od_stats dash)
             = binary64 (arithmetic_mean (ratingsOfOwner d userId))"
    by (simp add: owner_dashboard_rating)
  have close: "sum_list (map abs (ratingsOf d carId)) < 2 ^ 53
      \<longrightarrow> \<bar>getAverageRating d carId - arithmetic_mean (ratingsOf d carId)\<bar>
            \<le> \<bar>arithmetic_mean (ratingsOf d carId)\<bar> / 2 ^ 53"
  proof
    assume "sum_list (map abs (ratingsOf d carId)) < 2 ^ 53"
    from getAverageRating_mean [OF this] binary64_error [of "arithmetic_mean (ratingsOf d carId)"]
    show "\<bar>getAverageRating d carId - arithmetic_mean (ratingsOf d carId)\<bar>
            \<le> \<bar>arithmetic_mean (ratingsOf d carId)\<bar> / 2 ^ 53"
      by (simp only:)
  qed
  show ?thesis
    by (intro conjI mean whole none range example list detail owner close)
qed

theorem C5_getAverageRating_witness:
  "ratingsOf fleet_db ''c1'' = [5, 3, 4]
   \<and> getAverageRating fleet_db ''c1'' = binary64 (arithmetic_mean [5, 3, 4])
   \<and> getAverageRating fleet_db ''c1'' = 4
   \<and> 0 \<le> getAverageRating fleet_db ''c2'' \<and> getAverageRating fleet_db ''c2'' \<le> 5
   \<and> getAverageRating fleet_db ''c2'' = 0
   \<and> map cr_averageRating (getAllCars fleet_db) = [4, 1]
   \<and> (\<exists>detail. get_api_cars_id ''c1'' fleet_db = Json detail \<and> cd_averageRating detail = 4)
   \<and> ratingsOfOwner fleet_db ''o1'' = [5, 3, 4]
   \<and> (\<exists>dash. get_api_owner_dashboard ''o1'' fleet_db = Json dash
          \<and> os_averageRating (od_stats dash) = 4)
   \<and> getAverageRating (demo_db\<lparr>reviews := [mkReview ''r1'' ''c1'' 5, mkReview ''r2'' ''c1'' 4,
                                           mkReview ''r3'' ''c1'' 4]\<rparr>) ''c1''
       = 4878899596318037 / 1125899906842624"
proof -
  have ratings: "ratingsOf fleet_db ''c1'' = [5, 3, 4]"
    by (simp add: ratingsOf_def fleet_db_def mkReview_def)
  have empty: "ratingsOf fleet_db ''c2'' = []"
    by (simp add: ratingsOf_def fleet_db_def mkReview_def)
  have single: "ratingsOf fleet_db ''c3'' = [1]"
    by (simp add: ratingsOf_def fleet_db_def mkReview_def)
  have stars: "\<forall>r \<in> set (reviews fleet_db). 1 \<le> r_rating r \<and> r_rating r \<le> 5"
    by (simp add: fleet_db_def mkReview_def)
  have four: "arithmetic_mean [5, 3, 4] = of_int 4" and one: "arithmetic_mean [1] = of_int 1"
    by (simp_all add: arithmetic_mean_def)
  note c1 = C5_getAverageRating [of fleet_db "''c1''" "''o1''"]
  note c2 = C5_getAverageRating [of fleet_db "''c2''" "''o1''"]
  note c3 = C5_getAverageRating [of fleet_db "''c3''" "''o1''"]
  have small1: "sum_list (map abs (ratingsOf fleet_db ''c1'')) < 2 ^ 53"
    by (simp add: ratings)
  have small3: "sum_list (map abs (ratingsOf fleet_db ''c3'')) < 2 ^ 53"
    by (simp add: single)
  from c1 [THEN conjunct1, THEN mp, OF small1]
  have r: "getAverageRating fleet_db ''c1'' = binary64 (arithmetic_mean [5, 3, 4])"
    by (simp only: ratings)
  from c1 [THEN conjunct2, THEN conjunct1, rule_format, of 4] small1 four
  have a: "getAverageRating fleet_db ''c1'' = 4"
    by (simp add: ratings)
  from c3 [THEN conjunct2, THEN conjunct1, rule_format, of 1] small3 one
  have a3: "getAverageRating fleet_db ''c3'' = 1"
    by (simp add: single)
  from c2 [THEN conjunct2, THEN conjunct2, THEN conjunct1, THEN mp, OF empty]
  have z: "getAverageRating fleet_db ''c2'' = 0" .
  have few: "length (ratingsOf fleet_db ''c2'') < 2 ^ 32"
    by (simp add: empty)
  from c2 [THEN conjunct2, THEN conjunct2, THEN conjunct2, THEN conjunct1, THEN mp,
           OF conjI [OF stars few]]
  have b: "0 \<le> getAverageRating fleet_db ''c2'' \<and> getAverageRating fleet_db ''c2'' \<le> 5" .
  have listed: "map cr_car (getAllCars fleet_db) = [mkCar ''c1'' ''o1'' True, mkCar ''c3'' ''o2'' True]"
    by (simp add: getAllCars_rows fleet_db_def mkCar_def)
  then obtain x y where xy: "getAllCars fleet_db = [x, y]"
    "cr_car x = mkCar ''c1'' ''o1'' True" "cr_car y = mkCar ''c3'' ''o2'' True"
    by auto
  note list = c1 [THEN conjunct2, THEN conjunct2, THEN conjunct2, THEN conjunct2,
                  THEN conjunct2, THEN conjunct1, rule_format]
  have "cr_averageRating x = getAverageRating fleet_db (c_id (cr_car x))"
    by (rule list) (simp_all add: xy mkCar_def ratings)
  then have x: "cr_averageRating x = 4"
    by (simp add: xy mkCar_def a)
  have "cr_averageRating y = getAverageRating fleet_db (c_id (cr_car y))"
    by (rule list) (simp_all add: xy mkCar_def single)
  then have y: "cr_averageRating y = 1"
    by (simp add: xy mkCar_def a3)
  from x y have c: "map cr_averageRating (getAllCars fleet_db) = [4, 1]"
    by (simp add: xy)
  have car: "getCarById fleet_db ''c1'' = Some (mkCar ''c1'' ''o1'' True)"
    by (simp add: getCarById_def firstRow_def fleet_db_def mkCar_def)
  then obtain detail where detail: "get_api_cars_id ''c1'' fleet_db = Json detail"
    by (simp add: get_api_cars_id_def Let_def)
  from c1 [THEN conjunct2, THEN conjunct2, THEN conjunct2, THEN conjunct2, THEN conjunct2,
           THEN conjunct2, THEN conjunct1, rule_format, OF detail] a
  have "cd_averageRating detail = 4" by simp
  with detail have e: "\<exists>detail. get_api_cars_id ''c1'' fleet_db = Json detail
                        \<and> cd_averageRating detail = 4"
    by (intro exI conjI)
  have o1: "getUser fleet_db ''o1'' = Some (mkUser ''o1'' ''owner'')"
    by (simp add: getUser_def firstRow_def fleet_db_def mkUser_def)
  from owner_dashboard_answers [OF o1] obtain dash
    where dash: "get_api_owner_dashboard ''o1'' fleet_db = Json dash"
    by (auto simp: mkUser_def)
  have pooled: "ratingsOfOwner fleet_db ''o1'' = [5, 3, 4]"
    by (simp add: ratingsOfOwner_def ratingsOf_def fleet_db_def mkCar_def mkReview_def)
  have small: "sum_list (map abs (ratingsOfOwner fleet_db ''o1'')) < 2 ^ 53"
    by (simp add: pooled)
  from c1 [THEN conjunct2, THEN conjunct2, THEN conjunct2, THEN conjunct2, THEN conjunct2,
           THEN conjunct2, THEN conjunct2, THEN conjunct1, rule_format,
           OF conjI [OF dash small]]
  have "os_averageRating (od_stats dash) = binary64 (arithmetic_mean [5, 3, 4])"
    by (simp only: pooled)
  also have "\<dots> = getAverageRating fleet_db ''c1''"
    by (simp only: r)
  finally have "os_averageRating (od_stats dash) = 4"
    by (simp only: a)
  with dash have f: "\<exists>dash. get_api_owner_dashboard ''o1'' fleet_db = Json dash
          \<and> os_averageRating (od_stats dash) = 4"
    by (intro exI conjI)
  let ?d = "demo_db\<lparr>reviews := [mkReview ''r1'' ''c1'' 5, mkReview ''r2'' ''c1'' 4,
                                   mkReview ''r3'' ''c1'' 4]\<rparr>"
  have thirds: "ratingsOf ?d ''c1'' = [5, 4, 4]"
    by (simp add: ratingsOf_def mkReview_def)
  have small4: "sum_list (map abs (ratingsOf ?d ''c1'')) < 2 ^ 53"
    by (simp add: thirds)
  have rounded: "binary64 (arithmetic_mean [5, 4, 4]) = 4878899596318037 / 1125899906842624"
    by code_simp
  from C5_getAverageRating [of ?d "''c1''" "''o1''", THEN conjunct1, THEN mp, OF small4]
  have g: "getAverageRating ?d ''c1'' = 4878899596318037 / 1125899906842624"
    by (simp only: thirds rounded)
  show ?thesis
    by (intro conjI ratings r a b [THEN conjunct1] b [THEN conjunct2] z c e pooled f g)
qed

text \<open>
  The mean of the ratings 5, 4, 4 is 13/3, which no double is: \<open>13 / 3\<close> evaluates to
  4.333333333333333, the double \<open>4878899596318037 / 2 ^ 50\<close>.
\<close>

theorem C5_counterexample:
  "ratingsOf (demo_db\<lparr>reviews := [mkReview ''r1'' ''c1'' 5, mkReview ''r2'' ''c1'' 4,
                                   mkReview ''r3'' ''c1'' 4]\<rparr>) ''c1'' = [5, 4, 4]
   \<and> arithmetic_mean [5, 4, 4] = 13 / 3
   \<and> getAverageRating (demo_db\<lparr>reviews := [mkReview ''r1'' ''c1'' 5, mkReview ''r2'' ''c1'' 4,
                                           mkReview ''r3'' ''c1'' 4]\<rparr>) ''c1''
       = 4878899596318037 / 1125899906842624
   \<and> getAverageRating (demo_db\<lparr>reviews := [mkReview ''r1'' ''c1'' 5, mkReview ''r2'' ''c1'' 4,
                                           mkReview ''r3'' ''c1'' 4]\<rparr>) ''c1''
       \<noteq> arithmetic_mean [5, 4, 4]"
  by code_simp

subsection \<open>Revenue\<close>















subsection \<open>The car listing\<close>

lemma set_filterIf: "set (filterIf param keep rows) \<subseteq> set rows"
  by (auto simp: filterIf_def split: option.splits)

lemma get_api_cars_subset:
  assumes "get_api_cars toLowerCase Number q d = Json listed"
  shows "set listed \<subseteq> set (getAllCars d)"
proof -
  from assms show ?thesis
    unfolding get_api_cars_def Let_def
    using set_filterIf by (metis (no_types, lifting) response.inject(1) subset_trans)
qed

lemma get_api_cars_no_filter:
  "get_api_cars toLowerCase Number
     \<lparr>q_search = None, q_minPrice = None, q_maxPrice = None, q_brands = None,
      q_carTypes = None, q_transmission = None\<rparr> d = Json (getAllCars d)"
  by (simp add: get_api_cars_def Let_def filterIf_def)

lemma admin_dashboard_cars:
  "get_api_admin_dashboard userId d = Json dash \<Longrightarrow>
     map fst (ad_cars dash) = getAllCars d
     \<and> as_totalCars (ad_stats dash) = length (getAllCars d)"
  by (auto simp: get_api_admin_dashboard_def Let_def comp_def split: if_splits)

text \<open>
  Claim C10. \<open>getAllCars\<close> returns exactly the cars whose \<open>isAvailable\<close> flag is true, in
  table order, each with its \<open>averageRating\<close> (the mean of its ratings as a double, their
  magnitudes adding up to less than \<open>2 ^ 53\<close>; 0 when it has no review) and its
  \<open>reviewCount\<close>. So whatever the filters, every car the listing endpoint returns is
  one of them; the admin dashboard's car list is these cars and its \<open>totalCars\<close> is
  their number; a car whose flag is false appears in none.
\<close>

theorem C10_getAllCars:
  "map cr_car (getAllCars d) = filter c_isAvailable (cars d)
   \<and> (\<forall>car \<in> set (getAllCars d).
         c_isAvailable (cr_car car)
         \<and> (sum_list (map abs (ratingsOf d (c_id (cr_car car)))) < 2 ^ 53
              \<longrightarrow> cr_averageRating car
                    = binary64 (arithmetic_mean (ratingsOf d (c_id (cr_car car)))))
         \<and> (ratingsOf d (c_id (cr_car car)) = [] \<longrightarrow> cr_averageRating car = 0)
         \<and> cr_reviewCount car = length (ratingsOf d (c_id (cr_car car))))
   \<and> (\<forall>listed. get_api_cars toLowerCase Number q d = Json listed
         \<longrightarrow> set listed \<subseteq> set (getAllCars d)
             \<and> (\<forall>car \<in> set listed. c_isAvailable (cr_car car)))
   \<and> (\<forall>dash. get_api_admin_dashboard userId d = Json dash
         \<longrightarrow> map (\<lambda>row. cr_car (fst row)) (ad_cars dash) = filter c_isAvailable (cars d)
             \<and> as_totalCars (ad_stats dash) = length (filter c_isAvailable (cars d)))
   \<and> (\<forall>c \<in> set (cars d). \<not> c_isAvailable c \<longrightarrow> c \<notin> set (map cr_car (getAllCars d)))"
proof -
  have rows: "map cr_car (getAllCars d) = filter c_isAvailable (cars d)"
    by (rule getAllCars_rows)
  have annotated: "\<forall>car \<in> set (getAllCars d).
         c_isAvailable (cr_car car)
         \<and> (sum_list (map abs (ratingsOf d (c_id (cr_car car)))) < 2 ^ 53
              \<longrightarrow> cr_averageRating car
                    = binary64 (arithmetic_mean (ratingsOf d (c_id (cr_car car)))))
         \<and> (ratingsOf d (c_id (cr_car car)) = [] \<longrightarrow> cr_averageRating car = 0)
         \<and> cr_reviewCount car = length (ratingsOf d (c_id (cr_car car)))"
    by (simp add: getAllCars_count getAllCars_rating)
  have listing: "\<forall>listed. get_api_cars toLowerCase Number q d = Json listed
         \<longrightarrow> set listed \<subseteq> set (getAllCars d)
             \<and> (\<forall>car \<in> set listed. c_isAvailable (cr_car car))"
  proof (intro allI impI)
    fix listed
    assume "get_api_cars toLowerCase Number q d = Json listed"
    then have sub: "set listed \<subseteq> set (getAllCars d)"
      by (rule get_api_cars_subset)
    with annotated show "set listed \<subseteq> set (getAllCars d)
             \<and> (\<forall>car \<in> set listed. c_isAvailable (cr_car car))"
      by auto
  qed
  have admin: "\<forall>dash. get_api_admin_dashboard userId d = Json dash
         \<longrightarrow> map (\<lambda>row. cr_car (fst row)) (ad_cars dash) = filter c_isAvailable (cars d)
             \<and> as_totalCars (ad_stats dash) = length (filter c_isAvailable (cars d))"
  proof (intro allI impI)
    fix dash
    assume "get_api_admin_dashboard userId d = Json dash"
    then have a: "map fst (ad_cars dash) = getAllCars d"
      and b: "as_totalCars (ad_stats dash) = length (getAllCars d)"
      by (simp_all add: admin_dashboard_cars)
    have "map (\<lambda>row. cr_car (fst row)) (ad_cars dash) = map cr_car (map fst (ad_cars dash))"
      by (simp add: comp_def)
    also have "\<dots> = filter c_isAvailable (cars d)"
      by (simp only: a rows)
    finally have c: "map (\<lambda>row. cr_car (fst row)) (ad_cars dash)
                     = filter c_isAvailable (cars d)" .
    have "length (getAllCars d) = length (map cr_car (getAllCars d))"
      by simp
    also have "\<dots> = length (filter c_isAvailable (cars d))"
      by (simp only: rows)
    finally show "map (\<lambda>row. cr_car (fst row)) (ad_cars dash) = filter c_isAvailable (cars d)
             \<and> as_totalCars (ad_stats dash) = length (filter c_isAvailable (cars d))"
      using b c by simp
  qed
  have hidden: "\<forall>c \<in> set (cars d). \<not> c_isAvailable c
                  \<longrightarrow> c \<notin> set (map cr_car (getAllCars d))"
    by (simp add: rows)
  show ?thesis
    by (intro conjI rows annotated listing admin hidden)
qed

theorem C10_getAllCars_witness:
  "map (\<lambda>car. c_id (cr_car car)) (getAllCars demo_db) = [''c1'']
   \<and> map cr_reviewCount (getAllCars demo_db) = [3]
   \<and> map cr_averageRating (getAllCars demo_db) = [4]
   \<and> mkCar ''c2'' ''o1'' False \<in> set (cars demo_db)
   \<and> mkCar ''c2'' ''o1'' False \<notin> set (map cr_car (getAllCars demo_db))
   \<and> (\<exists>listed. get_api_cars id (\<lambda>s. NaN)
                   \<lparr>q_search = None, q_minPrice = None, q_maxPrice = None, q_brands = None,
                    q_carTypes = None, q_transmission = None\<rparr> demo_db = Json listed
          \<and> set listed \<subseteq> set (getAllCars demo_db))
   \<and> (\<exists>dash. get_api_admin_dashboard ''a1'' demo_db = Json dash
          \<and> as_totalCars (ad_stats dash) = 1)
   \<and> length (cars demo_db) = 2"
proof -
  let ?q = "\<lparr>q_search = None, q_minPrice = None, q_maxPrice = None, q_brands = None,
        q_carTypes = None, q_transmission = None\<rparr>"
  note inst = C10_getAllCars [of demo_db id "\<lambda>s. NaN" ?q "''a1''"]
  note rows = inst [THEN conjunct1]
  note marks = inst [THEN conjunct2, THEN conjunct1]
  note listing = inst [THEN conjunct2, THEN conjunct2, THEN conjunct1, rule_format]
  note admin = inst [THEN conjunct2, THEN conjunct2, THEN conjunct2, THEN conjunct1, rule_format]
  note hidden = inst [THEN conjunct2, THEN conjunct2, THEN conjunct2, THEN conjunct2, rule_format]
  have avail: "filter c_isAvailable (cars demo_db) = [mkCar ''c1'' ''o1'' True]"
    by (simp add: demo_db_def mkCar_def)
  have "map (\<lambda>car. c_id (cr_car car)) (getAllCars demo_db)
        = map c_id (map cr_car (getAllCars demo_db))"
    by (simp add: comp_def)
  also have "\<dots> = [''c1'']"
    by (simp only: rows avail) (simp add: mkCar_def)
  finally have a: "map (\<lambda>car. c_id (cr_car car)) (getAllCars demo_db) = [''c1'']" .
  from rows avail obtain x where x: "getAllCars demo_db = [x]" "cr_car x = mkCar ''c1'' ''o1'' True"
    by auto
  from marks x have "cr_reviewCount x = length (ratingsOf demo_db (c_id (mkCar ''c1'' ''o1'' True)))"
    by simp
  also have "\<dots> = 3"
    by (simp add: ratingsOf_def demo_db_def mkCar_def mkReview_def)
  finally have n: "map cr_reviewCount (getAllCars demo_db) = [3]"
    using x by simp
  have ratings: "ratingsOf demo_db (c_id (mkCar ''c1'' ''o1'' True)) = [5, 3, 4]"
    by (simp add: ratingsOf_def demo_db_def mkCar_def mkReview_def)
  from marks x
  have "sum_list (map abs (ratingsOf demo_db (c_id (mkCar ''c1'' ''o1'' True)))) < 2 ^ 53
          \<longrightarrow> cr_averageRating x
                = binary64 (arithmetic_mean (ratingsOf demo_db (c_id (mkCar ''c1'' ''o1'' True))))"
    by simp
  then have "cr_averageRating x = binary64 (arithmetic_mean [5, 3, 4])"
    by (simp add: ratings)
  also have "\<dots> = of_int 4"
    by (rule arithmetic_mean_whole) (simp_all add: arithmetic_mean_def)
  finally have m: "map cr_averageRating (getAllCars demo_db) = [4]"
    using x by simp
  have b: "mkCar ''c2'' ''o1'' False \<in> set (cars demo_db)"
    by (simp add: demo_db_def)
  have off: "\<not> c_isAvailable (mkCar ''c2'' ''o1'' False)"
    by (simp add: mkCar_def)
  have c: "mkCar ''c2'' ''o1'' False \<notin> set (map cr_car (getAllCars demo_db))"
    by (rule hidden [OF b off])
  have all: "get_api_cars id (\<lambda>s. NaN) ?q demo_db = Json (getAllCars demo_db)"
    by (rule get_api_cars_no_filter)
  from listing [OF all] all
  have l: "\<exists>listed. get_api_cars id (\<lambda>s. NaN) ?q demo_db = Json listed
          \<and> set listed \<subseteq> set (getAllCars demo_db)"
    by (intro exI [of _ "getAllCars demo_db"]) simp
  have a1: "getUser demo_db ''a1'' = Some (mkUser ''a1'' ''admin'')"
    by (simp add: getUser_def firstRow_def demo_db_def mkUser_def)
  from admin_dashboard_answers [OF a1] obtain ad
    where ad: "get_api_admin_dashboard ''a1'' demo_db = Json ad"
    by (auto simp: mkUser_def)
  have "as_totalCars (ad_stats ad) = 1"
    using admin [OF ad] by (simp add: avail)
  with ad have e: "\<exists>dash. get_api_admin_dashboard ''a1'' demo_db = Json dash
          \<and> as_totalCars (ad_stats dash) = 1"
    by (intro exI conjI)
  have f: "length (cars demo_db) = 2"
    by (simp add: demo_db_def)
  show ?thesis
    by (intro conjI a n m b c l e f)
qed

subsection \<open>Creating a booking\<close>

lemma filter_key_absent: "x \<notin> set (map f xs) \<Longrightarrow> filter (\<lambda>p. f p = x) xs = []"
  by (induction xs) auto

lemma createBooking_Inr:
  "createBooking uuid now bookingData d = Inr (booking, d1) \<longleftrightarrow>
     (\<exists>fitted. fitInsertBooking bookingData = Inr fitted
        \<and> uuid \<notin> set (map b_id (bookings d))
        \<and> ib_carId fitted \<in> set (map c_id (cars d))
        \<and> ib_userId fitted \<in> set (map u_id (users d))
        \<and> booking = \<lparr>b_id = uuid,
                       b_carId = ib_carId fitted,
                       b_userId = ib_userId fitted,
                       b_startDate = ib_startDate fitted,
                       b_endDate = ib_endDate fitted,
                       b_totalCost = ib_totalCost fitted,
                       b_status = setColumn (ib_status fitted) ''pending'',
                       b_paymentStatus = setColumn (ib_paymentStatus fitted) ''pending'',
                       b_createdAt = now,
                       b_updatedAt = now\<rparr>
        \<and> d1 = d\<lparr>bookings := bookings d @ [booking]\<rparr>)"
  unfolding createBooking_def Let_def
  by (cases "fitInsertBooking bookingData"; cases "uuid \<in> set (map b_id (bookings d))") auto

lemma createPayment_Inr:
  "createPayment uuid now paymentData d = Inr (payment, d2) \<longleftrightarrow>
     (\<exists>fitted. fitInsertPayment paymentData = Inr fitted
        \<and> uuid \<notin> set (map p_id (payments d))
        \<and> ip_bookingId fitted \<notin> set (map p_bookingId (payments d))
        \<and> ip_bookingId fitted \<in> set (map b_id (bookings d))
        \<and> payment = \<lparr>p_id = uuid,
                       p_bookingId = ip_bookingId fitted,
                       p_amount = ip_amount fitted,
                       p_currency = setColumn (ip_currency fitted) ''INR'',
                       p_razorpayOrderId = ip_razorpayOrderId fitted,
                       p_razorpayPaymentId = ip_razorpayPaymentId fitted,
                       p_status = setColumn (ip_status fitted) ''pending'',
                       p_createdAt = now,
                       p_updatedAt = now\<rparr>
        \<and> d2 = d\<lparr>payments := payments d @ [payment]\<rparr>)"
  unfolding createPayment_def Let_def
  by (cases "fitInsertPayment paymentData";
      cases "uuid \<in> set (map p_id (payments d))
             \<or> ip_bookingId (projr (fitInsertPayment paymentData))
                  \<in> set (map p_bookingId (payments d))") auto

text \<open>What every successful insert has done.\<close>

lemma createBooking_row:
  assumes "createBooking uuid now bookingData d = Inr (booking, d1)"
  shows "b_id booking = uuid" and "uuid \<notin> set (map b_id (bookings d))"
    and "b_carId booking = ib_carId bookingData"
    and "ib_carId bookingData \<in> set (map c_id (cars d))"
    and "d1 = d\<lparr>bookings := bookings d @ [booking]\<rparr>"
proof -
  from assms obtain fitted where fit: "fitInsertBooking bookingData = Inr fitted"
    and rest: "uuid \<notin> set (map b_id (bookings d))"
      "ib_carId fitted \<in> set (map c_id (cars d))"
      "ib_userId fitted \<in> set (map u_id (users d))"
      "b_id booking = uuid" "b_carId booking = ib_carId fitted"
      "b_userId booking = ib_userId fitted"
      "d1 = d\<lparr>bookings := bookings d @ [booking]\<rparr>"
    unfolding createBooking_Inr by auto
  from fitInsertBooking_references [OF fit] rest
  show "b_id booking = uuid" and "uuid \<notin> set (map b_id (bookings d))"
    and "b_carId booking = ib_carId bookingData"
    and "ib_carId bookingData \<in> set (map c_id (cars d))"
    and "d1 = d\<lparr>bookings := bookings d @ [booking]\<rparr>"
    by simp_all
qed

lemma createPayment_row:
  assumes "createPayment uuid now paymentData d = Inr (payment, d2)"
  shows "p_id payment = uuid" and "uuid \<notin> set (map p_id (payments d))"
    and "p_bookingId payment = ip_bookingId paymentData"
    and "ip_bookingId paymentData \<notin> set (map p_bookingId (payments d))"
    and "ip_bookingId paymentData \<in> set (map b_id (bookings d))"
    and "d2 = d\<lparr>payments := payments d @ [payment]\<rparr>"
proof -
  from assms obtain fitted where fit: "fitInsertPayment paymentData = Inr fitted"
    and rest: "uuid \<notin> set (map p_id (payments d))"
      "ip_bookingId fitted \<notin> set (map p_bookingId (payments d))"
      "ip_bookingId fitted \<in> set (map b_id (bookings d))"
      "p_id payment = uuid" "p_bookingId payment = ip_bookingId fitted"
      "d2 = d\<lparr>payments := payments d @ [payment]\<rparr>"
    unfolding createPayment_Inr by auto
  from fitInsertPayment_references [OF fit] rest
  show "p_id payment = uuid" and "uuid \<notin> set (map p_id (payments d))"
    and "p_bookingId payment = ip_bookingId paymentData"
    and "ip_bookingId paymentData \<notin> set (map p_bookingId (payments d))"
    and "ip_bookingId paymentData \<in> set (map b_id (bookings d))"
    and "d2 = d\<lparr>payments := payments d @ [payment]\<rparr>"
    by simp_all
qed

text \<open>The two inserts of a booking request.\<close>

lemma createBooking_post:
  "createBooking (e_bookingUuid env) (e_bookingNow env) (bookingDataOf env body) d
     = Inr (booking, d1) \<longleftrightarrow>
     \<bar>round2 (bb_totalCost body)\<bar> < 100000000
     \<and> e_bookingUuid env \<notin> set (map b_id (bookings d))
     \<and> bb_carId body \<in> set (map c_id (cars d))
     \<and> e_userId env \<in> set (map u_id (users d))
     \<and> booking = \<lparr>b_id = e_bookingUuid env, b_carId = bb_carId body,
                    b_userId = e_userId env, b_startDate = bb_startDate body,
                    b_endDate = bb_endDate body, b_totalCost = round2 (bb_totalCost body),
                    b_status = ''pending'', b_paymentStatus = ''pending'',
                    b_createdAt = e_bookingNow env, b_updatedAt = e_bookingNow env\<rparr>
     \<and> d1 = d\<lparr>bookings := bookings d @ [booking]\<rparr>"
  unfolding createBooking_Inr fitInsertBooking_bookingDataOf
  by (auto simp: bookingDataOf_def setColumn_def)

lemma createPayment_post:
  "createPayment (e_paymentUuid env) (e_paymentNow env) (paymentDataOf body booking) d
     = Inr (payment, d2) \<longleftrightarrow>
     \<bar>round2 (bb_totalCost body)\<bar> < 100000000
     \<and> e_paymentUuid env \<notin> set (map p_id (payments d))
     \<and> b_id booking \<notin> set (map p_bookingId (payments d))
     \<and> b_id booking \<in> set (map b_id (bookings d))
     \<and> payment = \<lparr>p_id = e_paymentUuid env, p_bookingId = b_id booking,
                    p_amount = round2 (bb_totalCost body), p_currency = ''INR'',
                    p_razorpayOrderId = None, p_razorpayPaymentId = None,
                    p_status = ''pending'', p_createdAt = e_paymentNow env,
                    p_updatedAt = e_paymentNow env\<rparr>
     \<and> d2 = d\<lparr>payments := payments d @ [payment]\<rparr>"
  unfolding createPayment_Inr fitInsertPayment_paymentDataOf
  by (auto simp: paymentDataOf_def setColumn_def)

lemma createBooking_overflow:
  "\<not> \<bar>round2 (bb_totalCost body)\<bar> < 100000000 \<Longrightarrow>
     createBooking (e_bookingUuid env) (e_bookingNow env) (bookingDataOf env body) d
       = Inl NumericOverflow"
  by (simp add: createBooking_def fitInsertBooking_bookingDataOf)

lemma post_unavailable:
  "\<not> checkAvailability d (bb_carId body) (bb_startDate body) (bb_endDate body) \<Longrightarrow>
     post_api_bookings env body d
       = (Status 400 (Message ''Car is not available for the selected dates''), d)"
  by (simp add: post_api_bookings_def)

lemma post_success:
  assumes "post_api_bookings env body d = (Json booking, d')"
  shows "checkAvailability d (bb_carId body) (bb_startDate body) (bb_endDate body)
         \<and> createBooking (e_bookingUuid env) (e_bookingNow env) (bookingDataOf env body) d
             = Inr (booking, d\<lparr>bookings := bookings d @ [booking]\<rparr>)
         \<and> (\<exists>payment.
               createPayment (e_paymentUuid env) (e_paymentNow env) (paymentDataOf body booking)
                  (d\<lparr>bookings := bookings d @ [booking]\<rparr>) = Inr (payment, d'))"
proof -
  from assms have avail: "checkAvailability d (bb_carId body) (bb_startDate body) (bb_endDate body)"
    by (auto simp: post_api_bookings_def Let_def split: if_splits)
  with assms obtain b d1 where
    cb: "createBooking (e_bookingUuid env) (e_bookingNow env) (bookingDataOf env body) d = Inr (b, d1)"
    by (auto simp: post_api_bookings_def Let_def split: sum.splits)
  with assms avail obtain p d2 where
    cp: "createPayment (e_paymentUuid env) (e_paymentNow env) (paymentDataOf body b) d1 = Inr (p, d2)"
    by (auto simp: post_api_bookings_def Let_def split: sum.splits)
  from assms avail cb cp have eq: "b = booking" "d2 = d'"
    by (simp_all add: post_api_bookings_def Let_def)
  note d1 = createBooking_row(5) [OF cb]
  from avail cb cp eq d1 show ?thesis by auto
qed

lemma post_accepted:
  assumes "checkAvailability d (bb_carId body) (bb_startDate body) (bb_endDate body)"
      and "\<bar>round2 (bb_totalCost body)\<bar> < 100000000"
      and "bb_carId body \<in> set (map c_id (cars d))"
      and "e_userId env \<in> set (map u_id (users d))"
      and "e_bookingUuid env \<notin> set (map b_id (bookings d))"
      and "e_paymentUuid env \<notin> set (map p_id (payments d))"
      and "e_bookingUuid env \<notin> set (map p_bookingId (payments d))"
  shows "\<exists>booking d'. post_api_bookings env body d = (Json booking, d')"
proof -
  from assms(2-5) obtain b d1 where
    cb: "createBooking (e_bookingUuid env) (e_bookingNow env) (bookingDataOf env body) d = Inr (b, d1)"
    by (simp add: createBooking_post)
  then have b: "b_id b = e_bookingUuid env" and d1: "d1 = d\<lparr>bookings := bookings d @ [b]\<rparr>"
    by (simp_all add: createBooking_post)
  from assms(2,6,7) b d1 obtain p d2 where
    cp: "createPayment (e_paymentUuid env) (e_paymentNow env) (paymentDataOf body b) d1 = Inr (p, d2)"
    by (simp add: createPayment_post)
  from assms(1) cb cp show ?thesis
    by (simp add: post_api_bookings_def Let_def)
qed

lemma createBooking_payments:
  assumes "createBooking uuid now bookingData d = Inr (booking, d1)"
  shows "payments d1 = payments d"
proof -
  from createBooking_row(5) [OF assms] show ?thesis by simp
qed

lemma post_failure:
  assumes "post_api_bookings env body d = (Status code failure, d')"
  shows "code = 400 \<and> payments d' = payments d"
  using assms
  by (auto simp: post_api_bookings_def Let_def createBooking_payments
        split: if_splits sum.splits)

lemma post_overflow:
  assumes "checkAvailability d (bb_carId body) (bb_startDate body) (bb_endDate body)"
      and "\<not> \<bar>round2 (bb_totalCost body)\<bar> < 100000000"
  shows "post_api_bookings env body d = (Status 400 (ErrorMessage NumericOverflow), d)"
  using assms(1) createBooking_overflow [OF assms(2), of env d]
  by (simp add: post_api_bookings_def)

text \<open>
  Claim C2, as the code has it. A booking request whose availability check answers
  false is rejected with status 400 and the database is left as it was: no booking,
  no payment. A request that succeeds passed the check, and has inserted one
  booking, with the generated identifier (which no booking had), \<open>status\<close> and
  \<open>paymentStatus\<close> both \<open>pending\<close>, and the caller's \<open>totalCost\<close> as the \<open>decimal(10,2)\<close>
  column takes it: rounded to two digits after the point (so as given, when it has
  no more), of less than \<open>10 ^ 8\<close> in magnitude, and never recomputed; and then one
  payment for that booking, of the same amount, in \<open>INR\<close>, \<open>pending\<close>: the booking's
  only payment. A request that passes the check succeeds when the store accepts
  both inserts: the rounded \<open>totalCost\<close> is less than \<open>10 ^ 8\<close> in magnitude, the car
  and the caller exist and the generated identifiers are unused. A larger
  \<open>totalCost\<close> is answered with status 400 and nothing is written. Every other answer
  is a 400 too and no payment is created.
\<close>

theorem C2_post_api_bookings:
  "(\<not> checkAvailability d (bb_carId body) (bb_startDate body) (bb_endDate body)
      \<longrightarrow> post_api_bookings env body d
            = (Status 400 (Message ''Car is not available for the selected dates''), d))
   \<and> (\<forall>booking d'. post_api_bookings env body d = (Json booking, d') \<longrightarrow>
         checkAvailability d (bb_carId body) (bb_startDate body) (bb_endDate body)
         \<and> \<bar>round2 (bb_totalCost body)\<bar> < 100000000
         \<and> booking = \<lparr>b_id = e_bookingUuid env, b_carId = bb_carId body,
                        b_userId = e_userId env, b_startDate = bb_startDate body,
                        b_endDate = bb_endDate body, b_totalCost = round2 (bb_totalCost body),
                        b_status = ''pending'', b_paymentStatus = ''pending'',
                        b_createdAt = e_bookingNow env, b_updatedAt = e_bookingNow env\<rparr>
         \<and> (bb_totalCost body * 100 \<in> \<int> \<longrightarrow> b_totalCost booking = bb_totalCost body)
         \<and> b_id booking \<notin> set (map b_id (bookings d))
         \<and> d' = d\<lparr>bookings := bookings d @ [booking],
                   payments := payments d @
                     [\<lparr>p_id = e_paymentUuid env, p_bookingId = b_id booking,
                       p_amount = round2 (bb_totalCost body), p_currency = ''INR'',
                       p_razorpayOrderId = None, p_razorpayPaymentId = None,
                       p_status = ''pending'', p_createdAt = e_paymentNow env,
                       p_updatedAt = e_paymentNow env\<rparr>]\<rparr>
         \<and> length (paymentsOf d' (b_id booking)) = 1)
   \<and> (checkAvailability d (bb_carId body) (bb_startDate body) (bb_endDate body)
        \<and> \<bar>round2 (bb_totalCost body)\<bar> < 100000000
        \<and> bb_carId body \<in> set (map c_id (cars d))
        \<and> e_userId env \<in> set (map u_id (users d))
        \<and> e_bookingUuid env \<notin> set (map b_id (bookings d))
        \<and> e_paymentUuid env \<notin> set (map p_id (payments d))
        \<and> e_bookingUuid env \<notin> set (map p_bookingId (payments d))
       \<longrightarrow> (\<exists>booking d'. post_api_bookings env body d = (Json booking, d')))
   \<and> (checkAvailability d (bb_carId body) (bb_startDate body) (bb_endDate body)
        \<and> \<not> \<bar>round2 (bb_totalCost body)\<bar> < 100000000
       \<longrightarrow> post_api_bookings env body d = (Status 400 (ErrorMessage NumericOverflow), d))
   \<and> (\<forall>code failure d'. post_api_bookings env body d = (Status code failure, d')
         \<longrightarrow> code = 400 \<and> payments d' = payments d)"
proof -
  have rejected: "\<not> checkAvailability d (bb_carId body) (bb_startDate body) (bb_endDate body)
      \<longrightarrow> post_api_bookings env body d
            = (Status 400 (Message ''Car is not available for the selected dates''), d)"
    by (simp add: post_unavailable)
  have created: "\<forall>booking d'. post_api_bookings env body d = (Json booking, d') \<longrightarrow>
         checkAvailability d (bb_carId body) (bb_startDate body) (bb_endDate body)
         \<and> \<bar>round2 (bb_totalCost body)\<bar> < 100000000
         \<and> booking = \<lparr>b_id = e_bookingUuid env, b_carId = bb_carId body,
                        b_userId = e_userId env, b_startDate = bb_startDate body,
                        b_endDate = bb_endDate body, b_totalCost = round2 (bb_totalCost body),
                        b_status = ''pending'', b_paymentStatus = ''pending'',
                        b_createdAt = e_bookingNow env, b_updatedAt = e_bookingNow env\<rparr>
         \<and> (bb_totalCost body * 100 \<in> \<int> \<longrightarrow> b_totalCost booking = bb_totalCost body)
         \<and> b_id booking \<notin> set (map b_id (bookings d))
         \<and> d' = d\<lparr>bookings := bookings d @ [booking],
                   payments := payments d @
                     [\<lparr>p_id = e_paymentUuid env, p_bookingId = b_id booking,
                       p_amount = round2 (bb_totalCost body), p_currency = ''INR'',
                       p_razorpayOrderId = None, p_razorpayPaymentId = None,
                       p_status = ''pending'', p_createdAt = e_paymentNow env,
                       p_updatedAt = e_paymentNow env\<rparr>]\<rparr>
         \<and> length (paymentsOf d' (b_id booking)) = 1"
  proof (intro allI impI)
    fix booking d'
    assume ok: "post_api_bookings env body d = (Json booking, d')"
    note facts = post_success [OF ok]
    from facts have avail:
      "checkAvailability d (bb_carId body) (bb_startDate body) (bb_endDate body)"
      by simp
    from facts have
      cb: "createBooking (e_bookingUuid env) (e_bookingNow env) (bookingDataOf env body) d
             = Inr (booking, d\<lparr>bookings := bookings d @ [booking]\<rparr>)"
      by simp
    from facts obtain payment where
      cp: "createPayment (e_paymentUuid env) (e_paymentNow env) (paymentDataOf body booking)
                  (d\<lparr>bookings := bookings d @ [booking]\<rparr>) = Inr (payment, d')"
      by blast
    from cb have range: "\<bar>round2 (bb_totalCost body)\<bar> < 100000000"
      and row: "booking = \<lparr>b_id = e_bookingUuid env, b_carId = bb_carId body,
                        b_userId = e_userId env, b_startDate = bb_startDate body,
                        b_endDate = bb_endDate body, b_totalCost = round2 (bb_totalCost body),
                        b_status = ''pending'', b_paymentStatus = ''pending'',
                        b_createdAt = e_bookingNow env, b_updatedAt = e_bookingNow env\<rparr>"
      and fresh: "e_bookingUuid env \<notin> set (map b_id (bookings d))"
      unfolding createBooking_post by simp_all
    from row have bid: "b_id booking = e_bookingUuid env"
      and cost: "b_totalCost booking = round2 (bb_totalCost body)"
      by simp_all
    from cost have given: "bb_totalCost body * 100 \<in> \<int> \<longrightarrow> b_totalCost booking = bb_totalCost body"
      by (simp add: round2_exact)
    from cp have unused: "b_id booking \<notin> set (map p_bookingId (payments d))"
      and after: "d' = d\<lparr>bookings := bookings d @ [booking],
                   payments := payments d @
                     [\<lparr>p_id = e_paymentUuid env, p_bookingId = b_id booking,
                       p_amount = round2 (bb_totalCost body), p_currency = ''INR'',
                       p_razorpayOrderId = None, p_razorpayPaymentId = None,
                       p_status = ''pending'', p_createdAt = e_paymentNow env,
                       p_updatedAt = e_paymentNow env\<rparr>]\<rparr>"
      unfolding createPayment_post by simp_all
    from unused have "filter (\<lambda>p. p_bookingId p = b_id booking) (payments d) = []"
      by (rule filter_key_absent)
    with after have one: "length (paymentsOf d' (b_id booking)) = 1"
      by (simp add: paymentsOf_def)
    from fresh bid have fresh': "b_id booking \<notin> set (map b_id (bookings d))"
      by simp
    show "checkAvailability d (bb_carId body) (bb_startDate body) (bb_endDate body)
         \<and> \<bar>round2 (bb_totalCost body)\<bar> < 100000000
         \<and> booking = \<lparr>b_id = e_bookingUuid env, b_carId = bb_carId body,
                        b_userId = e_userId env, b_startDate = bb_startDate body,
                        b_endDate = bb_endDate body, b_totalCost = round2 (bb_totalCost body),
                        b_status = ''pending'', b_paymentStatus = ''pending'',
                        b_createdAt = e_bookingNow env, b_updatedAt = e_bookingNow env\<rparr>
         \<and> (bb_totalCost body * 100 \<in> \<int> \<longrightarrow> b_totalCost booking = bb_totalCost body)
         \<and> b_id booking \<notin> set (map b_id (bookings d))
         \<and> d' = d\<lparr>bookings := bookings d @ [booking],
                   payments := payments d @
                     [\<lparr>p_id = e_paymentUuid env, p_bookingId = b_id booking,
                       p_amount = round2 (bb_totalCost body), p_currency = ''INR'',
                       p_razorpayOrderId = None, p_razorpayPaymentId = None,
                       p_status = ''pending'', p_createdAt = e_paymentNow env,
                       p_updatedAt = e_paymentNow env\<rparr>]\<rparr>
         \<and> length (paymentsOf d' (b_id booking)) = 1"
      by (intro conjI avail range row given fresh' after one)
  qed
  have accepted: "checkAvailability d (bb_carId body) (bb_startDate body) (bb_endDate body)
        \<and> \<bar>round2 (bb_totalCost body)\<bar> < 100000000
        \<and> bb_carId body \<in> set (map c_id (cars d))
        \<and> e_userId env \<in> set (map u_id (users d))
        \<and> e_bookingUuid env \<notin> set (map b_id (bookings d))
        \<and> e_paymentUuid env \<notin> set (map p_id (payments d))
        \<and> e_bookingUuid env \<notin> set (map p_bookingId (payments d))
       \<longrightarrow> (\<exists>booking d'. post_api_bookings env body d = (Json booking, d'))"
    using post_accepted [of d body env] by simp
  have overflow: "checkAvailability d (bb_carId body) (bb_startDate body) (bb_endDate body)
        \<and> \<not> \<bar>round2 (bb_totalCost body)\<bar> < 100000000
       \<longrightarrow> post_api_bookings env body d = (Status 400 (ErrorMessage NumericOverflow), d)"
    using post_overflow [of d body env] by simp
  have failed: "\<forall>code failure d'. post_api_bookings env body d = (Status code failure, d')
         \<longrightarrow> code = 400 \<and> payments d' = payments d"
    using post_failure by simp
  show ?thesis
    by (intro conjI rejected created accepted overflow failed)
qed

theorem C2_post_api_bookings_witness:
  "post_api_bookings (demo_env ''b2'' ''p2'') (demo_body ''c1'' (june 5) (june 7)) demo_db
     = (Status 400 (Message ''Car is not available for the selected dates''), demo_db)
   \<and> (\<exists>booking d'.
         post_api_bookings (demo_env ''b2'' ''p2'') (demo_body ''c1'' (june 10) (june 12)) demo_db
           = (Json booking, d')
         \<and> b_status booking = ''pending'' \<and> b_paymentStatus booking = ''pending''
         \<and> b_totalCost booking = 3000
         \<and> map b_id (bookings d') = [''b1'', ''b2'']
         \<and> map p_bookingId (payments d') = [''b1'', ''b2'']
         \<and> map p_amount (payments d') = [6000, 3000])
   \<and> (\<exists>booking d'.
         post_api_bookings (demo_env ''b2'' ''p2'')
            ((demo_body ''c1'' (june 10) (june 12))\<lparr>bb_totalCost := 3000555 / 1000\<rparr>) demo_db
           = (Json booking, d')
         \<and> b_totalCost booking = 300056 / 100
         \<and> map p_amount (payments d') = [6000, 300056 / 100])
   \<and> post_api_bookings (demo_env ''b2'' ''p2'')
        ((demo_body ''c1'' (june 10) (june 12))\<lparr>bb_totalCost := 100000000\<rparr>) demo_db
       = (Status 400 (ErrorMessage NumericOverflow), demo_db)"
proof -
  let ?env = "demo_env ''b2'' ''p2''"
  let ?taken = "demo_body ''c1'' (june 5) (june 7)"
  let ?free = "demo_body ''c1'' (june 10) (june 12)"
  let ?fine = "?free\<lparr>bb_totalCost := 3000555 / 1000\<rparr>"
  let ?huge = "?free\<lparr>bb_totalCost := 100000000\<rparr>"
  have whole: "round2 3000 = 3000" and huge: "round2 100000000 = 100000000"
    by (rule round2_exact, simp)+
  have fine: "round2 (3000555 / 1000) = 300056 / 100"
    by (simp add: round2_def)
  have busy: "\<not> checkAvailability demo_db (bb_carId ?taken) (bb_startDate ?taken)
                  (bb_endDate ?taken)"
    by (simp add: checkAvailability_iff demo_db_def demo_body_def mkBooking_def june_def)
  have a: "post_api_bookings ?env ?taken demo_db
             = (Status 400 (Message ''Car is not available for the selected dates''), demo_db)"
    using C2_post_api_bookings [of demo_db ?taken ?env, THEN conjunct1, rule_format, OF busy] .
  have pre: "checkAvailability demo_db (bb_carId ?free) (bb_startDate ?free) (bb_endDate ?free)
        \<and> \<bar>round2 (bb_totalCost ?free)\<bar> < 100000000
        \<and> bb_carId ?free \<in> set (map c_id (cars demo_db))
        \<and> e_userId ?env \<in> set (map u_id (users demo_db))
        \<and> e_bookingUuid ?env \<notin> set (map b_id (bookings demo_db))
        \<and> e_paymentUuid ?env \<notin> set (map p_id (payments demo_db))
        \<and> e_bookingUuid ?env \<notin> set (map p_bookingId (payments demo_db))"
    by (simp add: checkAvailability_iff demo_db_def demo_body_def demo_env_def mkBooking_def
          mkCar_def mkUser_def mkPayment_def june_def whole)
  have given: "bb_totalCost ?fine = 3000555 / 1000"
    by simp
  have range2: "\<bar>round2 (bb_totalCost ?fine)\<bar> < 100000000"
    unfolding given fine by simp
  have pre2: "checkAvailability demo_db (bb_carId ?fine) (bb_startDate ?fine) (bb_endDate ?fine)
        \<and> \<bar>round2 (bb_totalCost ?fine)\<bar> < 100000000
        \<and> bb_carId ?fine \<in> set (map c_id (cars demo_db))
        \<and> e_userId ?env \<in> set (map u_id (users demo_db))
        \<and> e_bookingUuid ?env \<notin> set (map b_id (bookings demo_db))
        \<and> e_paymentUuid ?env \<notin> set (map p_id (payments demo_db))
        \<and> e_bookingUuid ?env \<notin> set (map p_bookingId (payments demo_db))"
    by (intro conjI range2)
       (simp_all add: checkAvailability_iff demo_db_def demo_body_def demo_env_def mkBooking_def
          mkCar_def mkUser_def mkPayment_def june_def)
  note inst = C2_post_api_bookings [of demo_db ?free ?env]
  from inst [THEN conjunct2, THEN conjunct2, THEN conjunct1, rule_format, OF pre]
  obtain booking d' where ok: "post_api_bookings ?env ?free demo_db = (Json booking, d')"
    by blast
  note got = inst [THEN conjunct2, THEN conjunct1, rule_format, OF ok]
  from got have row: "b_status booking = ''pending'' \<and> b_paymentStatus booking = ''pending''
         \<and> b_totalCost booking = 3000 \<and> b_id booking = ''b2''"
    by (simp add: demo_body_def demo_env_def whole)
  from got have d': "bookings d' = bookings demo_db @ [booking]"
    "map p_bookingId (payments d') = map p_bookingId (payments demo_db) @ [b_id booking]"
    "map p_amount (payments d') = map p_amount (payments demo_db) @ [round2 (bb_totalCost ?free)]"
    by simp_all
  from d' row have tables: "map b_id (bookings d') = [''b1'', ''b2'']
         \<and> map p_bookingId (payments d') = [''b1'', ''b2'']
         \<and> map p_amount (payments d') = [6000, 3000]"
    by (simp add: demo_db_def mkBooking_def mkPayment_def demo_body_def whole)
  from ok row tables have b: "\<exists>booking d'.
         post_api_bookings ?env ?free demo_db = (Json booking, d')
         \<and> b_status booking = ''pending'' \<and> b_paymentStatus booking = ''pending''
         \<and> b_totalCost booking = 3000
         \<and> map b_id (bookings d') = [''b1'', ''b2'']
         \<and> map p_bookingId (payments d') = [''b1'', ''b2'']
         \<and> map p_amount (payments d') = [6000, 3000]"
    by (intro exI [of _ booking] exI [of _ d']) simp
  note inst2 = C2_post_api_bookings [of demo_db ?fine ?env]
  from inst2 [THEN conjunct2, THEN conjunct2, THEN conjunct1, rule_format, OF pre2]
  obtain booking2 d2 where ok2: "post_api_bookings ?env ?fine demo_db = (Json booking2, d2)"
    by blast
  note got2 = inst2 [THEN conjunct2, THEN conjunct1, rule_format, OF ok2]
  from got2 have "b_totalCost booking2 = round2 (bb_totalCost ?fine)"
    by (simp del: BookingBody.simps)
  then have cost2: "b_totalCost booking2 = 300056 / 100"
    by (simp only: given fine)
  from got2
  have "map p_amount (payments d2) = map p_amount (payments demo_db) @ [round2 (bb_totalCost ?fine)]"
    by (simp del: BookingBody.simps)
  then have "map p_amount (payments d2) = map p_amount (payments demo_db) @ [300056 / 100]"
    by (simp only: given fine)
  then have paid2: "map p_amount (payments d2) = [6000, 300056 / 100]"
    by (simp add: demo_db_def mkPayment_def)
  from ok2 cost2 paid2 have c: "\<exists>booking d'.
         post_api_bookings ?env ?fine demo_db = (Json booking, d')
         \<and> b_totalCost booking = 300056 / 100
         \<and> map p_amount (payments d') = [6000, 300056 / 100]"
    by (intro exI [of _ booking2] exI [of _ d2]) simp
  have over: "checkAvailability demo_db (bb_carId ?huge) (bb_startDate ?huge) (bb_endDate ?huge)
        \<and> \<not> \<bar>round2 (bb_totalCost ?huge)\<bar> < 100000000"
    by (simp add: checkAvailability_iff demo_db_def demo_body_def mkBooking_def june_def huge)
  have e: "post_api_bookings ?env ?huge demo_db
             = (Status 400 (ErrorMessage NumericOverflow), demo_db)"
    using C2_post_api_bookings [of demo_db ?huge ?env, THEN conjunct2, THEN conjunct2,
            THEN conjunct2, THEN conjunct1, rule_format, OF over] .
  show ?thesis
    by (intro conjI a b c e)
qed

text \<open>
  Passing the check is not enough: the check also passes for a car that does not
  exist, and the insert then fails on the foreign key of \<open>bookings.carId\<close>.
\<close>

theorem C2_counterexample:
  "checkAvailability demo_db ''c9'' (june 10) (june 12)
   \<and> post_api_bookings (demo_env ''b2'' ''p2'') (demo_body ''c9'' (june 10) (june 12)) demo_db
       = (Status 400 (ErrorMessage ForeignKeyViolation), demo_db)"
proof -
  have whole: "round2 3000 = 3000"
    by (rule round2_exact) simp
  have fit: "fitInsertBooking (bookingDataOf (demo_env ''b2'' ''p2'')
                 (demo_body ''c9'' (june 10) (june 12)))
             = Inr ((bookingDataOf (demo_env ''b2'' ''p2'')
                      (demo_body ''c9'' (june 10) (june 12)))\<lparr>ib_totalCost := 3000\<rparr>)"
    by (simp add: fitInsertBooking_bookingDataOf demo_body_def whole)
  show ?thesis
    unfolding post_api_bookings_def createBooking_def fit
    by (simp add: checkAvailability_iff bookingDataOf_def Let_def demo_db_def demo_body_def
          demo_env_def mkBooking_def mkCar_def mkUser_def)
qed

subsection \<open>A booking and its payment\<close>

lemma b_id_applyPartialBooking: "b_id (applyPartialBooking now bookingData b) = b_id b"
  by (simp add: applyPartialBooking_def)

lemma p_id_applyPartialPayment: "p_id (applyPartialPayment now paymentData p) = p_id p"
  by (simp add: applyPartialPayment_def)

lemma p_bookingId_applyPartialPayment:
  "p_bookingId (applyPartialPayment now paymentData p)
     = setColumn (pp_bookingId paymentData) (p_bookingId p)"
  by (simp add: applyPartialPayment_def)

lemma updateBooking_Inr:
  "updateBooking now bid bookingData d = Inr (row, d') \<Longrightarrow>
     map b_id (bookings d') = map b_id (bookings d) \<and> payments d' = payments d
     \<and> users d' = users d \<and> cars d' = cars d \<and> reviews d' = reviews d"
  unfolding updateBooking_def Let_def
  by (auto simp: b_id_applyPartialBooking comp_def split: if_splits sum.splits
        intro!: map_cong [OF refl])

lemma distinct_overwrite:
  assumes "distinct (map f ps)"
      and "v \<notin> set (map f (filter (\<lambda>p. \<not> Q p) ps))"
      and "length (filter Q ps) \<le> 1"
  shows "distinct (map (\<lambda>p. if Q p then v else f p) ps)"
  using assms
proof (induction ps)
  case Nil
  then show ?case by simp
next
  case (Cons p ps)
  show ?case
  proof (cases "Q p")
    case True
    with Cons.prems(3) have none: "filter Q ps = []" by simp
    then have allnot: "\<forall>q \<in> set ps. \<not> Q q"
      by (simp add: filter_empty_conv)
    then have same: "map (\<lambda>p. if Q p then v else f p) ps = map f ps"
      by (intro map_cong [OF refl]) simp
    from allnot have "filter (\<lambda>p. \<not> Q p) ps = ps"
      by (simp add: filter_id_conv)
    with Cons.prems(2) True have "v \<notin> set (map f ps)"
      by simp
    moreover from Cons.prems(1) have "distinct (map f ps)"
      by simp
    ultimately show ?thesis
      using True by (simp add: same)
  next
    case False
    with Cons.prems have d: "distinct (map f ps)"
      and v: "v \<notin> set (map f (filter (\<lambda>p. \<not> Q p) ps))"
      and l: "length (filter Q ps) \<le> 1"
      and fp: "f p \<notin> set (map f ps)" and ne: "f p \<noteq> v"
      by auto
    from Cons.IH [OF d v l] have IH: "distinct (map (\<lambda>p. if Q p then v else f p) ps)" .
    from fp ne have "f p \<notin> set (map (\<lambda>p. if Q p then v else f p) ps)"
      by auto
    with IH False show ?thesis by simp
  qed
qed

lemma updatePayment_Inr:
  assumes "updatePayment now pid paymentData d = Inr (row, d')"
  shows "d' = d
         \<or> (\<exists>fitted. pp_bookingId fitted = pp_bookingId paymentData
            \<and> bookings d' = bookings d
            \<and> payments d' = map (\<lambda>p. if p_id p = pid then applyPartialPayment now fitted p
                                        else p) (payments d)
            \<and> (case pp_bookingId paymentData of
                  None \<Rightarrow> True
                | Some v \<Rightarrow> v \<notin> set (map p_bookingId (filter (\<lambda>p. p_id p \<noteq> pid) (payments d)))
                            \<and> length (filter (\<lambda>p. p_id p = pid) (payments d)) \<le> 1
                            \<and> v \<in> set (map b_id (bookings d))))"
proof (cases "fitPartialPayment paymentData")
  case (Inl error)
  with assms show ?thesis
    by (simp add: updatePayment_def)
next
  case (Inr fitted)
  note same = fitPartialPayment_references [OF Inr]
  from assms Inr have "d' = d
         \<or> (bookings d' = bookings d
            \<and> payments d' = map (\<lambda>p. if p_id p = pid then applyPartialPayment now fitted p
                                        else p) (payments d)
            \<and> (case pp_bookingId fitted of
                  None \<Rightarrow> True
                | Some v \<Rightarrow> v \<notin> set (map p_bookingId (filter (\<lambda>p. p_id p \<noteq> pid) (payments d)))
                            \<and> length (filter (\<lambda>p. p_id p = pid) (payments d)) \<le> 1
                            \<and> v \<in> set (map b_id (bookings d))))"
    unfolding updatePayment_def Let_def refMissing_def
    by (auto split: if_splits option.splits)
  with same show ?thesis
    by auto
qed

lemma updatePayment_constraints:
  assumes "updatePayment now pid paymentData d = Inr (row, d')"
      and "payments_constraints d"
  shows "payments_constraints d'"
proof (cases "d' = d")
  case True
  with assms(2) show ?thesis by simp
next
  case False
  with updatePayment_Inr [OF assms(1)] obtain fitted where
    same: "pp_bookingId fitted = pp_bookingId paymentData" and facts:
    "bookings d' = bookings d"
    "payments d' = map (\<lambda>p. if p_id p = pid then applyPartialPayment now fitted p
                                        else p) (payments d)"
    "case pp_bookingId paymentData of
                  None \<Rightarrow> True
                | Some v \<Rightarrow> v \<notin> set (map p_bookingId (filter (\<lambda>p. p_id p \<noteq> pid) (payments d)))
                            \<and> length (filter (\<lambda>p. p_id p = pid) (payments d)) \<le> 1
                            \<and> v \<in> set (map b_id (bookings d))"
    by auto
  show ?thesis
  proof (cases "pp_bookingId paymentData")
    case None
    with facts(2) same have "map p_bookingId (payments d') = map p_bookingId (payments d)"
      by (auto simp: p_bookingId_applyPartialPayment setColumn_def comp_def
            intro!: map_cong [OF refl])
    with assms(2) facts(1) show ?thesis
      by (simp add: payments_constraints_def)
  next
    case (Some v)
    with facts(3) have
      v: "v \<notin> set (map p_bookingId (filter (\<lambda>p. \<not> p_id p = pid) (payments d)))"
      and l: "length (filter (\<lambda>p. p_id p = pid) (payments d)) \<le> 1"
      and fk: "v \<in> set (map b_id (bookings d))"
      by simp_all
    from facts(2) Some same have ids: "map p_bookingId (payments d')
       = map (\<lambda>p. if p_id p = pid then v else p_bookingId p) (payments d)"
      by (auto simp: p_bookingId_applyPartialPayment setColumn_def comp_def
            intro!: map_cong [OF refl])
    from assms(2) have dist: "distinct (map p_bookingId (payments d))"
      and sub: "set (map p_bookingId (payments d)) \<subseteq> set (map b_id (bookings d))"
      by (simp_all add: payments_constraints_def)
    have a: "distinct (map p_bookingId (payments d'))"
      unfolding ids using dist v l by (rule distinct_overwrite)
    from sub fk have b: "set (map p_bookingId (payments d')) \<subseteq> set (map b_id (bookings d))"
      unfolding ids by auto
    from a b facts(1) show ?thesis
      by (simp add: payments_constraints_def)
  qed
qed

lemma updateBooking_constraints:
  assumes "updateBooking now bid bookingData d = Inr (row, d')"
      and "payments_constraints d"
  shows "payments_constraints d'"
  using updateBooking_Inr [OF assms(1)] assms(2)
  by (simp add: payments_constraints_def)

lemma deleteCar_constraints:
  assumes "payments_constraints d"
  shows "payments_constraints (deleteCar cid d)"
proof -
  from assms have dist: "distinct (map p_bookingId (payments d))"
    and sub: "set (map p_bookingId (payments d)) \<subseteq> set (map b_id (bookings d))"
    by (simp_all add: payments_constraints_def)
  have a: "distinct (map p_bookingId (payments (deleteCar cid d)))"
    using dist by (simp add: deleteCar_def Let_def distinct_map_filter)
  have b: "set (map p_bookingId (payments (deleteCar cid d)))
             \<subseteq> set (map b_id (bookings (deleteCar cid d)))"
  proof
    fix x
    assume "x \<in> set (map p_bookingId (payments (deleteCar cid d)))"
    then obtain p where p: "p \<in> set (payments d)" "p_bookingId p = x"
      and keep: "x \<notin> set (map b_id (filter (\<lambda>b. b_carId b = cid) (bookings d)))"
      by (auto simp: deleteCar_def Let_def)
    from p sub obtain b where b: "b \<in> set (bookings d)" "b_id b = x"
      by auto
    with keep have "b_carId b \<noteq> cid"
      by auto
    with b show "x \<in> set (map b_id (bookings (deleteCar cid d)))"
      by (auto simp: deleteCar_def Let_def)
  qed
  from a b show ?thesis
    by (simp add: payments_constraints_def)
qed

lemma post_step_constraints:
  assumes "payments_constraints d"
  shows "payments_constraints (snd (post_step env body state d))"
proof (cases state)
  case AwaitCheck
  with assms show ?thesis by (simp add: post_step_def)
next
  case AwaitBooking
  show ?thesis
  proof (cases "createBooking (e_bookingUuid env) (e_bookingNow env) (bookingDataOf env body) d")
    case (Inl error)
    with AwaitBooking assms show ?thesis by (simp add: post_step_def)
  next
    case (Inr pair)
    then obtain booking d1 where
      cb: "createBooking (e_bookingUuid env) (e_bookingNow env) (bookingDataOf env body) d
             = Inr (booking, d1)"
      by (cases pair) simp
    from createBooking_row(5) [OF this] assms have "payments_constraints d1"
      by (auto simp: payments_constraints_def)
    with AwaitBooking cb show ?thesis by (simp add: post_step_def)
  qed
next
  case (AwaitPayment booking)
  show ?thesis
  proof (cases "createPayment (e_paymentUuid env) (e_paymentNow env)
                  (paymentDataOf body booking) d")
    case (Inl error)
    with AwaitPayment assms show ?thesis by (simp add: post_step_def)
  next
    case (Inr pair)
    then obtain payment d2 where
      cp: "createPayment (e_paymentUuid env) (e_paymentNow env)
             (paymentDataOf body booking) d = Inr (payment, d2)"
      by (cases pair) simp
    from createPayment_row(3-6) [OF this] assms have "payments_constraints d2"
      by (auto simp: payments_constraints_def)
    with AwaitPayment cp show ?thesis by (simp add: post_step_def)
  qed
next
  case (Responded r)
  with assms show ?thesis by (simp add: post_step_def)
qed

lemma reachable_constraints:
  assumes "reachable d0 d" and "payments_constraints d0"
  shows "payments_constraints d"
  using assms
proof (induction rule: reachable.induct)
  case initial
  then show ?case by simp
next
  case (post d env body state)
  then show ?case by (simp add: post_step_constraints)
next
  case (update_booking d now bid bookingData row d')
  then show ?case by (simp add: updateBooking_constraints)
next
  case (update_payment d now pid paymentData row d')
  then show ?case by (simp add: updatePayment_constraints)
next
  case (delete_car d cid)
  then show ?case by (simp add: deleteCar_constraints)
next
  case (other_tables d d')
  then show ?case by (simp add: payments_constraints_def)
qed

lemma at_most_one_payment:
  assumes "payments_constraints d"
  shows "length (paymentsOf d bid) \<le> 1"
proof -
  from assms have "distinct (map p_bookingId (payments d))"
    by (simp add: payments_constraints_def)
  then have "length (filter (\<lambda>p. p_bookingId p = bid) (payments d)) \<le> 1"
  proof (induction "payments d" arbitrary: d)
    case Nil
    then show ?case by simp
  next
    case (Cons p ps)
    from Cons(2) [symmetric] Cons(3) have "distinct (map p_bookingId ps)"
      and "p_bookingId p \<notin> set (map p_bookingId ps)"
      by simp_all
    then show ?case
      using Cons(2) [symmetric] Cons(1) [of "d\<lparr>payments := ps\<rparr>"]
      by (auto simp: filter_key_absent)
  qed
  then show ?thesis by (simp add: paymentsOf_def)
qed

lemma post_api_bookings_steps:
  "interleave (env, body) r2 [First, First, First] (AwaitCheck, pc2, d)
     = (Responded (fst (post_api_bookings env body d)), pc2,
        snd (post_api_bookings env body d))"
  by (simp add: post_api_bookings_def post_step_def Let_def split: sum.splits)

lemma reachable_interleave:
  assumes "reachable d0 d"
  shows "reachable d0 (snd (snd (interleave r1 r2 sched (pc1, pc2, d))))"
  using assms
proof (induction sched arbitrary: pc1 pc2 d)
  case Nil
  then show ?case by simp
next
  case (Cons t sched)
  show ?case
  proof (cases t)
    case First
    obtain pc1' d' where st: "post_step (fst r1) (snd r1) pc1 d = (pc1', d')"
      by (cases "post_step (fst r1) (snd r1) pc1 d") simp
    from reachable.post [OF Cons.prems, of "fst r1" "snd r1" pc1] st
    have "reachable d0 d'" by simp
    from Cons.IH [OF this, of pc1' pc2] First st show ?thesis by simp
  next
    case Second
    obtain pc2' d' where st: "post_step (fst r2) (snd r2) pc2 d = (pc2', d')"
      by (cases "post_step (fst r2) (snd r2) pc2 d") simp
    from reachable.post [OF Cons.prems, of "fst r2" "snd r2" pc2] st
    have "reachable d0 d'" by simp
    from Cons.IH [OF this, of pc1 pc2'] Second st show ?thesis by simp
  qed
qed

lemma reachable_post_api_bookings:
  assumes "reachable d0 d"
  shows "reachable d0 (snd (post_api_bookings env body d))"
  using reachable_interleave [OF assms, of "(env, body)" "(env, body)" "[First, First, First]"
          AwaitCheck AwaitCheck]
  by (simp only: post_api_bookings_steps snd_conv)

lemma booking_without_payment:
  assumes "payments_constraints d"
      and "createBooking uuid now bookingData d = Inr (booking, d1)"
  shows "booking \<in> set (bookings d1) \<and> paymentsOf d1 (b_id booking) = []"
proof -
  from createBooking_row(1,2) [OF assms(2)]
  have fresh: "b_id booking \<notin> set (map b_id (bookings d))"
    by simp
  note d1 = createBooking_row(5) [OF assms(2)]
  from assms(1) fresh have "b_id booking \<notin> set (map p_bookingId (payments d))"
    by (auto simp: payments_constraints_def)
  then have "filter (\<lambda>p. p_bookingId p = b_id booking) (payments d) = []"
    by (rule filter_key_absent)
  with d1 show ?thesis
    by (simp add: paymentsOf_def)
qed

text \<open>
  Claim C3, as the code has it. Start from a database in which the constraints of
  \<open>payments.bookingId\<close> hold. In every state the application can reach, every booking
  has at most one payment. A booking request that succeeds leaves its booking with
  exactly one payment. Creating the two rows is not a transaction: after the
  booking is inserted, and before the payment is, the database holds the booking
  with no payment; and when the payment's insert fails, the request is answered
  with status 400 and the booking stays, without a payment. Nothing deletes it.
\<close>

theorem C3_payment_pairing:
  assumes "payments_constraints d0" and "reachable d0 d"
  shows "(\<forall>b \<in> set (bookings d). length (paymentsOf d (b_id b)) \<le> 1)
     \<and> (\<forall>env body booking d'. post_api_bookings env body d = (Json booking, d')
           \<longrightarrow> reachable d0 d' \<and> booking \<in> set (bookings d')
               \<and> length (paymentsOf d' (b_id booking)) = 1)
     \<and> (\<forall>env body booking d1. post_step env body AwaitBooking d = (AwaitPayment booking, d1)
           \<longrightarrow> reachable d0 d1 \<and> booking \<in> set (bookings d1)
               \<and> paymentsOf d1 (b_id booking) = [])
     \<and> (\<forall>env body booking d1 error.
           checkAvailability d (bb_carId body) (bb_startDate body) (bb_endDate body)
           \<and> createBooking (e_bookingUuid env) (e_bookingNow env) (bookingDataOf env body) d
                = Inr (booking, d1)
           \<and> createPayment (e_paymentUuid env) (e_paymentNow env)
                (paymentDataOf body booking) d1 = Inl error
           \<longrightarrow> post_api_bookings env body d = (Status 400 (ErrorMessage error), d1)
               \<and> reachable d0 d1 \<and> booking \<in> set (bookings d1)
               \<and> paymentsOf d1 (b_id booking) = [])"
proof -
  from assms have inv: "payments_constraints d"
    by (simp add: reachable_constraints)
  have most: "\<forall>b \<in> set (bookings d). length (paymentsOf d (b_id b)) \<le> 1"
    using at_most_one_payment [OF inv] by blast
  have paired: "\<forall>env body booking d'. post_api_bookings env body d = (Json booking, d')
           \<longrightarrow> reachable d0 d' \<and> booking \<in> set (bookings d')
               \<and> length (paymentsOf d' (b_id booking)) = 1"
  proof (intro allI impI)
    fix env body booking d'
    assume ok: "post_api_bookings env body d = (Json booking, d')"
    note facts = post_success [OF ok]
    from facts obtain payment where
      cp: "createPayment (e_paymentUuid env) (e_paymentNow env) (paymentDataOf body booking)
                  (d\<lparr>bookings := bookings d @ [booking]\<rparr>) = Inr (payment, d')"
      by blast
    note row = createPayment_row(3,4,6) [OF this]
    from row have unused: "b_id booking \<notin> set (map p_bookingId (payments d))"
      and after: "payments d' = payments d @ [payment]" "p_bookingId payment = b_id booking"
        "bookings d' = bookings d @ [booking]"
      by (simp_all add: paymentDataOf_def)
    from unused have "filter (\<lambda>p. p_bookingId p = b_id booking) (payments d) = []"
      by (rule filter_key_absent)
    with after have one: "length (paymentsOf d' (b_id booking)) = 1"
      by (simp add: paymentsOf_def)
    from reachable_post_api_bookings [OF assms(2), of env body] ok
    have "reachable d0 d'" by simp
    with one after show "reachable d0 d' \<and> booking \<in> set (bookings d')
               \<and> length (paymentsOf d' (b_id booking)) = 1"
      by simp
  qed
  have between: "\<forall>env body booking d1.
           post_step env body AwaitBooking d = (AwaitPayment booking, d1)
           \<longrightarrow> reachable d0 d1 \<and> booking \<in> set (bookings d1)
               \<and> paymentsOf d1 (b_id booking) = []"
  proof (intro allI impI)
    fix env body booking d1
    assume st: "post_step env body AwaitBooking d = (AwaitPayment booking, d1)"
    then have cb: "createBooking (e_bookingUuid env) (e_bookingNow env)
                     (bookingDataOf env body) d = Inr (booking, d1)"
      by (auto simp: post_step_def split: sum.splits)
    from reachable.post [OF assms(2), of env body AwaitBooking] st
    have "reachable d0 d1" by simp
    with booking_without_payment [OF inv cb]
    show "reachable d0 d1 \<and> booking \<in> set (bookings d1) \<and> paymentsOf d1 (b_id booking) = []"
      by simp
  qed
  have left: "\<forall>env body booking d1 error.
           checkAvailability d (bb_carId body) (bb_startDate body) (bb_endDate body)
           \<and> createBooking (e_bookingUuid env) (e_bookingNow env) (bookingDataOf env body) d
                = Inr (booking, d1)
           \<and> createPayment (e_paymentUuid env) (e_paymentNow env)
                (paymentDataOf body booking) d1 = Inl error
           \<longrightarrow> post_api_bookings env body d = (Status 400 (ErrorMessage error), d1)
               \<and> reachable d0 d1 \<and> booking \<in> set (bookings d1)
               \<and> paymentsOf d1 (b_id booking) = []"
  proof (intro allI impI, elim conjE)
    fix env body booking d1 error
    assume avail: "checkAvailability d (bb_carId body) (bb_startDate body) (bb_endDate body)"
      and cb: "createBooking (e_bookingUuid env) (e_bookingNow env) (bookingDataOf env body) d
                = Inr (booking, d1)"
      and cp: "createPayment (e_paymentUuid env) (e_paymentNow env)
                (paymentDataOf body booking) d1 = Inl error"
    from avail cb cp
    have resp: "post_api_bookings env body d = (Status 400 (ErrorMessage error), d1)"
      by (simp add: post_api_bookings_def Let_def)
    from reachable_post_api_bookings [OF assms(2), of env body] resp
    have "reachable d0 d1" by simp
    with resp booking_without_payment [OF inv cb]
    show "post_api_bookings env body d = (Status 400 (ErrorMessage error), d1)
               \<and> reachable d0 d1 \<and> booking \<in> set (bookings d1)
               \<and> paymentsOf d1 (b_id booking) = []"
      by simp
  qed
  show ?thesis
    by (intro conjI most paired between left)
qed

theorem C3_payment_pairing_witness:
  "payments_constraints demo_db
   \<and> length (paymentsOf demo_db ''b1'') \<le> 1
   \<and> (\<exists>booking d'.
         post_api_bookings (demo_env ''b2'' ''p2'') (demo_body ''c1'' (june 10) (june 12)) demo_db
           = (Json booking, d')
         \<and> reachable demo_db d' \<and> length (paymentsOf d' (b_id booking)) = 1)
   \<and> (\<exists>booking d1.
         post_step (demo_env ''b2'' ''p2'') (demo_body ''c1'' (june 10) (june 12)) AwaitBooking
            demo_db = (AwaitPayment booking, d1)
         \<and> reachable demo_db d1 \<and> booking \<in> set (bookings d1)
         \<and> paymentsOf d1 (b_id booking) = [])
   \<and> (\<exists>d1.
         post_api_bookings (demo_env ''b2'' ''p1'') (demo_body ''c1'' (june 10) (june 12)) demo_db
           = (Status 400 (ErrorMessage UniqueViolation), d1)
         \<and> reachable demo_db d1 \<and> map b_id (bookings d1) = [''b1'', ''b2'']
         \<and> paymentsOf d1 ''b2'' = [])"
proof -
  let ?env = "demo_env ''b2'' ''p2''"
  let ?bad = "demo_env ''b2'' ''p1''"
  let ?body = "demo_body ''c1'' (june 10) (june 12)"
  let ?b2 = "\<lparr>b_id = ''b2'', b_carId = ''c1'', b_userId = ''u1'', b_startDate = june 10,
               b_endDate = june 12, b_totalCost = 3000, b_status = ''pending'',
               b_paymentStatus = ''pending'', b_createdAt = june 2, b_updatedAt = june 2\<rparr>"
  let ?d1 = "demo_db\<lparr>bookings := bookings demo_db @ [?b2]\<rparr>"
  have inv: "payments_constraints demo_db"
    by (simp add: payments_constraints_def demo_db_def mkPayment_def mkBooking_def)
  note inst = C3_payment_pairing [OF inv reachable.initial]
  have b1: "mkBooking ''b1'' ''c1'' (june 1) (june 5) 6000 ''confirmed'' ''paid''
              \<in> set (bookings demo_db)"
    by (simp add: demo_db_def)
  from inst [THEN conjunct1, rule_format, OF b1]
  have a: "length (paymentsOf demo_db ''b1'') \<le> 1"
    by (simp add: mkBooking_def)
  have whole: "round2 3000 = 3000"
    by (rule round2_exact) simp
  have pre: "checkAvailability demo_db (bb_carId ?body) (bb_startDate ?body) (bb_endDate ?body)"
    "\<bar>round2 (bb_totalCost ?body)\<bar> < 100000000"
    "bb_carId ?body \<in> set (map c_id (cars demo_db))"
    "e_userId ?env \<in> set (map u_id (users demo_db))"
    "e_bookingUuid ?env \<notin> set (map b_id (bookings demo_db))"
    "e_paymentUuid ?env \<notin> set (map p_id (payments demo_db))"
    "e_bookingUuid ?env \<notin> set (map p_bookingId (payments demo_db))"
    by (simp_all add: checkAvailability_iff demo_db_def demo_body_def demo_env_def mkBooking_def
          mkCar_def mkUser_def mkPayment_def june_def whole)
  from post_accepted [OF pre] obtain booking d'
    where ok: "post_api_bookings ?env ?body demo_db = (Json booking, d')"
    by blast
  from inst [THEN conjunct2, THEN conjunct1, rule_format, OF ok] ok
  have b: "\<exists>booking d'. post_api_bookings ?env ?body demo_db = (Json booking, d')
         \<and> reachable demo_db d' \<and> length (paymentsOf d' (b_id booking)) = 1"
    by (intro exI [of _ booking] exI [of _ d']) simp
  have cb: "createBooking (e_bookingUuid (demo_env ''b2'' pu)) (e_bookingNow (demo_env ''b2'' pu))
               (bookingDataOf (demo_env ''b2'' pu) ?body) demo_db
              = Inr (?b2, ?d1)" for pu
    unfolding createBooking_post
    by (simp add: demo_env_def demo_body_def demo_db_def mkBooking_def mkCar_def mkUser_def
          whole)
  have step: "post_step ?env ?body AwaitBooking demo_db = (AwaitPayment ?b2, ?d1)"
    using cb [of "''p2''"] by (simp add: post_step_def)
  from inst [THEN conjunct2, THEN conjunct2, THEN conjunct1, rule_format, OF step] step
  have c: "\<exists>booking d1. post_step ?env ?body AwaitBooking demo_db = (AwaitPayment booking, d1)
         \<and> reachable demo_db d1 \<and> booking \<in> set (bookings d1)
         \<and> paymentsOf d1 (b_id booking) = []"
    by (intro exI [of _ ?b2] exI [of _ ?d1]) simp
  have cb': "createBooking (e_bookingUuid ?bad) (e_bookingNow ?bad) (bookingDataOf ?bad ?body)
               demo_db = Inr (?b2, ?d1)"
    by (rule cb)
  have cp: "createPayment (e_paymentUuid ?bad) (e_paymentNow ?bad) (paymentDataOf ?body ?b2) ?d1
              = Inl UniqueViolation"
    unfolding createPayment_def fitInsertPayment_paymentDataOf
    by (simp add: Let_def demo_db_def mkPayment_def demo_env_def demo_body_def whole)
  note failed = inst [THEN conjunct2, THEN conjunct2, THEN conjunct2, rule_format,
                      OF conjI [OF pre(1) conjI [OF cb' cp]]]
  have ids: "map b_id (bookings ?d1) = [''b1'', ''b2'']"
    by (simp add: demo_db_def mkBooking_def)
  from failed ids
  have e: "\<exists>d1. post_api_bookings ?bad ?body demo_db
                   = (Status 400 (ErrorMessage UniqueViolation), d1)
         \<and> reachable demo_db d1 \<and> map b_id (bookings d1) = [''b1'', ''b2'']
         \<and> paymentsOf d1 ''b2'' = []"
    by (intro exI [of _ ?d1]) simp
  show ?thesis
    by (intro conjI inv a b c e)
qed

text \<open>
  A booking without its payment: here the identifier generated for the payment is
  one that a payment already has, so the second insert fails; and in any request
  the state between the two inserts shows the same.
\<close>

theorem C3_counterexample:
  "payments_constraints demo_db
   \<and> fst (post_api_bookings (demo_env ''b2'' ''p1'') (demo_body ''c1'' (june 10) (june 12))
            demo_db) = Status 400 (ErrorMessage UniqueViolation)
   \<and> map b_id (bookings (snd (post_api_bookings (demo_env ''b2'' ''p1'')
                                 (demo_body ''c1'' (june 10) (june 12)) demo_db)))
       = [''b1'', ''b2'']
   \<and> paymentsOf (snd (post_api_bookings (demo_env ''b2'' ''p1'')
                         (demo_body ''c1'' (june 10) (june 12)) demo_db)) ''b2'' = []
   \<and> map b_id (bookings (snd (post_step (demo_env ''b2'' ''p2'')
                                 (demo_body ''c1'' (june 10) (june 12)) AwaitBooking demo_db)))
       = [''b1'', ''b2'']
   \<and> paymentsOf (snd (post_step (demo_env ''b2'' ''p2'')
                         (demo_body ''c1'' (june 10) (june 12)) AwaitBooking demo_db)) ''b2'' = []"
proof -
  let ?body = "demo_body ''c1'' (june 10) (june 12)"
  let ?b2 = "\<lparr>b_id = ''b2'', b_carId = ''c1'', b_userId = ''u1'', b_startDate = june 10,
               b_endDate = june 12, b_totalCost = 3000, b_status = ''pending'',
               b_paymentStatus = ''pending'', b_createdAt = june 2, b_updatedAt = june 2\<rparr>"
  let ?d1 = "demo_db\<lparr>bookings := bookings demo_db @ [?b2]\<rparr>"
  have inv: "payments_constraints demo_db"
    by (simp add: payments_constraints_def demo_db_def mkPayment_def mkBooking_def)
  have avail: "checkAvailability demo_db (bb_carId ?body) (bb_startDate ?body) (bb_endDate ?body)"
    by (simp add: checkAvailability_iff demo_db_def demo_body_def mkBooking_def june_def)
  have whole: "round2 3000 = 3000"
    by (rule round2_exact) simp
  have cb: "createBooking (e_bookingUuid (demo_env ''b2'' pu)) (e_bookingNow (demo_env ''b2'' pu))
               (bookingDataOf (demo_env ''b2'' pu) ?body) demo_db
              = Inr (?b2, ?d1)" for pu
    unfolding createBooking_post
    by (simp add: demo_env_def demo_body_def demo_db_def mkBooking_def mkCar_def mkUser_def
          whole)
  have cp: "createPayment (e_paymentUuid (demo_env ''b2'' ''p1''))
               (e_paymentNow (demo_env ''b2'' ''p1'')) (paymentDataOf ?body ?b2) ?d1
              = Inl UniqueViolation"
    unfolding createPayment_def fitInsertPayment_paymentDataOf
    by (simp add: Let_def demo_db_def mkPayment_def demo_env_def demo_body_def whole)
  have post: "post_api_bookings (demo_env ''b2'' ''p1'') ?body demo_db
                = (Status 400 (ErrorMessage UniqueViolation), ?d1)"
    using avail cb [of "''p1''"] cp
    by (simp add: post_api_bookings_def Let_def)
  have step: "post_step (demo_env ''b2'' ''p2'') ?body AwaitBooking demo_db
                = (AwaitPayment ?b2, ?d1)"
    using cb [of "''p2''"]
    by (simp add: post_step_def)
  have ids: "map b_id (bookings ?d1) = [''b1'', ''b2'']"
    by (simp add: demo_db_def mkBooking_def)
  have none: "paymentsOf ?d1 ''b2'' = []"
    by (simp add: paymentsOf_def demo_db_def mkPayment_def)
  show ?thesis
    unfolding post step fst_conv snd_conv
    by (intro conjI inv refl ids none)
qed

subsection \<open>Two requests at once\<close>

lemma checkAvailability_append:
  "checkAvailability (d\<lparr>bookings := bookings d @ [b]\<rparr>) carId s e
     = (checkAvailability d carId s e
        \<and> \<not> (b_carId b = carId \<and> (b_status b = ''pending'' \<or> b_status b = ''confirmed'')
              \<and> b_startDate b \<le> e \<and> b_endDate b \<ge> s))"
  by (auto simp: checkAvailability_iff)

lemma checkAvailability_payments:
  "checkAvailability (d\<lparr>payments := ps\<rparr>) carId s e = checkAvailability d carId s e"
  by (simp add: checkAvailability_iff)

text \<open>
  Claim C4. Two booking requests for the same car and the same dates are not
  serialized. Let the car be available for the dates, the car and both callers
  exist, the identifiers the database generates be unused and different, and the
  \<open>totalCost\<close> of both requests fit the \<open>decimal(10,2)\<close> column. In
  the interleaving where both requests run their availability check before either
  inserts, both pass the check, both insert and both are answered with their
  booking: the \<open>bookings\<close> table ends with two \<open>pending\<close> bookings of that car for the
  same dates. When the first request runs to its end before the second starts,
  the second is refused with status 400.
\<close>

theorem C4_double_booking:
  assumes same_car: "bb_carId body1 = bb_carId body2"
      and same_dates: "bb_startDate body1 = bb_startDate body2"
                      "bb_endDate body1 = bb_endDate body2"
      and ordered: "bb_startDate body1 \<le> bb_endDate body1"
      and avail: "checkAvailability d (bb_carId body1) (bb_startDate body1) (bb_endDate body1)"
      and car: "bb_carId body1 \<in> set (map c_id (cars d))"
      and callers: "e_userId env1 \<in> set (map u_id (users d))"
                   "e_userId env2 \<in> set (map u_id (users d))"
      and booking_ids: "e_bookingUuid env1 \<notin> set (map b_id (bookings d))"
                       "e_bookingUuid env2 \<notin> set (map b_id (bookings d))"
                       "e_bookingUuid env1 \<noteq> e_bookingUuid env2"
      and payment_ids: "e_paymentUuid env1 \<notin> set (map p_id (payments d))"
                       "e_paymentUuid env2 \<notin> set (map p_id (payments d))"
                       "e_paymentUuid env1 \<noteq> e_paymentUuid env2"
      and unreferenced: "e_bookingUuid env1 \<notin> set (map p_bookingId (payments d))"
                        "e_bookingUuid env2 \<notin> set (map p_bookingId (payments d))"
      and amounts: "\<bar>round2 (bb_totalCost body1)\<bar> < 100000000"
                   "\<bar>round2 (bb_totalCost body2)\<bar> < 100000000"
  shows "(\<exists>b1 b2 d'.
            interleave (env1, body1) (env2, body2)
                [First, Second, First, First, Second, Second] (AwaitCheck, AwaitCheck, d)
              = (Responded (Json b1), Responded (Json b2), d')
            \<and> bookings d' = bookings d @ [b1, b2]
            \<and> b_id b1 = e_bookingUuid env1 \<and> b_id b2 = e_bookingUuid env2
            \<and> b_id b1 \<noteq> b_id b2
            \<and> b_carId b1 = bb_carId body1 \<and> b_carId b2 = bb_carId body1
            \<and> b_status b1 = ''pending'' \<and> b_status b2 = ''pending''
            \<and> b_startDate b1 = b_startDate b2 \<and> b_endDate b1 = b_endDate b2
            \<and> b_startDate b1 \<le> b_endDate b2 \<and> b_endDate b1 \<ge> b_startDate b2)
       \<and> (\<exists>b1 d'.
            interleave (env1, body1) (env2, body2)
                [First, First, First, Second, Second, Second] (AwaitCheck, AwaitCheck, d)
              = (Responded (Json b1),
                 Responded (Status 400 (Message ''Car is not available for the selected dates'')),
                 d')
            \<and> bookings d' = bookings d @ [b1])"
proof -
  define b1 where "b1 = \<lparr>b_id = e_bookingUuid env1, b_carId = bb_carId body1,
      b_userId = e_userId env1, b_startDate = bb_startDate body1, b_endDate = bb_endDate body1,
      b_totalCost = round2 (bb_totalCost body1), b_status = ''pending'', b_paymentStatus = ''pending'',
      b_createdAt = e_bookingNow env1, b_updatedAt = e_bookingNow env1\<rparr>"
  define b2 where "b2 = \<lparr>b_id = e_bookingUuid env2, b_carId = bb_carId body2,
      b_userId = e_userId env2, b_startDate = bb_startDate body2, b_endDate = bb_endDate body2,
      b_totalCost = round2 (bb_totalCost body2), b_status = ''pending'', b_paymentStatus = ''pending'',
      b_createdAt = e_bookingNow env2, b_updatedAt = e_bookingNow env2\<rparr>"
  define p1 where "p1 = \<lparr>p_id = e_paymentUuid env1, p_bookingId = e_bookingUuid env1,
      p_amount = round2 (bb_totalCost body1), p_currency = ''INR'', p_razorpayOrderId = None,
      p_razorpayPaymentId = None, p_status = ''pending'', p_createdAt = e_paymentNow env1,
      p_updatedAt = e_paymentNow env1\<rparr>"
  define p2 where "p2 = \<lparr>p_id = e_paymentUuid env2, p_bookingId = e_bookingUuid env2,
      p_amount = round2 (bb_totalCost body2), p_currency = ''INR'', p_razorpayOrderId = None,
      p_razorpayPaymentId = None, p_status = ''pending'', p_createdAt = e_paymentNow env2,
      p_updatedAt = e_paymentNow env2\<rparr>"
  define d1 where "d1 = d\<lparr>bookings := bookings d @ [b1]\<rparr>"
  define d2 where "d2 = d1\<lparr>payments := payments d1 @ [p1]\<rparr>"
  define d3 where "d3 = d2\<lparr>bookings := bookings d2 @ [b2]\<rparr>"
  define d4 where "d4 = d3\<lparr>payments := payments d3 @ [p2]\<rparr>"
  have check1: "post_step env1 body1 AwaitCheck d = (AwaitBooking, d)"
    using avail by (simp add: post_step_def)
  have check2: "post_step env2 body2 AwaitCheck d = (AwaitBooking, d)"
    using avail same_car same_dates by (simp add: post_step_def)
  have cb1: "createBooking (e_bookingUuid env1) (e_bookingNow env1) (bookingDataOf env1 body1) d
               = Inr (b1, d1)"
    using car callers(1) booking_ids(1) amounts(1)
    by (simp add: createBooking_post b1_def d1_def)
  have insert1: "post_step env1 body1 AwaitBooking d = (AwaitPayment b1, d1)"
    by (simp add: post_step_def cb1)
  have cp1: "createPayment (e_paymentUuid env1) (e_paymentNow env1) (paymentDataOf body1 b1) d1
               = Inr (p1, d2)"
    using payment_ids(1) unreferenced(1) amounts(1)
    by (simp add: createPayment_post b1_def d1_def p1_def d2_def)
  have pay1: "post_step env1 body1 (AwaitPayment b1) d1 = (Responded (Json b1), d2)"
    by (simp add: post_step_def cp1)
  have cb2: "createBooking (e_bookingUuid env2) (e_bookingNow env2) (bookingDataOf env2 body2) d2
               = Inr (b2, d3)"
    using car callers(2) booking_ids(2,3) same_car amounts(2)
    by (simp add: createBooking_post b1_def b2_def d1_def d2_def d3_def)
  have insert2: "post_step env2 body2 AwaitBooking d2 = (AwaitPayment b2, d3)"
    by (simp add: post_step_def cb2)
  have cp2: "createPayment (e_paymentUuid env2) (e_paymentNow env2) (paymentDataOf body2 b2) d3
               = Inr (p2, d4)"
    using payment_ids(2,3) unreferenced(2) booking_ids(3) amounts(2)
    by (simp add: createPayment_post b1_def b2_def p1_def p2_def d1_def d2_def d3_def d4_def)
  have pay2: "post_step env2 body2 (AwaitPayment b2) d3 = (Responded (Json b2), d4)"
    by (simp add: post_step_def cp2)
  have race: "interleave (env1, body1) (env2, body2)
                [First, Second, First, First, Second, Second] (AwaitCheck, AwaitCheck, d)
              = (Responded (Json b1), Responded (Json b2), d4)"
    by (simp add: check1 check2 insert1 pay1 insert2 pay2)
  have rows: "bookings d4 = bookings d @ [b1, b2]"
    by (simp add: d1_def d2_def d3_def d4_def)
  have double: "b_id b1 = e_bookingUuid env1 \<and> b_id b2 = e_bookingUuid env2
            \<and> b_id b1 \<noteq> b_id b2
            \<and> b_carId b1 = bb_carId body1 \<and> b_carId b2 = bb_carId body1
            \<and> b_status b1 = ''pending'' \<and> b_status b2 = ''pending''
            \<and> b_startDate b1 = b_startDate b2 \<and> b_endDate b1 = b_endDate b2
            \<and> b_startDate b1 \<le> b_endDate b2 \<and> b_endDate b1 \<ge> b_startDate b2"
    using booking_ids(3) same_car same_dates ordered by (simp add: b1_def b2_def)
  have busy: "\<not> checkAvailability d2 (bb_carId body2) (bb_startDate body2) (bb_endDate body2)"
    using same_car same_dates ordered
    by (simp add: d2_def d1_def checkAvailability_payments checkAvailability_append b1_def)
  have refused: "post_step env2 body2 AwaitCheck d2
      = (Responded (Status 400 (Message ''Car is not available for the selected dates'')), d2)"
    using busy by (simp add: post_step_def)
  have stay: "post_step env2 body2 (Responded r) d2 = (Responded r, d2)" for r
    by (simp add: post_step_def)
  have serial: "interleave (env1, body1) (env2, body2)
                [First, First, First, Second, Second, Second] (AwaitCheck, AwaitCheck, d)
              = (Responded (Json b1),
                 Responded (Status 400 (Message ''Car is not available for the selected dates'')),
                 d2)"
    by (simp add: check1 insert1 pay1 refused stay)
  have rows2: "bookings d2 = bookings d @ [b1]"
    by (simp add: d1_def d2_def)
  from race rows double have A: "\<exists>b1 b2 d'.
            interleave (env1, body1) (env2, body2)
                [First, Second, First, First, Second, Second] (AwaitCheck, AwaitCheck, d)
              = (Responded (Json b1), Responded (Json b2), d')
            \<and> bookings d' = bookings d @ [b1, b2]
            \<and> b_id b1 = e_bookingUuid env1 \<and> b_id b2 = e_bookingUuid env2
            \<and> b_id b1 \<noteq> b_id b2
            \<and> b_carId b1 = bb_carId body1 \<and> b_carId b2 = bb_carId body1
            \<and> b_status b1 = ''pending'' \<and> b_status b2 = ''pending''
            \<and> b_startDate b1 = b_startDate b2 \<and> b_endDate b1 = b_endDate b2
            \<and> b_startDate b1 \<le> b_endDate b2 \<and> b_endDate b1 \<ge> b_startDate b2"
    by blast
  from serial rows2 have B: "\<exists>b1 d'.
            interleave (env1, body1) (env2, body2)
                [First, First, First, Second, Second, Second] (AwaitCheck, AwaitCheck, d)
              = (Responded (Json b1),
                 Responded (Status 400 (Message ''Car is not available for the selected dates'')),
                 d')
            \<and> bookings d' = bookings d @ [b1]"
    by blast
  show ?thesis
    by (intro conjI A B)
qed

theorem C4_double_booking_witness:
  "\<exists>b1 b2 d'.
     interleave (demo_env ''b2'' ''p2'', demo_body ''c1'' (june 10) (june 12))
                (demo_env ''b3'' ''p3'', demo_body ''c1'' (june 10) (june 12))
                [First, Second, First, First, Second, Second] (AwaitCheck, AwaitCheck, demo_db)
       = (Responded (Json b1), Responded (Json b2), d')
     \<and> map b_id (bookings d') = [''b1'', ''b2'', ''b3'']
     \<and> b_carId b1 = ''c1'' \<and> b_carId b2 = ''c1''
     \<and> b_status b1 = ''pending'' \<and> b_status b2 = ''pending''
     \<and> b_startDate b1 = b_startDate b2 \<and> b_endDate b1 = b_endDate b2"
proof -
  let ?env1 = "demo_env ''b2'' ''p2''"
  let ?env2 = "demo_env ''b3'' ''p3''"
  let ?body = "demo_body ''c1'' (june 10) (june 12)"
  have avail: "checkAvailability demo_db (bb_carId ?body) (bb_startDate ?body) (bb_endDate ?body)"
    by (simp add: checkAvailability_iff demo_db_def demo_body_def mkBooking_def june_def)
  have ordered: "bb_startDate ?body \<le> bb_endDate ?body"
    by (simp add: demo_body_def june_def)
  have car: "bb_carId ?body \<in> set (map c_id (cars demo_db))"
    by (simp add: demo_db_def demo_body_def mkCar_def)
  have callers: "e_userId ?env1 \<in> set (map u_id (users demo_db))"
    "e_userId ?env2 \<in> set (map u_id (users demo_db))"
    by (simp_all add: demo_db_def demo_env_def mkUser_def)
  have booking_ids: "e_bookingUuid ?env1 \<notin> set (map b_id (bookings demo_db))"
    "e_bookingUuid ?env2 \<notin> set (map b_id (bookings demo_db))"
    "e_bookingUuid ?env1 \<noteq> e_bookingUuid ?env2"
    by (simp_all add: demo_db_def demo_env_def mkBooking_def)
  have payment_ids: "e_paymentUuid ?env1 \<notin> set (map p_id (payments demo_db))"
    "e_paymentUuid ?env2 \<notin> set (map p_id (payments demo_db))"
    "e_paymentUuid ?env1 \<noteq> e_paymentUuid ?env2"
    by (simp_all add: demo_db_def demo_env_def mkPayment_def)
  have unreferenced: "e_bookingUuid ?env1 \<notin> set (map p_bookingId (payments demo_db))"
    "e_bookingUuid ?env2 \<notin> set (map p_bookingId (payments demo_db))"
    by (simp_all add: demo_db_def demo_env_def mkPayment_def)
  have "round2 3000 = 3000"
    by (rule round2_exact) simp
  then have amounts: "\<bar>round2 (bb_totalCost ?body)\<bar> < 100000000"
    by (simp add: demo_body_def)
  from C4_double_booking [OF refl refl refl ordered avail car callers booking_ids payment_ids
         unreferenced amounts amounts, THEN conjunct1]
  obtain b1 b2 d' where
    run: "interleave (?env1, ?body) (?env2, ?body)
            [First, Second, First, First, Second, Second] (AwaitCheck, AwaitCheck, demo_db)
          = (Responded (Json b1), Responded (Json b2), d')"
    and rows: "bookings d' = bookings demo_db @ [b1, b2]"
    and ids: "b_id b1 = e_bookingUuid ?env1" "b_id b2 = e_bookingUuid ?env2"
    and same: "b_carId b1 = bb_carId ?body" "b_carId b2 = bb_carId ?body"
      "b_status b1 = ''pending''" "b_status b2 = ''pending''"
      "b_startDate b1 = b_startDate b2" "b_endDate b1 = b_endDate b2"
    by blast
  from rows ids have tab: "map b_id (bookings d') = [''b1'', ''b2'', ''b3'']"
    by (simp add: demo_db_def demo_env_def mkBooking_def)
  from same have cars: "b_carId b1 = ''c1''" "b_carId b2 = ''c1''"
    by (simp_all add: demo_body_def)
  show ?thesis
    by (rule exI [of _ b1], rule exI [of _ b2], rule exI [of _ d'])
       (intro conjI run tab cars same)
qed

subsection \<open>Responding to a review\<close>







subsection \<open>Partial updates\<close>














subsection \<open>A car that does not exist\<close>

lemma updateBooking_carIds:
  assumes "updateBooking now bid bookingData d = Inr (row, d')"
      and "b' \<in> set (bookings d')"
  shows "cars d' = cars d
         \<and> (b_carId b' \<in> set (map b_carId (bookings d))
            \<or> b_carId b' \<in> set (map c_id (cars d)))"
proof (cases "filter (\<lambda>b. b_id b = bid) (bookings d) = []")
  case True
  with assms show ?thesis
    by (auto simp: updateBooking_def Let_def split: sum.splits)
next
  case False
  from assms(1) obtain fitted where fit: "fitPartialBooking bookingData = Inr fitted"
    by (cases "fitPartialBooking bookingData") (simp_all add: updateBooking_def)
  with False assms(1) have ok: "\<not> refMissing (pb_carId fitted) (map c_id (cars d))"
    and d': "d' = d\<lparr>bookings := map (\<lambda>b. if b_id b = bid
                                           then applyPartialBooking now fitted b
                                           else b) (bookings d)\<rparr>"
    by (auto simp: updateBooking_def Let_def split: if_splits)
  from assms(2) d' obtain b where b: "b \<in> set (bookings d)"
    and b': "b' = (if b_id b = bid then applyPartialBooking now fitted b else b)"
    by auto
  have "b_carId b' = b_carId b \<or> b_carId b' \<in> set (map c_id (cars d))"
    using ok b'
    by (auto simp: applyPartialBooking_def setColumn_def refMissing_def split: option.splits)
  with b d' show ?thesis
    by auto
qed

lemma bookings_constraint_updateBooking:
  assumes "updateBooking now bid bookingData d = Inr (row, d')" and "bookings_constraint d"
  shows "bookings_constraint d'"
  unfolding bookings_constraint_def
proof
  fix b'
  assume "b' \<in> set (bookings d')"
  from updateBooking_carIds [OF assms(1) this] assms(2)
  show "b_carId b' \<in> set (map c_id (cars d'))"
    by (auto simp: bookings_constraint_def)
qed

lemma bookings_constraint_deleteCar:
  assumes "bookings_constraint d"
  shows "bookings_constraint (deleteCar cid d)"
  using assms by (auto simp: bookings_constraint_def deleteCar_def Let_def)

lemma bookings_constraint_post_step:
  assumes "bookings_constraint d"
  shows "bookings_constraint (snd (post_step env body state d))"
proof (cases state)
  case AwaitCheck
  with assms show ?thesis by (simp add: post_step_def)
next
  case AwaitBooking
  show ?thesis
  proof (cases "createBooking (e_bookingUuid env) (e_bookingNow env) (bookingDataOf env body) d")
    case (Inl error)
    with AwaitBooking assms show ?thesis by (simp add: post_step_def)
  next
    case (Inr pair)
    then obtain booking d1 where
      cb: "createBooking (e_bookingUuid env) (e_bookingNow env) (bookingDataOf env body) d
             = Inr (booking, d1)"
      by (cases pair) simp
    from createBooking_row(3-5) [OF this] assms have "bookings_constraint d1"
      by (auto simp: bookings_constraint_def)
    with AwaitBooking cb show ?thesis by (simp add: post_step_def)
  qed
next
  case (AwaitPayment booking)
  show ?thesis
  proof (cases "createPayment (e_paymentUuid env) (e_paymentNow env)
                  (paymentDataOf body booking) d")
    case (Inl error)
    with AwaitPayment assms show ?thesis by (simp add: post_step_def)
  next
    case (Inr pair)
    then obtain payment d2 where
      cp: "createPayment (e_paymentUuid env) (e_paymentNow env)
             (paymentDataOf body booking) d = Inr (payment, d2)"
      by (cases pair) simp
    from createPayment_row(6) [OF this] assms have "bookings_constraint d2"
      by (simp add: bookings_constraint_def)
    with AwaitPayment cp show ?thesis by (simp add: post_step_def)
  qed
next
  case (Responded r)
  with assms show ?thesis by (simp add: post_step_def)
qed

lemma bookings_constraint_updatePayment:
  assumes "updatePayment now pid paymentData d = Inr (row, d')" and "bookings_constraint d"
  shows "bookings_constraint d'"
proof -
  from assms(1) have "bookings d' = bookings d \<and> cars d' = cars d"
    by (auto simp: updatePayment_def Let_def split: if_splits sum.splits)
  with assms(2) show ?thesis by (simp add: bookings_constraint_def)
qed

lemma bookings_constraint_updateReview:
  assumes "updateReview now rid reviewData d = Inr (row, d')" and "bookings_constraint d"
  shows "bookings_constraint d'"
proof -
  from assms(1) have "bookings d' = bookings d \<and> cars d' = cars d"
    by (auto simp: updateReview_def Let_def split: if_splits)
  with assms(2) show ?thesis by (simp add: bookings_constraint_def)
qed

text \<open>
  Claim C7. In a database where every booking's \<open>carId\<close> names a car (the foreign key
  of \<open>bookings.carId\<close>, which every write above preserves), \<open>checkAvailability\<close> answers
  true for an identifier that is no car's, whatever the dates: it reports no
  error.
\<close>

theorem C7_unknown_car:
  assumes "bookings_constraint d"
      and "getCarById d carId = None"
  shows "checkAvailability d carId s e"
proof -
  from assms(2) have "carId \<notin> set (map c_id (cars d))"
    by (auto simp: getCarById_def firstRow_def filter_empty_conv split: list.splits)
  with assms(1) have "\<forall>b \<in> set (bookings d). b_carId b \<noteq> carId"
    by (auto simp: bookings_constraint_def)
  then show ?thesis
    by (simp add: checkAvailability_iff)
qed

theorem C7_unknown_car_witness:
  "bookings_constraint demo_db \<and> getCarById demo_db ''c9'' = None
   \<and> checkAvailability demo_db ''c9'' (june 1) (june 5)"
proof -
  have fk: "bookings_constraint demo_db"
    by (simp add: bookings_constraint_def demo_db_def mkBooking_def mkCar_def)
  have none: "getCarById demo_db ''c9'' = None"
    by (simp add: getCarById_def firstRow_def demo_db_def mkCar_def)
  from C7_unknown_car [OF fk none] fk none show ?thesis by simp
qed

end
